(* ===== verification/Prelude.thy ===== *)
theory Prelude
  imports Main "HOL-Library.AList" "HOL-Library.Char_ord" "HOL-Library.Word"
begin

text \<open>
  Vocabulary shared by every component: Go's byte strings, its signed 64-bit integers with the
  wrap-around written out, Go maps as association lists, and the generic lemmas and theorem
  collections that the component proofs draw on.
\<close>

section \<open>Collections\<close>

named_theorems go_defs \<open>definitions of Go library functions, unfolded to evaluate them\<close>
named_theorems map_simps \<open>lookup after update and delete\<close>

section \<open>Types\<close>

text \<open>
  A Go string is a sequence of bytes, so \<open>string\<close> (a list of 8-bit characters) is exact and
  \<open>length\<close> is Go's \<open>len\<close>. A Go \<open>map[K]V\<close> is an association list: the list
  order is the order one \<open>range\<close> over the map visits the keys in, which Go leaves
  unspecified, so a statement about all lists is a statement about all visiting orders. A well
  formed map has each key once (\<open>wf_map\<close>).
\<close>

type_synonym ('k, 'v) go_map = "('k \<times> 'v) list"

definition wf_map :: "('k, 'v) go_map \<Rightarrow> bool" where
  "wf_map m \<longleftrightarrow> distinct (map fst m)"

abbreviation keys_of :: "('k, 'v) go_map \<Rightarrow> 'k set" where
  "keys_of m \<equiv> fst ` set m"

lemma wf_map_Nil [simp, intro]: "wf_map []"
  by (simp add: wf_map_def)

lemma wf_map_update [simp, intro]: "wf_map m \<Longrightarrow> wf_map (AList.update k v m)"
  by (simp add: wf_map_def distinct_update)

lemma wf_map_delete [simp, intro]: "wf_map m \<Longrightarrow> wf_map (AList.delete k m)"
  by (simp add: wf_map_def distinct_delete)

lemma wf_map_Cons [simp]: "wf_map ((k, v) # m) \<longleftrightarrow> k \<notin> keys_of m \<and> wf_map m"
  by (auto simp: wf_map_def)

lemma wf_map_filter [simp, intro]: "wf_map m \<Longrightarrow> wf_map (filter P m)"
  by (induction m) (auto simp: wf_map_def)

lemma map_of_update_eq [simp, map_simps]:
  "map_of (AList.update k v m) k' = (if k' = k then Some v else map_of m k')"
  by (simp add: update_conv')

lemma map_of_delete_eq [simp, map_simps]:
  "map_of (AList.delete k m) k' = (if k' = k then None else map_of m k')"
  by (simp add: delete_conv')

lemma map_of_filter_pred:
  "wf_map m \<Longrightarrow> map_of (filter P m) k =
     (case map_of m k of None \<Rightarrow> None | Some v \<Rightarrow> if P (k, v) then Some v else None)"
  by (induction m) (auto simp: wf_map_def split: option.splits
      dest!: map_of_SomeD intro: rev_image_eqI)

lemma map_of_None_keys: "map_of m k = None \<longleftrightarrow> k \<notin> keys_of m"
  by (simp add: map_of_eq_None_iff)

section \<open>Signed 64-bit integers\<close>

text \<open>
  Go's \<open>int64\<close> and \<open>time.Duration\<close>: two's complement, arithmetic wraps. Values are
  kept as \<open>int\<close> and every operation that can overflow goes through \<open>wrap64\<close>, which
  is reading back the 64-bit word (\<open>wrap64_word\<close>).
\<close>

definition MaxInt64 :: int where "MaxInt64 = 9223372036854775807"
definition MinInt64 :: int where "MinInt64 = - 9223372036854775808"

definition wrap64 :: "int \<Rightarrow> int" where
  "wrap64 x = (x + 9223372036854775808) mod 18446744073709551616 - 9223372036854775808"

definition int64 :: "int \<Rightarrow> bool" where
  "int64 x \<longleftrightarrow> MinInt64 \<le> x \<and> x \<le> MaxInt64"

lemma wrap64_id [simp]: "int64 x \<Longrightarrow> wrap64 x = x"
  by (simp add: wrap64_def int64_def MaxInt64_def MinInt64_def)

lemma int64_wrap64 [simp]: "int64 (wrap64 x)"
  using pos_mod_sign [of 18446744073709551616 "x + 9223372036854775808"]
    pos_mod_bound [of 18446744073709551616 "x + 9223372036854775808"]
  by (simp add: wrap64_def int64_def MaxInt64_def MinInt64_def)

lemma wrap64_word: "wrap64 x = sint (word_of_int x :: 64 word)"
  by (simp add: wrap64_def sint_uint uint_word_of_int signed_take_bit_eq_take_bit_shift
      take_bit_eq_mod mod_add_left_eq)

section \<open>Joining\<close>

text \<open>\<open>strings.Join\<close>.\<close>

fun Join :: "string \<Rightarrow> string list \<Rightarrow> string" where
  "Join sep [] = []"
| "Join sep [x] = x"
| "Join sep (x # y # ys) = x @ sep @ Join sep (y # ys)"

lemma Join_Cons: "xs \<noteq> [] \<Longrightarrow> Join sep (x # xs) = x @ sep @ Join sep xs"
  by (cases xs) auto

lemma Join_Nil_iff: "sep \<noteq> [] \<Longrightarrow> Join sep xs = [] \<longleftrightarrow> xs = [] \<or> xs = [[]]"
  by (induction sep xs rule: Join.induct) auto

lemma Join_snoc: "xs \<noteq> [] \<Longrightarrow> Join sep (xs @ [x]) = Join sep xs @ sep @ x"
  by (induction sep xs rule: Join.induct) auto

section \<open>Lists cut at a separator\<close>

text \<open>
  Two facts the key grammars rest on: a string that avoids a separator is determined by what
  stands before the separator's first occurrence.
\<close>

lemma append_sep_inject:
  "c \<notin> set xs \<Longrightarrow> c \<notin> set xs' \<Longrightarrow>
   xs @ c # ys = xs' @ c # ys' \<longleftrightarrow> xs = xs' \<and> ys = ys'"
proof (induction xs arbitrary: xs')
  case Nil
  then show ?case by (cases xs') auto
next
  case (Cons x xs)
  then show ?case by (cases xs') auto
qed

lemma append_at_sep:
  "c \<notin> set xs \<Longrightarrow> c \<notin> set xs' \<Longrightarrow> ys = [] \<or> hd ys = c \<Longrightarrow> ys' = [] \<or> hd ys' = c \<Longrightarrow>
   xs @ ys = xs' @ ys' \<longleftrightarrow> xs = xs' \<and> ys = ys'"
proof (induction xs arbitrary: xs')
  case Nil
  then show ?case by (cases xs'; cases ys) auto
next
  case (Cons x xs)
  then show ?case by (cases xs'; cases ys') auto
qed

lemma append_sep_noteq: "c \<notin> set zs \<Longrightarrow> xs @ c # ys \<noteq> zs"
  by (auto simp: in_set_conv_decomp)

lemma takeWhile_sep: "c \<notin> set xs \<Longrightarrow> takeWhile (\<lambda>d. d \<noteq> c) (xs @ c # ys) = xs"
  by (induction xs) auto

end
