(* ===== verification/GoStrings.thy ===== *)
theory GoStrings
  imports Prelude
begin

text \<open>
  The functions of Go's \<open>strings\<close> package (and the two of \<open>strconv\<close>) that the
  repository calls, on byte strings.

  Case mapping and white space are Unicode-aware in Go. \<open>TrimSpace\<close> is exact: it strips the
  UTF-8 encodings of every code point with the White\_Space property. \<open>ToLower\<close> lowers the
  ASCII letters and the two non-ASCII code points whose lower case is an ASCII letter (U+0130 and
  U+212A) and leaves every other byte: it yields an ASCII string exactly when Go's does, and then
  the same one. The repository only ever compares its results with ASCII literals.
  \<open>EqualFold\<close> is exact whenever one of its arguments is ASCII, which is how the repository
  calls it: the two code points that fold to an ASCII letter are U+017F and U+212A.
\<close>

section \<open>Characters\<close>

abbreviation DQUOTE :: char where "DQUOTE \<equiv> CHR 0x22"
abbreviation BACKSLASH :: char where "BACKSLASH \<equiv> CHR 0x5C"
abbreviation COMMA :: char where "COMMA \<equiv> CHR '',''"

definition is_digit :: "char \<Rightarrow> bool" where
  "is_digit c \<longleftrightarrow> CHR ''0'' \<le> c \<and> c \<le> CHR ''9''"

definition is_upper :: "char \<Rightarrow> bool" where
  "is_upper c \<longleftrightarrow> CHR ''A'' \<le> c \<and> c \<le> CHR ''Z''"

definition is_lower :: "char \<Rightarrow> bool" where
  "is_lower c \<longleftrightarrow> CHR ''a'' \<le> c \<and> c \<le> CHR ''z''"

definition digit_val :: "char \<Rightarrow> int" where
  "digit_val c = int (of_char c) - 48"

definition ascii_lower :: "char \<Rightarrow> char" where
  "ascii_lower c = (if is_upper c then char_of (of_char c + 32 :: nat) else c)"

definition ascii_upper :: "char \<Rightarrow> char" where
  "ascii_upper c = (if is_lower c then char_of (of_char c - 32 :: nat) else c)"

definition is_ascii :: "char \<Rightarrow> bool" where
  "is_ascii c \<longleftrightarrow> (of_char c :: nat) < 128"

lemmas char_class_defs = is_digit_def is_upper_def is_lower_def is_ascii_def less_eq_char_def

lemma is_digit_val: "is_digit c \<Longrightarrow> 0 \<le> digit_val c \<and> digit_val c \<le> 9"
  by (simp add: is_digit_def digit_val_def less_eq_char_def)

lemma is_digit_upper: "is_digit c \<Longrightarrow> \<not> is_upper c"
  by (simp add: char_class_defs)

lemma ascii_lower_not_upper: "\<not> is_upper c \<Longrightarrow> ascii_lower c = c"
  by (simp add: ascii_lower_def)

lemma is_upper_range: "is_upper c \<Longrightarrow> of_char c + 32 < (256::nat)"
  by (simp add: char_class_defs)

lemma of_char_ascii_lower:
  "of_char (ascii_lower c) = (if is_upper c then of_char c + 32 else of_char c :: nat)"
  using is_upper_range [of c] by (simp add: ascii_lower_def)

lemma ascii_lower_idem [simp]: "ascii_lower (ascii_lower c) = ascii_lower c"
  by (subst ascii_lower_not_upper) (auto simp: char_class_defs of_char_ascii_lower)

section \<open>Prefixes, suffixes, cutting\<close>

definition HasPrefix :: "string \<Rightarrow> string \<Rightarrow> bool" where
  "HasPrefix s p \<longleftrightarrow> take (length p) s = p"

definition HasSuffix :: "string \<Rightarrow> string \<Rightarrow> bool" where
  "HasSuffix s p \<longleftrightarrow> length p \<le> length s \<and> drop (length s - length p) s = p"

definition TrimPrefix :: "string \<Rightarrow> string \<Rightarrow> string" where
  "TrimPrefix s p = (if HasPrefix s p then drop (length p) s else s)"

text \<open>\<open>strings.Cut\<close> at a one-byte separator: before, after, found.\<close>

fun Cut :: "char \<Rightarrow> string \<Rightarrow> string \<times> string \<times> bool" where
  "Cut sep [] = ([], [], False)"
| "Cut sep (c # cs) =
     (if c = sep then ([], cs, True)
      else (case Cut sep cs of (b, a, ok) \<Rightarrow> (c # b, a, ok)))"

text \<open>\<open>strings.Split\<close> and \<open>strings.SplitSeq\<close> at a one-byte separator.\<close>

fun Split :: "char \<Rightarrow> string \<Rightarrow> string list" where
  "Split sep [] = [[]]"
| "Split sep (c # cs) =
     (if c = sep then [] # Split sep cs
      else (case Split sep cs of [] \<Rightarrow> [[c]] | p # ps \<Rightarrow> (c # p) # ps))"

text \<open>\<open>strings.SplitN(s, sep, 2)\<close>.\<close>

definition SplitN2 :: "char \<Rightarrow> string \<Rightarrow> string list" where
  "SplitN2 sep s = (case Cut sep s of (b, a, ok) \<Rightarrow> if ok then [b, a] else [s])"

text \<open>\<open>strings.LastIndex\<close>: -1 when absent.\<close>

definition LastIndex :: "string \<Rightarrow> string \<Rightarrow> int" where
  "LastIndex s sub =
     (case filter (\<lambda>i. HasPrefix (drop i s) sub) (rev [0..<Suc (length s)]) of
        [] \<Rightarrow> -1 | i # _ \<Rightarrow> int i)"

text \<open>\<open>strings.ReplaceAll\<close> of a two-byte pattern by a one-byte string.\<close>

fun ReplaceAll2 :: "char \<Rightarrow> char \<Rightarrow> char \<Rightarrow> string \<Rightarrow> string" where
  "ReplaceAll2 x y z [] = []"
| "ReplaceAll2 x y z [c] = [c]"
| "ReplaceAll2 x y z (c # d # cs) =
     (if c = x \<and> d = y then z # ReplaceAll2 x y z cs
      else c # ReplaceAll2 x y z (d # cs))"

lemma HasPrefix_iff: "HasPrefix s p \<longleftrightarrow> (\<exists>t. s = p @ t)"
  unfolding HasPrefix_def by (metis append_eq_conv_conj append_take_drop_id)

lemma HasPrefix_append [simp]: "HasPrefix (p @ s) p"
  by (simp add: HasPrefix_def)

lemma HasPrefix_Nil [simp]: "HasPrefix s []"
  by (simp add: HasPrefix_def)

lemma HasSuffix_append [simp]: "HasSuffix (s @ p) p"
  by (simp add: HasSuffix_def)

lemma HasSuffixD: "HasSuffix s p \<Longrightarrow> s = take (length s - length p) s @ p"
  unfolding HasSuffix_def by (metis append_take_drop_id)

lemma Cut_found: "sep \<notin> set b \<Longrightarrow> Cut sep (b @ sep # a) = (b, a, True)"
  by (induction b) auto

lemma Cut_absent: "sep \<notin> set s \<Longrightarrow> Cut sep s = (s, [], False)"
  by (induction s) auto

lemma Cut_SomeD: "Cut sep s = (b, a, True) \<Longrightarrow> s = b @ sep # a \<and> sep \<notin> set b"
  by (induction s arbitrary: b) (auto split: if_splits prod.splits)

lemma Cut_NoneD: "Cut sep s = (b, a, False) \<Longrightarrow> b = s \<and> a = [] \<and> sep \<notin> set s"
  by (induction s arbitrary: b) (auto split: if_splits prod.splits)

lemma Split_nonempty [simp]: "Split sep s \<noteq> []"
  by (induction s) (auto split: list.splits)

lemma Split_absent: "sep \<notin> set s \<Longrightarrow> Split sep s = [s]"
  by (induction s) auto

lemma Split_parts: "p \<in> set (Split sep s) \<Longrightarrow> sep \<notin> set p"
  by (induction s arbitrary: p) (auto split: if_splits list.splits)

lemma Join_Split: "Join [sep] (Split sep s) = s"
proof (induction s)
  case (Cons c s)
  obtain p ps where "Split sep s = p # ps" by (cases "Split sep s") auto
  with Cons show ?case by (cases ps) auto
qed simp

section \<open>White space and case\<close>

text \<open>The UTF-8 encodings of the code points \<open>unicode.IsSpace\<close> accepts.\<close>

definition utf8_spaces :: "string list" where
  "utf8_spaces =
     [[CHR 0x20], [CHR 0x09], [CHR 0x0A], [CHR 0x0B], [CHR 0x0C], [CHR 0x0D],
      [CHR 0xC2, CHR 0x85], [CHR 0xC2, CHR 0xA0], [CHR 0xE1, CHR 0x9A, CHR 0x80],
      [CHR 0xE2, CHR 0x80, CHR 0x80], [CHR 0xE2, CHR 0x80, CHR 0x81],
      [CHR 0xE2, CHR 0x80, CHR 0x82], [CHR 0xE2, CHR 0x80, CHR 0x83],
      [CHR 0xE2, CHR 0x80, CHR 0x84], [CHR 0xE2, CHR 0x80, CHR 0x85],
      [CHR 0xE2, CHR 0x80, CHR 0x86], [CHR 0xE2, CHR 0x80, CHR 0x87],
      [CHR 0xE2, CHR 0x80, CHR 0x88], [CHR 0xE2, CHR 0x80, CHR 0x89],
      [CHR 0xE2, CHR 0x80, CHR 0x8A], [CHR 0xE2, CHR 0x80, CHR 0xA8],
      [CHR 0xE2, CHR 0x80, CHR 0xA9], [CHR 0xE2, CHR 0x80, CHR 0xAF],
      [CHR 0xE2, CHR 0x81, CHR 0x9F], [CHR 0xE3, CHR 0x80, CHR 0x80]]"

function strip_front :: "string list \<Rightarrow> string \<Rightarrow> string" where
  "strip_front ps s =
     (case find (\<lambda>p. p \<noteq> [] \<and> HasPrefix s p) ps of
        None \<Rightarrow> s
      | Some p \<Rightarrow> strip_front ps (drop (length p) s))"
  by pat_completeness auto
termination
proof (relation "measure (\<lambda>(ps, s). length s)")
  fix ps s p
  assume "find (\<lambda>p. p \<noteq> [] \<and> HasPrefix s p) ps = Some p"
  then have "p \<noteq> []" and "HasPrefix s p" by (auto simp: find_Some_iff)
  then show "((ps, drop (length p) s), ps, s) \<in> measure (\<lambda>(ps, s). length s)"
    by (auto simp: HasPrefix_iff)
qed simp

declare strip_front.simps [simp del]

definition TrimSpace :: "string \<Rightarrow> string" where
  "TrimSpace s =
     rev (strip_front (map rev utf8_spaces) (rev (strip_front utf8_spaces s)))"

fun ToLower :: "string \<Rightarrow> string" where
  "ToLower [] = []"
| "ToLower (c # cs) =
     (if HasPrefix (c # cs) [CHR 0xC4, CHR 0xB0] then CHR ''i'' # ToLower (drop 1 cs)
      else if HasPrefix (c # cs) [CHR 0xE2, CHR 0x84, CHR 0xAA] then CHR ''k'' # ToLower (drop 2 cs)
      else ascii_lower c # ToLower cs)"

fun fold_case :: "string \<Rightarrow> string" where
  "fold_case [] = []"
| "fold_case (c # cs) =
     (if HasPrefix (c # cs) [CHR 0xC5, CHR 0xBF] then CHR ''s'' # fold_case (drop 1 cs)
      else if HasPrefix (c # cs) [CHR 0xE2, CHR 0x84, CHR 0xAA] then CHR ''k'' # fold_case (drop 2 cs)
      else ascii_lower c # fold_case cs)"

definition EqualFold :: "string \<Rightarrow> string \<Rightarrow> bool" where
  "EqualFold s t \<longleftrightarrow> fold_case s = fold_case t"

text \<open>A string no white space begins or ends is left alone.\<close>

definition space_head :: "string list \<Rightarrow> string \<Rightarrow> bool" where
  "space_head ps s \<longleftrightarrow> (\<exists>p \<in> set ps. p \<noteq> [] \<and> HasPrefix s p)"

lemma strip_front_stop: "\<not> space_head ps s \<Longrightarrow> strip_front ps s = s"
proof -
  assume "\<not> space_head ps s"
  then have "find (\<lambda>p. p \<noteq> [] \<and> HasPrefix s p) ps = None"
    by (auto simp: find_None_iff space_head_def)
  then show ?thesis by (subst strip_front.simps) simp
qed

lemma strip_front_Nil [simp]: "strip_front ps [] = []"
  by (rule strip_front_stop) (simp add: space_head_def HasPrefix_def)

lemma TrimSpace_Nil [simp]: "TrimSpace [] = []"
  by (simp add: TrimSpace_def)

text \<open>Trimming an ASCII-free-of-space edge: the first and last bytes decide.\<close>

definition edge_byte :: "char \<Rightarrow> bool" where
  "edge_byte c \<longleftrightarrow> is_ascii c \<and> c \<notin> {CHR 0x20, CHR 0x09, CHR 0x0A, CHR 0x0B, CHR 0x0C, CHR 0x0D}"

lemma utf8_spaces_edges:
  "list_all (\<lambda>p. p \<noteq> [] \<and> \<not> edge_byte (hd p) \<and> \<not> edge_byte (last p)) utf8_spaces"
  by (simp add: utf8_spaces_def edge_byte_def is_ascii_def)

lemma HasPrefix_hd: "HasPrefix s p \<Longrightarrow> p \<noteq> [] \<Longrightarrow> hd s = hd p"
  by (auto simp: HasPrefix_iff)

lemma space_head_edge: "edge_byte (hd s) \<Longrightarrow> \<not> space_head utf8_spaces s"
  using utf8_spaces_edges by (auto simp: space_head_def list_all_iff dest: HasPrefix_hd)

lemma space_tail_edge: "edge_byte (hd s) \<Longrightarrow> \<not> space_head (map rev utf8_spaces) s"
  using utf8_spaces_edges
  by (auto simp: space_head_def list_all_iff hd_rev dest!: HasPrefix_hd)

lemma TrimSpace_edges:
  assumes "s \<noteq> []" "edge_byte (hd s)" "edge_byte (last s)"
  shows "TrimSpace s = s"
proof -
  have "strip_front utf8_spaces s = s"
    using assms by (intro strip_front_stop space_head_edge)
  moreover have "strip_front (map rev utf8_spaces) (rev s) = rev s"
    using assms by (intro strip_front_stop space_tail_edge) (auto simp: hd_rev)
  ultimately show ?thesis by (simp add: TrimSpace_def)
qed

lemma fold_case_Nil_iff [simp]: "fold_case s = [] \<longleftrightarrow> s = []"
  by (cases s) auto

lemma EqualFold_refl [simp]: "EqualFold s s"
  by (simp add: EqualFold_def)

lemma EqualFold_sym: "EqualFold s t = EqualFold t s"
  by (auto simp: EqualFold_def)

lemma ToLower_ascii: "list_all is_ascii s \<Longrightarrow> ToLower s = map ascii_lower s"
  by (induction s) (auto simp: HasPrefix_iff is_ascii_def)

lemma fold_case_ascii: "list_all is_ascii s \<Longrightarrow> fold_case s = map ascii_lower s"
  by (induction s) (auto simp: HasPrefix_iff is_ascii_def)

section \<open>Decimal numbers\<close>

text \<open>The value of a digit string, most significant digit first.\<close>

definition decimal_value :: "string \<Rightarrow> int" where
  "decimal_value s = foldl (\<lambda>n c. n * 10 + digit_val c) 0 s"

lemma decimal_value_Nil [simp]: "decimal_value [] = 0"
  by (simp add: decimal_value_def)

lemma decimal_value_snoc [simp]: "decimal_value (s @ [c]) = decimal_value s * 10 + digit_val c"
  by (simp add: decimal_value_def)

lemma decimal_value_bounds:
  "list_all is_digit s \<Longrightarrow> 0 \<le> decimal_value s \<and> decimal_value s < 10 ^ length s"
proof (induction s rule: rev_induct)
  case (snoc c s)
  then have "0 \<le> decimal_value s" "decimal_value s < 10 ^ length s"
    and "0 \<le> digit_val c" "digit_val c \<le> 9"
    using is_digit_val [of c] by auto
  then show ?case by simp
qed simp

lemmas decimal_value_nonneg = decimal_value_bounds [THEN conjunct1]
lemmas decimal_value_less = decimal_value_bounds [THEN conjunct2]

text \<open>\<open>strconv.Itoa\<close> on a natural number.\<close>

fun Itoa :: "nat \<Rightarrow> string" where
  "Itoa n = (if n < 10 then [char_of (48 + n)] else Itoa (n div 10) @ [char_of (48 + n mod 10)])"

declare Itoa.simps [simp del]

lemma digit_char: "n < 10 \<Longrightarrow> is_digit (char_of (48 + n)) \<and> digit_val (char_of (48 + n)) = int n"
  by (simp add: is_digit_def digit_val_def less_eq_char_def)

lemma Itoa_digits: "list_all is_digit (Itoa n)"
proof (induction n rule: Itoa.induct)
  case (1 n)
  then show ?case by (subst Itoa.simps) (auto simp: digit_char)
qed

lemma Itoa_nonempty [simp]: "Itoa n \<noteq> []"
  by (subst Itoa.simps) simp

lemma decimal_value_Itoa [simp]: "decimal_value (Itoa n) = int n"
proof (induction n rule: Itoa.induct)
  case (1 n)
  show ?case
  proof (cases "n < 10")
    case True
    then show ?thesis
      by (subst Itoa.simps) (simp add: decimal_value_def digit_char)
  next
    case False
    have "int (n div 10) * 10 + int (n mod 10) = int n"
      by (metis div_mult_mod_eq of_nat_add of_nat_mult of_nat_numeral)
    with 1 False show ?thesis by (subst Itoa.simps) (simp add: digit_char)
  qed
qed

lemma Itoa_length: "n < 10 ^ k \<Longrightarrow> 0 < k \<Longrightarrow> length (Itoa n) \<le> k"
proof (induction n arbitrary: k rule: Itoa.induct)
  case (1 n)
  show ?case
  proof (cases "n < 10")
    case False
    with "1.prems" obtain j where k: "k = Suc j" and "0 < j"
      by (cases k) (auto, metis One_nat_def gr0I power_0 power_one_right mult.right_neutral)
    with False "1.prems" have "n div 10 < 10 ^ j" by (simp add: div_less_iff_less_mult mult.commute)
    with 1 False k \<open>0 < j\<close> show ?thesis by (subst Itoa.simps) simp
  qed (use "1.prems" in \<open>subst Itoa.simps; simp\<close>)
qed

end
