(* ===== verification/GoTime.thy ===== *)
theory GoTime
  imports GoStrings "HOL-Library.Monad_Syntax"
begin

text \<open>
  Go's \<open>time.Time\<close> and \<open>time.Duration\<close>, and \<open>http.ParseTime\<close>.

  A time is the number of nanoseconds since Go's zero time (January 1, year 1, 00:00:00 UTC), so
  \<open>IsZero\<close> is equality with 0. A duration is an \<open>int64\<close> nanosecond count.
  \<open>Sub\<close> saturates, as Go's does; adding durations wraps (\<open>wrap64\<close>).
\<close>

type_synonym time = int
type_synonym duration = int

definition Nanosecond :: duration where "Nanosecond = 1"
definition Second :: duration where "Second = 1000000000"
definition Minute :: duration where "Minute = 60000000000"
definition Hour :: duration where "Hour = 3600000000000"

lemmas duration_units = Nanosecond_def Second_def Minute_def Hour_def

definition IsZero :: "time \<Rightarrow> bool" where "IsZero t \<longleftrightarrow> t = 0"
definition After :: "time \<Rightarrow> time \<Rightarrow> bool" where "After t u \<longleftrightarrow> u < t"
definition Before :: "time \<Rightarrow> time \<Rightarrow> bool" where "Before t u \<longleftrightarrow> t < u"
definition Add :: "time \<Rightarrow> duration \<Rightarrow> time" where "Add t d = t + d"

definition Sub :: "time \<Rightarrow> time \<Rightarrow> duration" where
  "Sub t u = max MinInt64 (min MaxInt64 (t - u))"

lemma int64_Sub [simp]: "int64 (Sub t u)"
  by (simp add: Sub_def int64_def MaxInt64_def MinInt64_def)

lemma Sub_self [simp]: "Sub t t = 0"
  by (simp add: Sub_def MaxInt64_def MinInt64_def)

lemma Sub_exact: "int64 (t - u) \<Longrightarrow> Sub t u = t - u"
  by (simp add: Sub_def int64_def)

lemma Sub_mono: "t \<le> t' \<Longrightarrow> Sub t u \<le> Sub t' u"
  by (simp add: Sub_def)

section \<open>Calendar\<close>

definition is_leap :: "int \<Rightarrow> bool" where
  "is_leap y \<longleftrightarrow> y mod 4 = 0 \<and> (y mod 100 \<noteq> 0 \<or> y mod 400 = 0)"

definition days_in :: "nat \<Rightarrow> int \<Rightarrow> int" where
  "days_in m y =
     (if m = 2 then (if is_leap y then 29 else 28)
      else if m = 4 \<or> m = 6 \<or> m = 9 \<or> m = 11 then 30 else 31)"

definition days_before_year :: "int \<Rightarrow> int" where
  "days_before_year y = 365 * (y - 1) + (y - 1) div 4 - (y - 1) div 100 + (y - 1) div 400"

definition days_before_month :: "nat \<Rightarrow> int \<Rightarrow> int" where
  "days_before_month m y = sum_list (map (\<lambda>i. days_in i y) [1..<m])"

text \<open>\<open>time.Date\<close> in UTC, for fields already in range.\<close>

definition Date :: "int \<Rightarrow> nat \<Rightarrow> int \<Rightarrow> int \<Rightarrow> int \<Rightarrow> int \<Rightarrow> int \<Rightarrow> time" where
  "Date y m d hh mm ss ns =
     ((((days_before_year y + days_before_month m y + (d - 1)) * 24 + hh) * 60 + mm) * 60 + ss)
       * 1000000000 + ns"

section \<open>Parsing by layout\<close>

text \<open>
  \<open>time.Parse\<close> on the three layouts \<open>http.ParseTime\<close> tries, cut into the chunks Go's
  \<open>nextStdChunk\<close> finds. \<open>None\<close> is a parse error.
\<close>

datatype chunk =
    Lit string \<comment> \<open>literal text; a blank matches any run of blanks\<close>
  | ShortDay | LongDay | ShortMonth | ZeroDay | UnderDay | LongYear | ShortYear
  | Hour24 | ZeroMinute | ZeroSecond | ZoneName

record fields =
  f_year :: int
  f_month :: nat
  f_day :: int
  f_hour :: int
  f_min :: int
  f_sec :: int
  f_nsec :: int

definition no_fields :: fields where
  "no_fields = \<lparr>f_year = 0, f_month = 1, f_day = 1, f_hour = 0, f_min = 0, f_sec = 0, f_nsec = 0\<rparr>"

definition short_months :: "string list" where
  "short_months = [''Jan'', ''Feb'', ''Mar'', ''Apr'', ''May'', ''Jun'',
     ''Jul'', ''Aug'', ''Sep'', ''Oct'', ''Nov'', ''Dec'']"

definition long_days :: "string list" where
  "long_days = [''Sunday'', ''Monday'', ''Tuesday'', ''Wednesday'', ''Thursday'', ''Friday'',
     ''Saturday'']"

definition short_days :: "string list" where
  "short_days = [''Sun'', ''Mon'', ''Tue'', ''Wed'', ''Thu'', ''Fri'', ''Sat'']"

fun digit_at :: "string \<Rightarrow> bool" where
  "digit_at [] = False"
| "digit_at (c # cs) = is_digit c"

text \<open>\<open>lookup\<close>: the first table entry that is a prefix, ASCII letters matched in any case.\<close>

fun lookup_name :: "string list \<Rightarrow> nat \<Rightarrow> string \<Rightarrow> (nat \<times> string) option" where
  "lookup_name [] i s = None"
| "lookup_name (v # vs) i s =
     (if length v \<le> length s \<and> map ascii_lower (take (length v) s) = map ascii_lower v
      then Some (i, drop (length v) s) else lookup_name vs (Suc i) s)"

text \<open>\<open>getnum\<close>: one or two digits, exactly two when \<open>fixed\<close>.\<close>

fun getnum :: "bool \<Rightarrow> string \<Rightarrow> (int \<times> string) option" where
  "getnum fixed [] = None"
| "getnum fixed (c # cs) =
     (if \<not> is_digit c then None
      else if digit_at cs then Some (digit_val c * 10 + digit_val (hd cs), tl cs)
      else if fixed then None else Some (digit_val c, cs))"

text \<open>\<open>time.atoi\<close>: an optional sign, then only digits (no digit at all counts as 0).\<close>

definition time_atoi :: "string \<Rightarrow> int option" where
  "time_atoi s =
     (let neg = (s \<noteq> [] \<and> hd s = CHR ''-'');
          t = (if s \<noteq> [] \<and> (hd s = CHR ''-'' \<or> hd s = CHR ''+'') then tl s else s)
      in if list_all is_digit t then Some (if neg then - decimal_value t else decimal_value t)
         else None)"

fun cutspace :: "string \<Rightarrow> string" where
  "cutspace [] = []"
| "cutspace (c # cs) = (if c = CHR '' '' then cutspace cs else c # cs)"

lemma cutspace_length: "length (cutspace s) \<le> length s"
  by (induction s) auto

text \<open>\<open>skip\<close>: match the literal text of a layout.\<close>

function skip_lit :: "string \<Rightarrow> string \<Rightarrow> string option" where
  "skip_lit [] s = Some s"
| "skip_lit (p # ps) s =
     (if p = CHR '' '' then
        (if s \<noteq> [] \<and> hd s \<noteq> CHR '' '' then None else skip_lit (cutspace ps) (cutspace s))
      else (case s of [] \<Rightarrow> None | c # cs \<Rightarrow> if c = p then skip_lit ps cs else None))"
  by pat_completeness auto
termination
  by (relation "measure (\<lambda>(ps, s). length ps)") (auto intro: le_imp_less_Suc cutspace_length)

definition range_check :: "int \<Rightarrow> (int \<times> string) option \<Rightarrow> (int \<times> string) option" where
  "range_check n r = do { (v, s) \<leftarrow> r; if v < n then Some (v, s) else None }"

text \<open>
  The fraction of a second Go accepts after the seconds even where the layout has none: at most
  nine digits count, the rest are dropped.
\<close>

definition parse_fraction :: "string \<Rightarrow> int \<times> string" where
  "parse_fraction s =
     (case s of
        c # cs \<Rightarrow>
          if (c = CHR ''.'' \<or> c = CHR '','') \<and> digit_at cs then
            (let ds = takeWhile is_digit cs; us = take 9 ds
             in (decimal_value us * 10 ^ (9 - length us), drop (length ds) cs))
          else (0, s)
      | [] \<Rightarrow> (0, s))"

text \<open>\<open>parseSignedOffset\<close> and \<open>parseTimeZone\<close>: the length of the zone's name.\<close>

definition signed_offset_length :: "string \<Rightarrow> nat" where
  "signed_offset_length s =
     (case s of
        [] \<Rightarrow> 0
      | c # cs \<Rightarrow>
          if c \<noteq> CHR ''-'' \<and> c \<noteq> CHR ''+'' then 0
          else let ds = takeWhile is_digit cs
               in if ds = [] \<or> 23 < decimal_value ds then 0 else 1 + length ds)"

definition zone_length :: "string \<Rightarrow> nat option" where
  "zone_length s =
     (if length s < 3 then None
      else if HasPrefix s ''ChST'' \<or> HasPrefix s ''MeST'' then Some 4
      else if HasPrefix s ''GMT'' then Some (3 + signed_offset_length (drop 3 s))
      else if hd s = CHR ''+'' \<or> hd s = CHR ''-'' then
        (let n = signed_offset_length s in if 0 < n then Some n else None)
      else
        (let n = length (takeWhile is_upper (take 6 s))
         in if n = 5 then (if s ! 4 = CHR ''T'' then Some 5 else None)
            else if n = 4 then
              (if s ! 3 = CHR ''T'' \<or> HasPrefix s ''WITA'' then Some 4 else None)
            else if n = 3 then Some 3 else None))"

fun parse_chunk :: "chunk \<Rightarrow> fields \<Rightarrow> string \<Rightarrow> (fields \<times> string) option" where
  "parse_chunk (Lit p) f s = do { s' \<leftarrow> skip_lit p s; Some (f, s') }"
| "parse_chunk ShortDay f s = do { (_, s') \<leftarrow> lookup_name short_days 0 s; Some (f, s') }"
| "parse_chunk LongDay f s = do { (_, s') \<leftarrow> lookup_name long_days 0 s; Some (f, s') }"
| "parse_chunk ShortMonth f s =
     do { (m, s') \<leftarrow> lookup_name short_months 1 s; Some (f\<lparr>f_month := m\<rparr>, s') }"
| "parse_chunk ZeroDay f s = do { (d, s') \<leftarrow> getnum True s; Some (f\<lparr>f_day := d\<rparr>, s') }"
| "parse_chunk UnderDay f s =
     do { (d, s') \<leftarrow> getnum False (case s of c # cs \<Rightarrow> if c = CHR '' '' then cs else s | [] \<Rightarrow> s);
          Some (f\<lparr>f_day := d\<rparr>, s') }"
| "parse_chunk LongYear f s =
     (if length s < 4 \<or> \<not> digit_at s then None
      else do { y \<leftarrow> time_atoi (take 4 s); Some (f\<lparr>f_year := y\<rparr>, drop 4 s) })"
| "parse_chunk ShortYear f s =
     (if length s < 2 then None
      else do { y \<leftarrow> time_atoi (take 2 s);
                Some (f\<lparr>f_year := (if 69 \<le> y then y + 1900 else y + 2000)\<rparr>, drop 2 s) })"
| "parse_chunk Hour24 f s =
     do { (h, s') \<leftarrow> range_check 24 (getnum False s); Some (f\<lparr>f_hour := h\<rparr>, s') }"
| "parse_chunk ZeroMinute f s =
     do { (m, s') \<leftarrow> range_check 60 (getnum True s); Some (f\<lparr>f_min := m\<rparr>, s') }"
| "parse_chunk ZeroSecond f s =
     do { (sec, s') \<leftarrow> range_check 60 (getnum True s);
          let (ns, s'') = parse_fraction s' in Some (f\<lparr>f_sec := sec, f_nsec := ns\<rparr>, s'') }"
| "parse_chunk ZoneName f s =
     (if HasPrefix s ''UTC'' then Some (f, drop 3 s)
      else do { n \<leftarrow> zone_length s; Some (f, drop n s) })"

fun parse_chunks :: "chunk list \<Rightarrow> fields \<Rightarrow> string \<Rightarrow> fields option" where
  "parse_chunks [] f s = (if s = [] then Some f else None)"
| "parse_chunks (c # cs) f s = do { (f', s') \<leftarrow> parse_chunk c f s; parse_chunks cs f' s' }"

text \<open>
  Only the day of the month is checked against the date; a named zone does not move the instant
  (Go's \<open>Parse\<close> reads an unknown abbreviation as UTC with that name).
\<close>

definition time_Parse :: "chunk list \<Rightarrow> string \<Rightarrow> time option" where
  "time_Parse layout s =
     do { f \<leftarrow> parse_chunks layout no_fields s;
          if f_day f < 1 \<or> days_in (f_month f) (f_year f) < f_day f then None
          else Some (Date (f_year f) (f_month f) (f_day f) (f_hour f) (f_min f) (f_sec f) (f_nsec f)) }"

definition TimeFormat :: "chunk list" where
  "TimeFormat = [ShortDay, Lit '', '', ZeroDay, Lit '' '', ShortMonth, Lit '' '', LongYear, Lit '' '',
     Hour24, Lit '':'', ZeroMinute, Lit '':'', ZeroSecond, Lit '' GMT'']"

definition RFC850 :: "chunk list" where
  "RFC850 = [LongDay, Lit '', '', ZeroDay, Lit ''-'', ShortMonth, Lit ''-'', ShortYear, Lit '' '',
     Hour24, Lit '':'', ZeroMinute, Lit '':'', ZeroSecond, Lit '' '', ZoneName]"

definition ANSIC :: "chunk list" where
  "ANSIC = [ShortDay, Lit '' '', ShortMonth, Lit '' '', UnderDay, Lit '' '',
     Hour24, Lit '':'', ZeroMinute, Lit '':'', ZeroSecond, Lit '' '', LongYear]"

definition ParseTime :: "string \<Rightarrow> time option" where
  "ParseTime s =
     (case time_Parse TimeFormat s of
        Some t \<Rightarrow> Some t
      | None \<Rightarrow> (case time_Parse RFC850 s of Some t \<Rightarrow> Some t | None \<Rightarrow> time_Parse ANSIC s))"

text \<open>The Unix epoch, as nanoseconds since the zero time, and one date in all three formats.\<close>

lemma ParseTime_epoch: "ParseTime ''Thu, 01 Jan 1970 00:00:00 GMT'' = Some (62135596800 * Second)"
  by code_simp

lemma ParseTime_ANSIC: "ParseTime ''Thu Jan  1 00:00:01 1970'' = Some (62135596801 * Second)"
  by code_simp

end
