(* ===== verification/Header.thy ===== *)
theory Header
  imports GoTime
begin

text \<open>
  \<open>net/http\<close>'s \<open>Header\<close>: a map from names to value lists, keyed in canonical
  form. A nil header is \<open>None\<close> where the code tells it apart from an empty one
  (\<open>header option\<close>); reading a nil header is reading an empty one.
\<close>

type_synonym header = "(string, string list) go_map"

section \<open>Canonical names\<close>

text \<open>\<open>textproto.CanonicalMIMEHeaderKey\<close>: names with a byte no token has stay as they are.\<close>

definition valid_header_byte :: "char \<Rightarrow> bool" where
  "valid_header_byte c \<longleftrightarrow>
     is_digit c \<or> is_upper c \<or> is_lower c \<or>
     c \<in> set ''!#$%&*+-.^_|~'' \<or> c = CHR 0x27 \<or> c = CHR 0x60"

fun canonical_from :: "bool \<Rightarrow> string \<Rightarrow> string" where
  "canonical_from up [] = []"
| "canonical_from up (c # cs) =
     (if up then ascii_upper c else ascii_lower c) # canonical_from (c = CHR ''-'') cs"

definition CanonicalHeaderKey :: "string \<Rightarrow> string" where
  "CanonicalHeaderKey s = (if list_all valid_header_byte s then canonical_from True s else s)"

lemma of_char_ascii_upper:
  "of_char (ascii_upper c) = (if is_lower c then of_char c - 32 else of_char c :: nat)"
proof -
  have "is_lower c \<Longrightarrow> of_char c - 32 < (256::nat)"
    by (auto simp: is_lower_def less_eq_char_def)
  then show ?thesis by (simp add: ascii_upper_def)
qed

lemma case_dash [simp]:
  "ascii_upper c = CHR ''-'' \<longleftrightarrow> c = CHR ''-''"
  "ascii_lower c = CHR ''-'' \<longleftrightarrow> c = CHR ''-''"
proof -
  have "of_char (CHR ''-'') = (45::nat)" by simp
  then have dash: "d = CHR ''-'' \<longleftrightarrow> of_char d = (45::nat)" for d
    by (metis of_char_eqI)
  show "ascii_upper c = CHR ''-'' \<longleftrightarrow> c = CHR ''-''"
    unfolding dash of_char_ascii_upper by (auto simp: is_lower_def less_eq_char_def)
  show "ascii_lower c = CHR ''-'' \<longleftrightarrow> c = CHR ''-''"
    unfolding dash of_char_ascii_lower by (auto simp: is_upper_def less_eq_char_def)
qed

lemma ascii_upper_idem [simp]: "ascii_upper (ascii_upper c) = ascii_upper c"
proof (cases "is_lower c")
  case True
  then have "\<not> is_lower (ascii_upper c)"
    by (auto simp: is_lower_def less_eq_char_def of_char_ascii_upper)
  then show ?thesis by (simp add: ascii_upper_def)
qed (simp add: ascii_upper_def)

lemma valid_header_case:
  "valid_header_byte c \<Longrightarrow> valid_header_byte (ascii_upper c) \<and> valid_header_byte (ascii_lower c)"
proof -
  assume c: "valid_header_byte c"
  have "is_lower c \<Longrightarrow> is_upper (ascii_upper c)"
    by (auto simp: is_lower_def is_upper_def less_eq_char_def of_char_ascii_upper)
  moreover have "is_upper c \<Longrightarrow> is_lower (ascii_lower c)"
    by (auto simp: is_lower_def is_upper_def less_eq_char_def of_char_ascii_lower)
  ultimately show ?thesis
    using c unfolding valid_header_byte_def by (metis ascii_upper_def ascii_lower_def)
qed

lemma canonical_from_idem [simp]: "canonical_from up (canonical_from up s) = canonical_from up s"
  by (induction s arbitrary: up) auto

lemma canonical_from_valid:
  "list_all valid_header_byte s \<Longrightarrow> list_all valid_header_byte (canonical_from up s)"
  by (induction s arbitrary: up) (auto simp: valid_header_case)

lemma CanonicalHeaderKey_idem [simp]:
  "CanonicalHeaderKey (CanonicalHeaderKey s) = CanonicalHeaderKey s"
  by (auto simp: CanonicalHeaderKey_def canonical_from_valid)

definition canonical :: "string \<Rightarrow> bool" where
  "canonical k \<longleftrightarrow> CanonicalHeaderKey k = k"

lemma canonical_key [simp]: "canonical (CanonicalHeaderKey k)"
  by (simp add: canonical_def)

section \<open>Operations\<close>

definition hdr_Values :: "header \<Rightarrow> string \<Rightarrow> string list" where
  "hdr_Values h k = (case map_of h (CanonicalHeaderKey k) of None \<Rightarrow> [] | Some vs \<Rightarrow> vs)"

definition hdr_Get :: "header \<Rightarrow> string \<Rightarrow> string" where
  "hdr_Get h k = (case hdr_Values h k of [] \<Rightarrow> [] | v # _ \<Rightarrow> v)"

definition hdr_Set :: "header \<Rightarrow> string \<Rightarrow> string \<Rightarrow> header" where
  "hdr_Set h k v = AList.update (CanonicalHeaderKey k) [v] h"

definition hdr_Add :: "header \<Rightarrow> string \<Rightarrow> string \<Rightarrow> header" where
  "hdr_Add h k v =
     (let k' = CanonicalHeaderKey k
      in AList.update k' ((case map_of h k' of None \<Rightarrow> [] | Some vs \<Rightarrow> vs) @ [v]) h)"

definition hdr_Del :: "header \<Rightarrow> string \<Rightarrow> header" where
  "hdr_Del h k = AList.delete (CanonicalHeaderKey k) h"

definition hdr_of :: "header option \<Rightarrow> header" where
  "hdr_of h = (case h of None \<Rightarrow> [] | Some h' \<Rightarrow> h')"

lemma hdr_of_simps [simp]: "hdr_of None = []" "hdr_of (Some h) = h"
  by (simp_all add: hdr_of_def)

lemmas hdr_defs = hdr_Values_def hdr_Get_def hdr_Set_def hdr_Add_def hdr_Del_def

lemma hdr_Values_Nil [simp]: "hdr_Values [] k = []"
  by (simp add: hdr_Values_def)

lemma hdr_Get_Nil [simp]: "hdr_Get [] k = []"
  by (simp add: hdr_Get_def)

lemma hdr_Values_Set [map_simps]:
  "hdr_Values (hdr_Set h k v) k' =
     (if CanonicalHeaderKey k' = CanonicalHeaderKey k then [v] else hdr_Values h k')"
  by (simp add: hdr_Values_def hdr_Set_def)

lemma hdr_Values_Add [map_simps]:
  "hdr_Values (hdr_Add h k v) k' =
     (if CanonicalHeaderKey k' = CanonicalHeaderKey k then hdr_Values h k' @ [v] else hdr_Values h k')"
  by (simp add: hdr_Values_def hdr_Add_def Let_def)

lemma hdr_Values_Del [map_simps]:
  "hdr_Values (hdr_Del h k) k' =
     (if CanonicalHeaderKey k' = CanonicalHeaderKey k then [] else hdr_Values h k')"
  by (simp add: hdr_Values_def hdr_Del_def)

lemma hdr_Get_Values: "hdr_Values h k = hdr_Values h' k \<Longrightarrow> hdr_Get h k = hdr_Get h' k"
  by (simp add: hdr_Get_def)

lemma wf_map_hdr_ops [simp, intro]:
  "wf_map h \<Longrightarrow> wf_map (hdr_Set h k v)"
  "wf_map h \<Longrightarrow> wf_map (hdr_Add h k v)"
  "wf_map h \<Longrightarrow> wf_map (hdr_Del h k)"
  by (simp_all add: hdr_Set_def hdr_Add_def hdr_Del_def Let_def)

text \<open>The names the repository uses, in canonical form.\<close>

lemma canonical_names [simp]:
  "CanonicalHeaderKey ''ETag'' = ''Etag''"
  "CanonicalHeaderKey ''Etag'' = ''Etag''"
  "CanonicalHeaderKey ''Last-Modified'' = ''Last-Modified''"
  "CanonicalHeaderKey ''If-None-Match'' = ''If-None-Match''"
  "CanonicalHeaderKey ''If-Modified-Since'' = ''If-Modified-Since''"
  "CanonicalHeaderKey ''Accept'' = ''Accept''"
  "CanonicalHeaderKey ''Age'' = ''Age''"
  "CanonicalHeaderKey ''Date'' = ''Date''"
  "CanonicalHeaderKey ''Vary'' = ''Vary''"
  "CanonicalHeaderKey ''Expires'' = ''Expires''"
  "CanonicalHeaderKey ''Cache-Control'' = ''Cache-Control''"
  "CanonicalHeaderKey ''Content-Type'' = ''Content-Type''"
  "CanonicalHeaderKey ''Authorization'' = ''Authorization''"
  "CanonicalHeaderKey ''WWW-Authenticate'' = ''Www-Authenticate''"
  by code_simp+

end
