(* ===== verification/Freshness.thy ===== *)
theory Freshness
  imports Header
begin

text \<open>
  The RFC 9111 freshness gate, \<open>src/internal/freshness/freshness.go\<close>: a pure decision over
  (stored headers, stored-at time, now, cap, key headers). \<open>fresh_spec\<close> is the decision in
  unbounded arithmetic over what the headers say; \<open>Evaluate\<close> is the code, with Go's
  saturating \<open>Sub\<close> and wrapping \<open>int64\<close> sum.
\<close>

section \<open>Decisions\<close>

datatype reason =
    ReasonNone \<comment> \<open>the empty string of a zero \<open>Decision\<close>\<close>
  | ReasonFresh | ReasonNoCache | ReasonVaryMismatch | ReasonNoLifetime | ReasonInvalidAge
  | ReasonNoStoredAt | ReasonTTLExpired | ReasonCapExpired

fun reason_text :: "reason \<Rightarrow> string" where
  "reason_text ReasonNone = ''''"
| "reason_text ReasonFresh = ''within freshness lifetime''"
| "reason_text ReasonNoCache = ''no-cache''"
| "reason_text ReasonVaryMismatch = ''vary mismatch''"
| "reason_text ReasonNoLifetime = ''no declared lifetime''"
| "reason_text ReasonInvalidAge = ''invalid age''"
| "reason_text ReasonNoStoredAt = ''missing stored-at''"
| "reason_text ReasonTTLExpired = ''ttl expired''"
| "reason_text ReasonCapExpired = ''cap expired''"

record Decision =
  Fresh :: bool
  Reason :: reason
  Age :: duration
  DeclaredLifetime :: duration
  Resident :: duration

definition zero_Decision :: Decision where
  "zero_Decision =
     \<lparr>Fresh = False, Reason = ReasonNone, Age = 0, DeclaredLifetime = 0, Resident = 0\<rparr>"

section \<open>Delta-seconds\<close>

record deltaSeconds =
  ds_d :: duration
  ds_ok :: bool
  ds_seen :: bool

definition zero_deltaSeconds :: deltaSeconds where
  "zero_deltaSeconds = \<lparr>ds_d = 0, ds_ok = False, ds_seen = False\<rparr>"

fun delta_loop :: "string \<Rightarrow> int \<Rightarrow> int option" where
  "delta_loop [] secs = Some secs"
| "delta_loop (c # cs) secs =
     (if c < CHR ''0'' \<or> CHR ''9'' < c then None
      else delta_loop cs (wrap64 (wrap64 (secs * 10) + digit_val c)))"

definition parseDeltaSeconds :: "string \<Rightarrow> deltaSeconds" where
  "parseDeltaSeconds s =
     (if s = [] \<or> 18 < length s then zero_deltaSeconds
      else case delta_loop s 0 of
        None \<Rightarrow> zero_deltaSeconds
      | Some secs \<Rightarrow>
          if MaxInt64 div Second div 2 < secs then zero_deltaSeconds
          else \<lparr>ds_d = wrap64 (secs * Second), ds_ok = True, ds_seen = False\<rparr>)"

section \<open>Cache-Control\<close>

record ccDirectives =
  noCache :: bool
  sMaxAge :: deltaSeconds
  maxAge :: deltaSeconds

text \<open>The piece being read, \<open>s[start:i]\<close>, is the second argument.\<close>

fun splitQuoted_loop :: "bool \<Rightarrow> string \<Rightarrow> string \<Rightarrow> string list" where
  "splitQuoted_loop inQuotes piece [] = [piece]"
| "splitQuoted_loop inQuotes piece (c # cs) =
     (if c = DQUOTE then splitQuoted_loop (\<not> inQuotes) (piece @ [c]) cs
      else if c = COMMA \<and> \<not> inQuotes then piece # splitQuoted_loop inQuotes [] cs
      else splitQuoted_loop inQuotes (piece @ [c]) cs)"

definition splitQuoted :: "string \<Rightarrow> string list" where
  "splitQuoted s = splitQuoted_loop False [] s"

type_synonym occurrences = "string \<Rightarrow> string list"

definition record_directive :: "occurrences \<Rightarrow> string \<Rightarrow> occurrences" where
  "record_directive occ directive =
     (case Cut CHR ''='' directive of (raw, arg, _) \<Rightarrow>
        let name = ToLower (TrimSpace raw)
        in if name = [] then occ else occ(name := occ name @ [TrimSpace arg]))"

definition directive_occurrences :: "string list \<Rightarrow> occurrences" where
  "directive_occurrences values =
     foldl (\<lambda>occ value. foldl record_directive occ (splitQuoted value)) (\<lambda>_. []) values"

definition parseOnce :: "occurrences \<Rightarrow> string \<Rightarrow> deltaSeconds" where
  "parseOnce occ name =
     (case occ name of
        [] \<Rightarrow> zero_deltaSeconds
      | [arg] \<Rightarrow> (parseDeltaSeconds arg)\<lparr>ds_seen := True\<rparr>
      | _ # _ # _ \<Rightarrow> zero_deltaSeconds\<lparr>ds_seen := True\<rparr>)"

definition parseCacheControl :: "string list \<Rightarrow> ccDirectives" where
  "parseCacheControl values =
     (let occ = directive_occurrences values
      in \<lparr>noCache = (0 < length (occ ''no-cache'')),
          sMaxAge = parseOnce occ ''s-maxage'',
          maxAge = parseOnce occ ''max-age''\<rparr>)"

section \<open>Vary, lifetime, Age\<close>

fun vary_names :: "string list \<Rightarrow> string list \<Rightarrow> bool" where
  "vary_names keyHeaders [] = True"
| "vary_names keyHeaders (n # ns) =
     (let name = TrimSpace n
      in if name = [] \<or> EqualFold name ''Accept-Encoding'' then vary_names keyHeaders ns
         else if name = ''*'' \<or> \<not> list_ex (\<lambda>k. EqualFold k name) keyHeaders then False
         else vary_names keyHeaders ns)"

fun varySatisfied :: "string list \<Rightarrow> string list \<Rightarrow> bool" where
  "varySatisfied [] keyHeaders = True"
| "varySatisfied (v # vs) keyHeaders =
     (vary_names keyHeaders (Split COMMA v) \<and> varySatisfied vs keyHeaders)"

definition declaredLifetime :: "ccDirectives \<Rightarrow> header \<Rightarrow> time \<Rightarrow> duration \<times> bool" where
  "declaredLifetime directives stored storedAt =
     (if ds_seen (sMaxAge directives)
      then (ds_d (sMaxAge directives), ds_ok (sMaxAge directives))
      else if ds_seen (maxAge directives)
      then (ds_d (maxAge directives), ds_ok (maxAge directives))
      else (case hdr_Values stored ''Expires'' of
          [e] \<Rightarrow>
            (case ParseTime e of
               None \<Rightarrow> (0, False)
             | Some expires \<Rightarrow>
                 let anchor =
                   (case hdr_Values stored ''Date'' of
                      [dv] \<Rightarrow> (case ParseTime dv of Some date \<Rightarrow> date | None \<Rightarrow> storedAt)
                    | _ \<Rightarrow> storedAt)
                 in (Sub expires anchor, True))
        | _ \<Rightarrow> (0, False)))"

definition parseAge :: "string list \<Rightarrow> duration \<times> bool" where
  "parseAge values =
     (case values of
        [] \<Rightarrow> (0, True)
      | [v] \<Rightarrow> (let age = parseDeltaSeconds v in (ds_d age, ds_ok age))
      | _ # _ # _ \<Rightarrow> (0, False))"

section \<open>The gate\<close>

definition Evaluate :: "header \<Rightarrow> time \<Rightarrow> time \<Rightarrow> duration \<Rightarrow> string list \<Rightarrow> Decision" where
  "Evaluate stored storedAt now lifetimeCap keyHeaders =
     (if IsZero storedAt then zero_Decision\<lparr>Reason := ReasonNoStoredAt\<rparr>
      else let directives = parseCacheControl (hdr_Values stored ''Cache-Control'')
      in if noCache directives then zero_Decision\<lparr>Reason := ReasonNoCache\<rparr>
      else if \<not> varySatisfied (hdr_Values stored ''Vary'') keyHeaders
      then zero_Decision\<lparr>Reason := ReasonVaryMismatch\<rparr>
      else case declaredLifetime directives stored storedAt of (lifetime, ok) \<Rightarrow>
        if \<not> ok then zero_Decision\<lparr>Reason := ReasonNoLifetime\<rparr>
        else case parseAge (hdr_Values stored ''Age'') of (storedAge, ok) \<Rightarrow>
          if \<not> ok then zero_Decision\<lparr>Reason := ReasonInvalidAge\<rparr>
          else let resident = max (Sub now storedAt) 0;
                   d = zero_Decision\<lparr>Age := wrap64 (resident + storedAge),
                         DeclaredLifetime := lifetime, Resident := resident\<rparr>
               in if lifetime \<le> Age d then d\<lparr>Reason := ReasonTTLExpired\<rparr>
                  else if lifetimeCap \<le> resident then d\<lparr>Reason := ReasonCapExpired\<rparr>
                  else d\<lparr>Fresh := True, Reason := ReasonFresh\<rparr>)"

section \<open>Delta-seconds: exact, and never wrapping\<close>

lemma delta_loop_digits:
  assumes "list_all is_digit (p @ s)" and "length (p @ s) \<le> 18"
  shows "delta_loop s (decimal_value p) = Some (decimal_value (p @ s))"
  using assms
proof (induction s arbitrary: p)
  case (Cons c s)
  have c: "is_digit c" using Cons.prems by simp
  have p: "list_all is_digit (p @ [c])" using Cons.prems by simp
  have "(10::int) ^ length (p @ [c]) \<le> 10 ^ 18"
    using Cons.prems by (intro power_increasing) auto
  then have "decimal_value (p @ [c]) < 10 ^ 18" and "0 \<le> decimal_value (p @ [c])"
    using decimal_value_bounds [OF p] by auto
  then have "int64 (decimal_value p * 10 + digit_val c)" and "int64 (decimal_value p * 10)"
    using is_digit_val [OF c] decimal_value_nonneg [of p] p
    by (auto simp: int64_def MaxInt64_def MinInt64_def)
  then have "delta_loop (c # s) (decimal_value p) = delta_loop s (decimal_value (p @ [c]))"
    using c by (auto simp: is_digit_def not_less)
  then show ?case using Cons.IH [of "p @ [c]"] Cons.prems by simp
qed simp

lemma delta_loop_bad: "\<not> list_all is_digit s \<Longrightarrow> delta_loop s n = None"
  by (induction s arbitrary: n) (auto simp: is_digit_def not_le)

lemma parseDeltaSeconds_spec:
  "parseDeltaSeconds s =
     (if s \<noteq> [] \<and> length s \<le> 18 \<and> list_all is_digit s \<and> decimal_value s \<le> 4611686018
      then \<lparr>ds_d = decimal_value s * Second, ds_ok = True, ds_seen = False\<rparr>
      else zero_deltaSeconds)"
proof (cases "s \<noteq> [] \<and> length s \<le> 18 \<and> list_all is_digit s")
  case True
  then have "delta_loop s 0 = Some (decimal_value s)"
    using delta_loop_digits [of "[]" s] by simp
  moreover have "decimal_value s \<le> 4611686018 \<Longrightarrow> int64 (decimal_value s * Second)"
    using decimal_value_nonneg [of s] True
    by (simp add: int64_def MaxInt64_def MinInt64_def Second_def)
  moreover have "MaxInt64 div Second div 2 = 4611686018"
    by (simp add: MaxInt64_def Second_def)
  ultimately show ?thesis using True by (auto simp: parseDeltaSeconds_def not_le)
next
  case False
  then show ?thesis by (auto simp: parseDeltaSeconds_def delta_loop_bad)
qed

lemma parseDeltaSeconds_bounds:
  "0 \<le> ds_d (parseDeltaSeconds s) \<and> ds_d (parseDeltaSeconds s) \<le> MaxInt64 div 2"
  using decimal_value_nonneg [of s]
  by (auto simp: parseDeltaSeconds_spec zero_deltaSeconds_def MaxInt64_def Second_def)

lemma parseAge_bounds: "0 \<le> fst (parseAge vs) \<and> fst (parseAge vs) \<le> MaxInt64 div 2"
  using parseDeltaSeconds_bounds
  by (auto simp: parseAge_def Let_def MaxInt64_def split: list.splits)

section \<open>Splitting at unquoted commas\<close>

text \<open>
  \<open>scan\<close> reads a piece from a given quoting state: the state after it, or \<open>None\<close> if a
  comma stands outside quotes.
\<close>

fun scan :: "bool \<Rightarrow> string \<Rightarrow> bool option" where
  "scan q [] = Some q"
| "scan q (c # cs) =
     (if c = DQUOTE then scan (\<not> q) cs else if c = COMMA \<and> \<not> q then None else scan q cs)"

lemma scan_append: "scan q (s @ t) = Option.bind (scan q s) (\<lambda>q'. scan q' t)"
  by (induction s arbitrary: q) auto

lemma splitQuoted_loop_nonempty [simp]: "splitQuoted_loop q p s \<noteq> []"
  by (induction q p s rule: splitQuoted_loop.induct) auto

lemma Join_splitQuoted_loop: "Join [COMMA] (splitQuoted_loop q p s) = p @ s"
  by (induction q p s rule: splitQuoted_loop.induct) (auto simp: Join_Cons)

lemma splitQuoted_loop_pieces:
  "scan False p = Some q \<Longrightarrow> x \<in> set (splitQuoted_loop q p s) \<Longrightarrow> scan False x \<noteq> None"
  by (induction q p s rule: splitQuoted_loop.induct) (auto simp: scan_append split: if_splits)

lemma splitQuoted_loop_piece:
  "scan q x = Some False \<Longrightarrow>
   splitQuoted_loop q p (x @ COMMA # rest) = (p @ x) # splitQuoted_loop False [] rest"
  by (induction x arbitrary: q p) (auto split: if_splits)

lemma splitQuoted_loop_last: "scan q x \<noteq> None \<Longrightarrow> splitQuoted_loop q p x = [p @ x]"
  by (induction x arbitrary: q p) (auto split: if_splits)

lemma splitQuoted_Join_pieces:
  "list_all (\<lambda>x. scan False x = Some False) xs \<Longrightarrow> xs \<noteq> [] \<Longrightarrow>
   splitQuoted (Join [COMMA] xs) = xs"
  unfolding splitQuoted_def
  by (induction "[COMMA]" xs rule: Join.induct)
    (auto simp: splitQuoted_loop_last splitQuoted_loop_piece)

section \<open>What the headers declare\<close>

text \<open>
  The reading of the headers the gate is meant to have, over the list of directives: the
  arguments of every occurrence of a directive, in order.
\<close>

definition directive_of :: "string \<Rightarrow> string \<times> string" where
  "directive_of d = (case Cut CHR ''='' d of (raw, arg, _) \<Rightarrow> (ToLower (TrimSpace raw), TrimSpace arg))"

definition directive_args :: "string list \<Rightarrow> string \<Rightarrow> string list" where
  "directive_args values name =
     map snd (filter (\<lambda>(n, _). n = name) (map directive_of (concat (map splitQuoted values))))"

lemma foldl_record_directive:
  assumes "name \<noteq> []"
  shows "foldl record_directive occ ds name =
    occ name @ map snd (filter (\<lambda>(n, _). n = name) (map directive_of ds))"
  using assms
  by (induction ds arbitrary: occ)
    (auto simp: record_directive_def directive_of_def Let_def split: prod.splits)

lemma directive_occurrences_args:
  assumes "name \<noteq> []"
  shows "directive_occurrences vals name = directive_args vals name"
proof -
  have "foldl (\<lambda>occ value. foldl record_directive occ (splitQuoted value)) occ vals =
      foldl record_directive occ (concat (map splitQuoted vals))" for occ
    by (induction vals arbitrary: occ) auto
  with assms show ?thesis
    by (simp add: directive_occurrences_def directive_args_def foldl_record_directive)
qed

definition delta_spec :: "string \<Rightarrow> int option" where
  "delta_spec s =
     (if s \<noteq> [] \<and> length s \<le> 18 \<and> list_all is_digit s \<and> decimal_value s \<le> 4611686018
      then Some (decimal_value s * Second) else None)"

text \<open>A value counts only when the directive or header occurs exactly once.\<close>

fun once :: "string list \<Rightarrow> string option" where
  "once [x] = Some x"
| "once _ = None"

definition expires_spec :: "header \<Rightarrow> time \<Rightarrow> int option" where
  "expires_spec stored storedAt =
     do { e \<leftarrow> once (hdr_Values stored ''Expires'');
          expires \<leftarrow> ParseTime e;
          Some (expires -
            (case do { d \<leftarrow> once (hdr_Values stored ''Date''); ParseTime d } of
               Some date \<Rightarrow> date | None \<Rightarrow> storedAt)) }"

definition lifetime_spec :: "header \<Rightarrow> time \<Rightarrow> int option" where
  "lifetime_spec stored storedAt =
     (let args = directive_args (hdr_Values stored ''Cache-Control'')
      in if args ''s-maxage'' \<noteq> [] then do { a \<leftarrow> once (args ''s-maxage''); delta_spec a }
         else if args ''max-age'' \<noteq> [] then do { a \<leftarrow> once (args ''max-age''); delta_spec a }
         else expires_spec stored storedAt)"

definition age_spec :: "header \<Rightarrow> int option" where
  "age_spec stored =
     (let vs = hdr_Values stored ''Age'' in if vs = [] then Some 0 else do { v \<leftarrow> once vs; delta_spec v })"

definition vary_spec :: "header \<Rightarrow> string list \<Rightarrow> bool" where
  "vary_spec stored keyHeaders \<longleftrightarrow>
     list_all (\<lambda>name. name = [] \<or> EqualFold name ''Accept-Encoding'' \<or>
         name \<noteq> ''*'' \<and> list_ex (\<lambda>k. EqualFold k name) keyHeaders)
       (map TrimSpace (concat (map (Split COMMA) (hdr_Values stored ''Vary''))))"

definition fresh_spec :: "header \<Rightarrow> time \<Rightarrow> time \<Rightarrow> duration \<Rightarrow> string list \<Rightarrow> bool" where
  "fresh_spec stored storedAt now lifetimeCap keyHeaders \<longleftrightarrow>
     storedAt \<noteq> 0 \<and>
     directive_args (hdr_Values stored ''Cache-Control'') ''no-cache'' = [] \<and>
     vary_spec stored keyHeaders \<and>
     (case lifetime_spec stored storedAt of
        None \<Rightarrow> False
      | Some lifetime \<Rightarrow>
          (case age_spec stored of
             None \<Rightarrow> False
           | Some age \<Rightarrow>
               max 0 (now - storedAt) + age < lifetime \<and> max 0 (now - storedAt) < lifetimeCap))"

subsection \<open>The code computes these readings\<close>

lemma parseOnce_spec:
  "parseOnce occ name =
     (case once (occ name) of
        None \<Rightarrow> zero_deltaSeconds\<lparr>ds_seen := (occ name \<noteq> [])\<rparr>
      | Some a \<Rightarrow> (parseDeltaSeconds a)\<lparr>ds_seen := True\<rparr>)"
  by (cases "occ name" rule: once.cases) (auto simp: parseOnce_def zero_deltaSeconds_def)

lemma parseDeltaSeconds_delta_spec:
  "ds_d (parseDeltaSeconds s) = (case delta_spec s of None \<Rightarrow> 0 | Some d \<Rightarrow> d)"
  "ds_ok (parseDeltaSeconds s) = (delta_spec s \<noteq> None)"
  by (auto simp: parseDeltaSeconds_spec delta_spec_def zero_deltaSeconds_def)

lemma varySatisfied_spec: "varySatisfied (hdr_Values stored ''Vary'') kh = vary_spec stored kh"
proof -
  have names: "vary_names kh ns =
      list_all (\<lambda>name. name = [] \<or> EqualFold name ''Accept-Encoding'' \<or>
        name \<noteq> ''*'' \<and> list_ex (\<lambda>k. EqualFold k name) kh) (map TrimSpace ns)" for ns
    by (induction ns) (auto simp: Let_def)
  have "varySatisfied vs kh = vary_names kh (concat (map (Split COMMA) vs))" for vs
    by (induction vs) (auto simp: names)
  then show ?thesis by (simp add: vary_spec_def names)
qed

lemma delta_spec_bounds: "delta_spec s = Some d \<Longrightarrow> 0 \<le> d \<and> d \<le> MaxInt64 div 2"
  using decimal_value_nonneg [of s]
  by (auto simp: delta_spec_def MaxInt64_def Second_def split: if_splits)

definition clamp64 :: "int \<Rightarrow> int" where "clamp64 x = max MinInt64 (min MaxInt64 x)"

lemma clamp64_delta: "delta_spec s = Some d \<Longrightarrow> clamp64 d = d"
  by (drule delta_spec_bounds) (simp add: clamp64_def MaxInt64_def MinInt64_def)

lemma parseCacheControl_simps:
  "noCache (parseCacheControl vs) = (directive_args vs ''no-cache'' \<noteq> [])"
  "sMaxAge (parseCacheControl vs) = parseOnce (directive_args vs) ''s-maxage''"
  "maxAge (parseCacheControl vs) = parseOnce (directive_args vs) ''max-age''"
  by (simp_all add: parseCacheControl_def Let_def parseOnce_def directive_occurrences_args)

lemma declaredLifetime_spec:
  "declaredLifetime (parseCacheControl (hdr_Values stored ''Cache-Control'')) stored storedAt =
     (case lifetime_spec stored storedAt of None \<Rightarrow> (0, False) | Some l \<Rightarrow> (clamp64 l, True))"
proof -
  have expires: "(case hdr_Values stored ''Expires'' of
          [e] \<Rightarrow>
            (case ParseTime e of
               None \<Rightarrow> (0, False)
             | Some expires \<Rightarrow>
                 let anchor =
                   (case hdr_Values stored ''Date'' of
                      [dv] \<Rightarrow> (case ParseTime dv of Some date \<Rightarrow> date | None \<Rightarrow> storedAt)
                    | _ \<Rightarrow> storedAt)
                 in (Sub expires anchor, True))
        | _ \<Rightarrow> (0, False)) =
      (case expires_spec stored storedAt of None \<Rightarrow> (0, False) | Some l \<Rightarrow> (clamp64 l, True))"
    by (cases "hdr_Values stored ''Expires''" rule: once.cases;
        cases "hdr_Values stored ''Date''" rule: once.cases)
      (auto simp: expires_spec_def Sub_def clamp64_def split: option.splits)
  show ?thesis
    unfolding declaredLifetime_def expires
    by (auto simp: lifetime_spec_def Let_def parseCacheControl_simps parseOnce_spec clamp64_delta
        zero_deltaSeconds_def parseDeltaSeconds_delta_spec split: option.splits)
qed

lemma parseAge_spec:
  "parseAge (hdr_Values stored ''Age'') =
     (case age_spec stored of None \<Rightarrow> (0, False) | Some a \<Rightarrow> (a, True))"
  by (cases "hdr_Values stored ''Age''" rule: once.cases)
    (auto simp: parseAge_def age_spec_def Let_def parseDeltaSeconds_delta_spec split: option.splits)

lemma age_spec_bounds: "age_spec stored = Some a \<Longrightarrow> 0 \<le> a \<and> a \<le> MaxInt64 div 2"
  by (cases "hdr_Values stored ''Age''" rule: once.cases)
    (auto simp: age_spec_def Let_def MaxInt64_def dest: delta_spec_bounds)

text \<open>\<open>Evaluate\<close> over the readings, with the machine arithmetic still in place.\<close>

lemma Evaluate_eq:
  "Evaluate stored storedAt now lifetimeCap keyHeaders =
     (if storedAt = 0 then zero_Decision\<lparr>Reason := ReasonNoStoredAt\<rparr>
      else if directive_args (hdr_Values stored ''Cache-Control'') ''no-cache'' \<noteq> []
      then zero_Decision\<lparr>Reason := ReasonNoCache\<rparr>
      else if \<not> vary_spec stored keyHeaders then zero_Decision\<lparr>Reason := ReasonVaryMismatch\<rparr>
      else case lifetime_spec stored storedAt of
        None \<Rightarrow> zero_Decision\<lparr>Reason := ReasonNoLifetime\<rparr>
      | Some lifetime \<Rightarrow>
          (case age_spec stored of
            None \<Rightarrow> zero_Decision\<lparr>Reason := ReasonInvalidAge\<rparr>
          | Some age \<Rightarrow>
              let resident = max (Sub now storedAt) 0; a = wrap64 (resident + age);
                  l = clamp64 lifetime;
                  d = zero_Decision\<lparr>Age := a, DeclaredLifetime := l, Resident := resident\<rparr>
              in if l \<le> a then d\<lparr>Reason := ReasonTTLExpired\<rparr>
                 else if lifetimeCap \<le> resident then d\<lparr>Reason := ReasonCapExpired\<rparr>
                 else d\<lparr>Fresh := True, Reason := ReasonFresh\<rparr>))"
  by (auto simp: Evaluate_def Let_def IsZero_def parseCacheControl_simps varySatisfied_spec
      declaredLifetime_spec parseAge_spec zero_Decision_def split: option.splits)

text \<open>
  With the residency clamped below half the duration range the sum of the two ages is exact, so
  the machine comparison is the mathematical one.
\<close>

lemma age_sum_exact:
  assumes "0 \<le> age" "age \<le> MaxInt64 div 2" "0 \<le> resident" "resident \<le> MaxInt64 div 2 + 1"
  shows "wrap64 (resident + age) = resident + age"
  using assms by (intro wrap64_id) (simp add: int64_def MaxInt64_def MinInt64_def)

lemma fresh_comparison:
  assumes cap: "lifetimeCap \<le> MaxInt64 div 2" and age: "0 \<le> age" "age \<le> MaxInt64 div 2"
  shows "(wrap64 (max (Sub now t) 0 + age) < clamp64 l \<and> max (Sub now t) 0 < lifetimeCap) \<longleftrightarrow>
    (max 0 (now - t) + age < l \<and> max 0 (now - t) < lifetimeCap)"
proof (cases "max 0 (now - t) < lifetimeCap")
  case True
  then have "int64 (now - t) \<or> now < t" using cap by (auto simp: int64_def MaxInt64_def MinInt64_def)
  then have r: "max (Sub now t) 0 = max 0 (now - t)"
    by (auto simp: Sub_def int64_def MinInt64_def MaxInt64_def)
  have "max 0 (now - t) \<le> MaxInt64 div 2 + 1" using True cap by simp
  then have "wrap64 (max 0 (now - t) + age) = max 0 (now - t) + age"
    using age by (intro age_sum_exact) auto
  moreover have "max 0 (now - t) + age < clamp64 l \<longleftrightarrow> max 0 (now - t) + age < l"
    using True cap age by (auto simp: clamp64_def MaxInt64_def MinInt64_def)
  ultimately show ?thesis by (simp add: r)
next
  case False
  then have "\<not> max (Sub now t) 0 < lifetimeCap"
    using cap by (auto simp: Sub_def MaxInt64_def MinInt64_def)
  with False show ?thesis by blast
qed

lemma zero_Decision_simps [simp]:
  "Fresh zero_Decision = False" "Reason zero_Decision = ReasonNone"
  "Age zero_Decision = 0" "DeclaredLifetime zero_Decision = 0" "Resident zero_Decision = 0"
  by (simp_all add: zero_Decision_def)

lemma Evaluate_fresh:
  assumes "lifetimeCap \<le> MaxInt64 div 2"
  shows "Fresh (Evaluate stored storedAt now lifetimeCap keyHeaders) =
    fresh_spec stored storedAt now lifetimeCap keyHeaders"
proof (cases "\<exists>l a. lifetime_spec stored storedAt = Some l \<and> age_spec stored = Some a")
  case True
  then obtain l a where la: "lifetime_spec stored storedAt = Some l" "age_spec stored = Some a"
    by blast
  then have "Fresh (Evaluate stored storedAt now lifetimeCap keyHeaders) \<longleftrightarrow>
      storedAt \<noteq> 0 \<and> directive_args (hdr_Values stored ''Cache-Control'') ''no-cache'' = [] \<and>
      vary_spec stored keyHeaders \<and>
      wrap64 (max (Sub now storedAt) 0 + a) < clamp64 l \<and> max (Sub now storedAt) 0 < lifetimeCap"
    by (auto simp: Evaluate_eq Let_def)
  then show ?thesis
    using la fresh_comparison [OF assms, of a] age_spec_bounds [OF la(2)]
    by (simp add: fresh_spec_def)
next
  case False
  then show ?thesis by (auto simp: Evaluate_eq fresh_spec_def Let_def split: option.splits)
qed

text \<open>A decision says fresh exactly when its reason is the fresh one.\<close>

lemma Evaluate_Reason: "(Reason (Evaluate h t now c kh) = ReasonFresh) = Fresh (Evaluate h t now c kh)"
  by (auto simp: Evaluate_eq Let_def split: option.splits)

section \<open>Properties\<close>

text \<open>
  C2. Refinement. For every cap up to half the duration range (146 years; the flag's default is
  seven days) the machine computation of the gate - saturating subtraction, wrapping sum, clamped
  skew - serves an entry fresh exactly when the mathematical specification does, and a fresh
  decision reports the exact age and residency.
\<close>

theorem Evaluate_refines_spec:
  assumes "lifetimeCap \<le> MaxInt64 div 2"
  shows "Fresh (Evaluate stored storedAt now lifetimeCap keyHeaders) =
      fresh_spec stored storedAt now lifetimeCap keyHeaders \<and>
    (Fresh (Evaluate stored storedAt now lifetimeCap keyHeaders) \<longrightarrow>
      Resident (Evaluate stored storedAt now lifetimeCap keyHeaders) = max 0 (now - storedAt) \<and>
      Some (Age (Evaluate stored storedAt now lifetimeCap keyHeaders)) =
        map_option (\<lambda>a. max 0 (now - storedAt) + a) (age_spec stored))"
proof (intro conjI impI)
  let ?d = "Evaluate stored storedAt now lifetimeCap keyHeaders"
  show spec: "Fresh ?d = fresh_spec stored storedAt now lifetimeCap keyHeaders"
    using assms by (rule Evaluate_fresh)
  assume fresh: "Fresh ?d"
  with spec obtain l a where la: "lifetime_spec stored storedAt = Some l" "age_spec stored = Some a"
    and cap: "max 0 (now - storedAt) < lifetimeCap"
    by (auto simp: fresh_spec_def split: option.splits)
  have r: "max (Sub now storedAt) 0 = max 0 (now - storedAt)"
    using cap assms by (auto simp: Sub_def MaxInt64_def MinInt64_def)
  with fresh la show "Resident ?d = max 0 (now - storedAt)"
    by (auto simp: Evaluate_eq Let_def split: if_splits)
  have "wrap64 (max 0 (now - storedAt) + a) = max 0 (now - storedAt) + a"
    using age_spec_bounds [OF la(2)] cap assms by (intro age_sum_exact) auto
  with fresh la r show "Some (Age ?d) = map_option (\<lambda>a. max 0 (now - storedAt) + a) (age_spec stored)"
    by (auto simp: Evaluate_eq Let_def split: if_splits)
qed

theorem Evaluate_refines_spec_witness:
  "fresh_spec [(''Cache-Control'', [''max-age=60'']), (''Age'', [''7''])]
     (10 * Second) (50 * Second) (168 * Hour) []"
proof -
  have "Fresh (Evaluate [(''Cache-Control'', [''max-age=60'']), (''Age'', [''7''])]
     (10 * Second) (50 * Second) (168 * Hour) [])"
    by code_simp
  then show ?thesis
    using Evaluate_refines_spec [of "168 * Hour" "[(''Cache-Control'', [''max-age=60'']), (''Age'', [''7''])]"
      "10 * Second" "50 * Second" "[]"]
    by (simp add: MaxInt64_def Hour_def)
qed

text \<open>
  Freshness is monotone in time: an entry the gate would serve fresh later it would also have
  served fresh at any earlier moment, so an entry that has gone stale never turns fresh again
  without a new store or touch.
\<close>

theorem fresh_monotone:
  assumes "lifetimeCap \<le> MaxInt64 div 2" and "now \<le> later"
    and "Fresh (Evaluate stored storedAt later lifetimeCap keyHeaders)"
  shows "Fresh (Evaluate stored storedAt now lifetimeCap keyHeaders)"
  using assms by (auto simp: Evaluate_fresh fresh_spec_def split: option.splits)

theorem fresh_monotone_witness:
  "Fresh (Evaluate [(''Cache-Control'', [''s-maxage=60, max-age=0''])] Second (3 * Second) Hour [])"
proof -
  have "Fresh (Evaluate [(''Cache-Control'', [''s-maxage=60, max-age=0''])] Second (9 * Second) Hour [])"
    by code_simp
  then show ?thesis
    by (rule fresh_monotone [rotated 2]) (simp_all add: MaxInt64_def Hour_def Second_def)
qed

text \<open>
  C17. The cap dominates, whatever the headers declare: once the entry's residency reaches the cap
  it is not served fresh, for every cap a duration can hold. In particular a cap of zero switches
  fresh serving off, also under clock skew.
\<close>

theorem cap_dominates:
  assumes "lifetimeCap \<le> MaxInt64" and "lifetimeCap \<le> max 0 (now - storedAt)"
  shows "\<not> Fresh (Evaluate stored storedAt now lifetimeCap keyHeaders)"
proof -
  have "lifetimeCap \<le> max (Sub now storedAt) 0"
    using assms by (auto simp: Sub_def)
  then show ?thesis by (auto simp: Evaluate_eq Let_def split: option.splits)
qed

theorem cap_dominates_witness:
  "\<not> Fresh (Evaluate [(''Cache-Control'', [''max-age=60''])] (5 * Second) (2 * Second) 0 [])"
  by (rule cap_dominates) (simp_all add: MaxInt64_def)

text \<open>
  A lifetime directive that is present but duplicated, malformed or too large disqualifies the
  entry outright: no weaker source (max-age, Expires) is consulted in its place, for any cap and
  any clock.
\<close>

definition spoiled :: "string list \<Rightarrow> bool" where
  "spoiled args \<longleftrightarrow> args \<noteq> [] \<and> Option.bind (once args) delta_spec = None"

theorem ambiguous_lifetime_never_fresh:
  assumes "spoiled (directive_args (hdr_Values stored ''Cache-Control'') ''s-maxage'') \<or>
    directive_args (hdr_Values stored ''Cache-Control'') ''s-maxage'' = [] \<and>
    spoiled (directive_args (hdr_Values stored ''Cache-Control'') ''max-age'')"
  shows "\<not> Fresh (Evaluate stored storedAt now lifetimeCap keyHeaders)"
proof -
  have "lifetime_spec stored storedAt = None"
    using assms by (auto simp: lifetime_spec_def spoiled_def Let_def)
  then show ?thesis by (simp add: Evaluate_eq)
qed

theorem ambiguous_lifetime_never_fresh_witness:
  "\<not> Fresh (Evaluate [(''Cache-Control'', [''s-maxage=0, s-maxage=0, max-age=31536000''])]
     Second Second Hour [])"
  by (rule ambiguous_lifetime_never_fresh) code_simp

text \<open>
  A \<open>no-cache\<close> directive anywhere in any Cache-Control value, in any letter case, with or
  without an argument, keeps the entry from being served fresh.
\<close>

theorem no_cache_never_fresh:
  assumes "v \<in> set (hdr_Values stored ''Cache-Control'')" and "d \<in> set (splitQuoted v)"
    and "fst (directive_of d) = ''no-cache''"
  shows "\<not> Fresh (Evaluate stored storedAt now lifetimeCap keyHeaders)"
proof -
  have "snd (directive_of d) \<in> set (directive_args (hdr_Values stored ''Cache-Control'') ''no-cache'')"
    using assms by (force simp: directive_args_def)
  then have "directive_args (hdr_Values stored ''Cache-Control'') ''no-cache'' \<noteq> []" by auto
  then show ?thesis by (simp add: Evaluate_eq)
qed

theorem no_cache_never_fresh_witness:
  "\<not> Fresh (Evaluate [(''Cache-Control'', [''max-age=60'', ''public , No-Cache=x''])]
     Second Second Hour [])"
  by (rule no_cache_never_fresh [of "''public , No-Cache=x''" _ "'' No-Cache=x''"]) code_simp+

text \<open>
  The Vary guard: an entry whose stored Vary names a header that is neither Accept-Encoding nor
  one of the headers the cache key encodes - or names \<open>*\<close> - is never served fresh.
\<close>

theorem vary_guard:
  assumes "v \<in> set (hdr_Values stored ''Vary'')" and "n \<in> set (Split COMMA v)"
    and "TrimSpace n \<noteq> []" and "\<not> EqualFold (TrimSpace n) ''Accept-Encoding''"
    and "TrimSpace n = ''*'' \<or> \<not> list_ex (\<lambda>k. EqualFold k (TrimSpace n)) keyHeaders"
  shows "\<not> Fresh (Evaluate stored storedAt now lifetimeCap keyHeaders)"
proof -
  have "\<not> vary_spec stored keyHeaders"
    using assms by (fastforce simp: vary_spec_def list_all_iff)
  then show ?thesis by (auto simp: Evaluate_eq)
qed

theorem vary_guard_witness:
  "\<not> Fresh (Evaluate [(''Cache-Control'', [''max-age=60'']), (''Vary'', [''accept, Accept-Language''])]
     Second Second Hour [''Accept''])"
  by (rule vary_guard [of "''accept, Accept-Language''" _ "'' Accept-Language''"]) code_simp+

text \<open>
  Clock skew: while the local clock is behind the storage clock the decision is the one at the
  moment of storing, in every field; skew stretches neither axis.
\<close>

theorem skew_is_clamped:
  assumes "now \<le> storedAt"
  shows "Evaluate stored storedAt now lifetimeCap keyHeaders =
    Evaluate stored storedAt storedAt lifetimeCap keyHeaders"
proof -
  have "max (Sub now storedAt) 0 = max (Sub storedAt storedAt) 0"
    using assms by (simp add: Sub_def MaxInt64_def MinInt64_def)
  then show ?thesis unfolding Evaluate_eq by (simp only: split: option.split)
qed

theorem skew_is_clamped_witness:
  "Evaluate [(''Cache-Control'', [''max-age=60''])] (5 * Second) (2 * Second) Hour [] =
   Evaluate [(''Cache-Control'', [''max-age=60''])] (5 * Second) (5 * Second) Hour []"
  by (rule skew_is_clamped) (simp add: Second_def)

text \<open>
  The reasons: fresh exactly when the reason is the fresh one; ttl-expired exactly means the
  computed age has reached the declared lifetime, cap-expired that it has not but the residency
  has reached the cap.
\<close>

theorem reasons_explain:
  "(Reason (Evaluate h t now c kh) = ReasonFresh) = Fresh (Evaluate h t now c kh) \<and>
   (Reason (Evaluate h t now c kh) = ReasonTTLExpired \<longrightarrow>
      DeclaredLifetime (Evaluate h t now c kh) \<le> Age (Evaluate h t now c kh)) \<and>
   (Reason (Evaluate h t now c kh) = ReasonCapExpired \<longrightarrow>
      Age (Evaluate h t now c kh) < DeclaredLifetime (Evaluate h t now c kh) \<and>
      c \<le> Resident (Evaluate h t now c kh)) \<and>
   Reason (Evaluate h t now c kh) \<noteq> ReasonNone"
  by (auto simp: Evaluate_eq Let_def split: option.splits)

theorem reasons_explain_witness:
  "Reason (Evaluate [(''Cache-Control'', [''max-age=60''])] Second (9 * Second) Second []) =
     ReasonCapExpired \<and>
   Second \<le> Resident (Evaluate [(''Cache-Control'', [''max-age=60''])] Second (9 * Second) Second [])"
proof -
  have "Reason (Evaluate [(''Cache-Control'', [''max-age=60''])] Second (9 * Second) Second []) =
      ReasonCapExpired"
    by code_simp
  then show ?thesis
    using reasons_explain [of "[(''Cache-Control'', [''max-age=60''])]" Second "9 * Second" Second "[]"]
    by simp
qed

text \<open>
  Delta-seconds: \<open>parseDeltaSeconds\<close> accepts exactly the strings of 1 to 18 digits whose
  value is at most half the duration range in seconds, and then yields that many seconds without
  wrapping, so printing a number in range and parsing it back is the identity.
\<close>

theorem parseDeltaSeconds_roundtrip:
  "ds_ok (parseDeltaSeconds s) =
     (s \<noteq> [] \<and> length s \<le> 18 \<and> list_all is_digit s \<and> decimal_value s \<le> 4611686018) \<and>
   (n \<le> 4611686018 \<longrightarrow> parseDeltaSeconds (Itoa n) =
     \<lparr>ds_d = int n * Second, ds_ok = True, ds_seen = False\<rparr>)"
proof (intro conjI impI)
  assume n: "n \<le> 4611686018"
  then have "length (Itoa n) \<le> 18" by (intro Itoa_length) auto
  with n show "parseDeltaSeconds (Itoa n) = \<lparr>ds_d = int n * Second, ds_ok = True, ds_seen = False\<rparr>"
    by (simp add: parseDeltaSeconds_spec Itoa_digits)
qed (auto simp: parseDeltaSeconds_spec zero_deltaSeconds_def)

theorem parseDeltaSeconds_roundtrip_witness:
  "parseDeltaSeconds (Itoa 31536000) = \<lparr>ds_d = 31536000 * Second, ds_ok = True, ds_seen = False\<rparr>"
  using parseDeltaSeconds_roundtrip [of "[]" 31536000] by simp

text \<open>
  \<open>splitQuoted\<close> loses nothing and cuts only at unquoted commas: joining its pieces gives
  the value back, no piece has a comma outside quotes, and splitting a join of closed pieces gives
  those pieces.
\<close>

theorem splitQuoted_roundtrip:
  "Join [COMMA] (splitQuoted s) = s \<and>
   list_all (\<lambda>piece. scan False piece \<noteq> None) (splitQuoted s) \<and>
   (pieces \<noteq> [] \<and> list_all (\<lambda>piece. scan False piece = Some False) pieces \<longrightarrow>
      splitQuoted (Join [COMMA] pieces) = pieces)"
  using splitQuoted_loop_pieces [of "[]" False _ s]
  by (auto simp: splitQuoted_Join_pieces list_all_iff)
    (simp_all add: splitQuoted_def Join_splitQuoted_loop)

theorem splitQuoted_roundtrip_witness:
  "splitQuoted (Join [COMMA] [''private='' @ [DQUOTE] @ ''a, b'' @ [DQUOTE], '' max-age=1'']) =
     [''private='' @ [DQUOTE] @ ''a, b'' @ [DQUOTE], '' max-age=1'']"
  using splitQuoted_roundtrip [of "[]" "[''private='' @ [DQUOTE] @ ''a, b'' @ [DQUOTE], '' max-age=1'']"]
  by simp

end
