(* ===== verification/Merging.thy ===== *)
theory Merging
  imports Freshness "HOL-Library.Multiset"
begin

text \<open>
  The RFC 9111 section 4.3.4 header merge, \<open>src/internal/freshness/merge.go\<close>. The loop
  visits the validating header in list order, that is in an arbitrary one; \<open>Merge_lookup\<close>
  describes the result without reference to the order.
\<close>

definition bodyFields :: "string list" where
  "bodyFields = [''Content-Length'', ''Content-Encoding'', ''Content-Range'', ''Content-Type'']"

fun merge_loop :: "header \<Rightarrow> header \<Rightarrow> header" where
  "merge_loop merged [] = merged"
| "merge_loop merged ((name, vals) # rest) =
     (let canon = CanonicalHeaderKey name
      in if canon \<in> set bodyFields then merge_loop merged rest
         else merge_loop (AList.update canon vals merged) rest)"

definition Merge :: "header option \<Rightarrow> header \<Rightarrow> header" where
  "Merge stored validating =
     (let merged = (case stored of None \<Rightarrow> [] | Some h \<Rightarrow> h)
      in merge_loop (hdr_Del (hdr_Del merged ''Age'') ''Date'') validating)"

text \<open>Headers as the HTTP client and the metadata reader build them: each canonical name once.\<close>

definition wf_hdr :: "header \<Rightarrow> bool" where
  "wf_hdr h \<longleftrightarrow> wf_map h \<and> list_all canonical (map fst h)"

lemma wf_hdr_Nil [simp]: "wf_hdr []"
  by (simp add: wf_hdr_def)

lemma wf_hdr_Cons [simp]:
  "wf_hdr ((k, v) # h) \<longleftrightarrow> canonical k \<and> k \<notin> keys_of h \<and> wf_hdr h"
  by (auto simp: wf_hdr_def)

lemma wf_hdr_canonical: "wf_hdr h \<Longrightarrow> map_of h k = Some v \<Longrightarrow> canonical k"
  by (auto simp: wf_hdr_def list_all_iff dest!: map_of_SomeD)

lemma wf_hdr_iff: "wf_hdr h \<longleftrightarrow> wf_map h \<and> (\<forall>k \<in> keys_of h. canonical k)"
  by (simp add: wf_hdr_def list_all_iff)

lemma wf_hdr_update [simp]: "wf_hdr h \<Longrightarrow> canonical k \<Longrightarrow> wf_hdr (AList.update k v h)"
  unfolding wf_hdr_iff dom_update by auto

lemma wf_hdr_delete [simp]: "wf_hdr h \<Longrightarrow> wf_hdr (AList.delete k h)"
  unfolding wf_hdr_iff using dom_delete_subset [of k h] by (blast intro: wf_map_delete)

lemma wf_hdr_ops [simp]:
  "wf_hdr h \<Longrightarrow> wf_hdr (hdr_Set h k v)"
  "wf_hdr h \<Longrightarrow> wf_hdr (hdr_Add h k v)"
  "wf_hdr h \<Longrightarrow> wf_hdr (hdr_Del h k)"
  by (simp_all add: hdr_Set_def hdr_Add_def hdr_Del_def Let_def)

lemma wf_merge_loop [simp]: "wf_hdr merged \<Longrightarrow> wf_hdr (merge_loop merged v)"
  by (induction merged v rule: merge_loop.induct) (auto simp: Let_def)

lemma wf_Merge [simp]: "wf_hdr (hdr_of stored) \<Longrightarrow> wf_hdr (Merge stored v)"
  by (cases stored) (simp_all add: Merge_def Let_def)

lemma merge_loop_lookup:
  "wf_hdr v \<Longrightarrow>
   map_of (merge_loop merged v) k =
     (if k \<in> set bodyFields then map_of merged k
      else case map_of v k of Some vals \<Rightarrow> Some vals | None \<Rightarrow> map_of merged k)"
  by (induction merged v rule: merge_loop.induct)
    (auto simp: Let_def canonical_def split: option.splits dest: map_of_SomeD intro: rev_image_eqI)

lemma Merge_map_of:
  "wf_hdr v \<Longrightarrow>
   map_of (Merge stored v) k =
     (if k \<in> set bodyFields then map_of (hdr_of stored) k
      else case map_of v k of
        Some vals \<Rightarrow> Some vals
      | None \<Rightarrow> if k = ''Age'' \<or> k = ''Date'' then None else map_of (hdr_of stored) k)"
  by (cases stored)
    (auto simp: Merge_def Let_def merge_loop_lookup hdr_Del_def bodyFields_def split: option.splits)

lemma Merge_Values:
  "wf_hdr v \<Longrightarrow> canonical k \<Longrightarrow>
   hdr_Values (Merge stored v) k =
     (if k \<in> set bodyFields then hdr_Values (hdr_of stored) k
      else if k \<in> keys_of v then hdr_Values v k
      else if k = ''Age'' \<or> k = ''Date'' then [] else hdr_Values (hdr_of stored) k)"
proof (cases "map_of v k")
  case None
  then have "k \<notin> keys_of v" by (simp add: map_of_None_keys)
  assume "wf_hdr v" and "canonical k"
  then show ?thesis
    by (simp add: hdr_Values_def canonical_def Merge_map_of None \<open>k \<notin> keys_of v\<close>
        del: map_of_eq_None_iff)
next
  case (Some vals)
  then have "k \<in> keys_of v" by (force dest: map_of_SomeD)
  assume "wf_hdr v" and "canonical k"
  then show ?thesis
    by (simp add: hdr_Values_def canonical_def Merge_map_of Some \<open>k \<in> keys_of v\<close>)
qed

section \<open>Properties\<close>

text \<open>
  C10. The merge is the one RFC 9111 section 4.3.4 asks for: a field the validating response
  carries replaces the stored one, a field it omits is kept - except that body-describing fields
  always come from the stored entry, and Age and Date are never inherited from it.
\<close>

theorem Merge_lookup:
  assumes "wf_hdr validating" and "canonical k"
  shows "hdr_Values (Merge stored validating) k =
     (if k \<in> set bodyFields then hdr_Values (hdr_of stored) k
      else if k \<in> keys_of validating then hdr_Values validating k
      else if k = ''Age'' \<or> k = ''Date'' then [] else hdr_Values (hdr_of stored) k)"
  using assms by (rule Merge_Values)

theorem Merge_lookup_witness:
  "hdr_Values (Merge (Some [(''Etag'', [''a'']), (''Age'', [''9'']), (''Content-Type'', [''t''])])
     [(''Content-Type'', [''u'']), (''Cache-Control'', [''max-age=1''])]) ''Content-Type'' = [''t'']"
proof -
  have wf: "wf_hdr [(''Content-Type'', [''u'']), (''Cache-Control'', [''max-age=1''])]"
    and k: "canonical ''Content-Type''"
    by code_simp+
  show ?thesis
    using Merge_lookup [OF wf k, of "Some [(''Etag'', [''a'']), (''Age'', [''9'']), (''Content-Type'', [''t''])]"]
    by (simp add: bodyFields_def hdr_Values_def)
qed

text \<open>
  The order in which Go's \<open>range\<close> visits the validating header does not matter, and
  applying the same validating header again changes nothing: the merge reads back the same at
  every name.
\<close>

theorem Merge_order_irrelevant:
  assumes "wf_hdr validating" and "mset validating' = mset validating"
  shows "map_of (Merge stored validating') = map_of (Merge stored validating) \<and>
    map_of (Merge (Some (Merge stored validating)) validating) = map_of (Merge stored validating)"
proof
  have "mset (map fst validating') = mset (map fst validating)"
    using assms(2) by (metis mset_map)
  then have keys: "distinct (map fst validating')"
    using assms(1) by (metis mset_eq_imp_distinct_iff wf_hdr_def wf_map_def)
  have "set (map fst validating') = set (map fst validating)"
    using assms(2) by (metis mset_eq_setD set_map)
  then have wf': "wf_hdr validating'"
    using assms(1) keys by (simp add: wf_hdr_def wf_map_def list_all_iff)
  have "map_of validating' = map_of validating"
    using assms keys by (metis map_of_inject_set mset_eq_setD wf_hdr_def wf_map_def)
  then show "map_of (Merge stored validating') = map_of (Merge stored validating)"
    using assms(1) wf' by (auto simp: fun_eq_iff Merge_map_of)
  show "map_of (Merge (Some (Merge stored validating)) validating) = map_of (Merge stored validating)"
    using assms(1) by (auto simp: fun_eq_iff Merge_map_of split: option.splits)
qed

theorem Merge_order_irrelevant_witness:
  "map_of (Merge None [(''Etag'', [''a'']), (''Age'', [''9''])]) =
   map_of (Merge None [(''Age'', [''9'']), (''Etag'', [''a''])])"
proof -
  have "wf_hdr [(''Age'', [''9'']), (''Etag'', [''a''])]" by code_simp
  from Merge_order_irrelevant [OF this, of "[(''Etag'', [''a'']), (''Age'', [''9''])]"]
  show ?thesis by (simp add: add_mset_commute)
qed

end
