(* ===== verification/Json.thy ===== *)
theory Json
  imports GoStrings
begin

text \<open>
  \<open>encoding/json\<close> on string lists: \<open>json.Marshal\<close> of a \<open>[]string\<close> (with the HTML
  escaping it applies by default) and \<open>json.Unmarshal\<close> into one. Strings are bytes; a byte
  that starts no valid UTF-8 sequence is replaced by U+FFFD on either side, so a round trip repairs
  the encoding (\<open>utf8_repair\<close>) and is the identity on valid UTF-8.
\<close>

section \<open>UTF-8\<close>

definition byte_in :: "nat \<Rightarrow> nat \<Rightarrow> char \<Rightarrow> bool" where
  "byte_in lo hi c \<longleftrightarrow> lo \<le> of_char c \<and> of_char c \<le> hi"

abbreviation continuation :: "char \<Rightarrow> bool" where "continuation \<equiv> byte_in 0x80 0xBF"

text \<open>The size of the sequence a string starts with; \<open>None\<close> if it is not valid.\<close>

fun utf8_size :: "string \<Rightarrow> nat option" where
  "utf8_size [] = None"
| "utf8_size (a # s) =
     (if byte_in 0x00 0x7F a then Some 1
      else case s of
        [] \<Rightarrow> None
      | b # s' \<Rightarrow>
          if byte_in 0xC2 0xDF a then (if continuation b then Some 2 else None)
          else (case s' of
            [] \<Rightarrow> None
          | c # s'' \<Rightarrow>
              if byte_in 0xE0 0xEF a then
                (if (if byte_in 0xE0 0xE0 a then byte_in 0xA0 0xBF b
                     else if byte_in 0xED 0xED a then byte_in 0x80 0x9F b else continuation b) \<and>
                    continuation c
                 then Some 3 else None)
              else if byte_in 0xF0 0xF4 a then
                (case s'' of
                   [] \<Rightarrow> None
                 | d # _ \<Rightarrow>
                     if (if byte_in 0xF0 0xF0 a then byte_in 0x90 0xBF b
                         else if byte_in 0xF4 0xF4 a then byte_in 0x80 0x8F b else continuation b) \<and>
                        continuation c \<and> continuation d
                     then Some 4 else None)
              else None))"

definition replacement :: string where "replacement = [CHR 0xEF, CHR 0xBF, CHR 0xBD]"

lemma utf8_size_pos: "utf8_size s = Some n \<Longrightarrow> 0 < n \<and> n \<le> length s"
  by (cases s) (auto split: if_splits list.splits)

lemma utf8_size_local: "utf8_size s = Some n \<Longrightarrow> utf8_size (take n s @ t) = Some n"
  by (cases s) (auto split: if_splits list.splits)

fun utf8_repair :: "string \<Rightarrow> string" where
  "utf8_repair [] = []"
| "utf8_repair (c # cs) =
     (case utf8_size (c # cs) of
        None \<Rightarrow> replacement @ utf8_repair cs
      | Some n \<Rightarrow> take n (c # cs) @ utf8_repair (drop (n - 1) cs))"

fun valid_utf8 :: "string \<Rightarrow> bool" where
  "valid_utf8 [] = True"
| "valid_utf8 (c # cs) =
     (case utf8_size (c # cs) of None \<Rightarrow> False | Some n \<Rightarrow> valid_utf8 (drop (n - 1) cs))"

lemma utf8_repair_valid: "valid_utf8 s \<Longrightarrow> utf8_repair s = s"
proof (induction s rule: valid_utf8.induct)
  case (2 c cs)
  then obtain n where n: "utf8_size (c # cs) = Some n" by (auto split: option.splits)
  then have "0 < n" using utf8_size_pos by blast
  with n 2 have "utf8_repair (c # cs) = take n (c # cs) @ drop (n - 1) cs" by simp
  also have "\<dots> = c # cs" using \<open>0 < n\<close> by (cases n) auto
  finally show ?case .
qed simp

lemma ascii_valid: "list_all is_ascii s \<Longrightarrow> valid_utf8 s"
  by (induction s) (auto simp: is_ascii_def byte_in_def)

section \<open>Marshal\<close>

definition hexdigit :: "nat \<Rightarrow> char" where
  "hexdigit n = (if n < 10 then char_of (48 + n) else char_of (87 + n))"

definition json_ascii :: "char \<Rightarrow> string" where
  "json_ascii c =
     (if c = BACKSLASH \<or> c = DQUOTE then [BACKSLASH, c]
      else if c = CHR 0x08 then [BACKSLASH, CHR ''b'']
      else if c = CHR 0x0C then [BACKSLASH, CHR ''f'']
      else if c = CHR 0x0A then [BACKSLASH, CHR ''n'']
      else if c = CHR 0x0D then [BACKSLASH, CHR ''r'']
      else if c = CHR 0x09 then [BACKSLASH, CHR ''t'']
      else if of_char c < (32::nat) \<or> c = CHR ''<'' \<or> c = CHR ''>'' \<or> c = CHR ''&''
      then [BACKSLASH, CHR ''u'', CHR ''0'', CHR ''0'', hexdigit (of_char c div 16), hexdigit (of_char c mod 16)]
      else [c])"

definition line_separator :: string where "line_separator = [CHR 0xE2, CHR 0x80, CHR 0xA8]"
definition paragraph_separator :: string where "paragraph_separator = [CHR 0xE2, CHR 0x80, CHR 0xA9]"

definition json_rune :: "string \<Rightarrow> string" where
  "json_rune r =
     (if r = line_separator then BACKSLASH # ''u2028''
      else if r = paragraph_separator then BACKSLASH # ''u2029'' else r)"

fun json_chars :: "string \<Rightarrow> string" where
  "json_chars [] = []"
| "json_chars (c # cs) =
     (if is_ascii c then json_ascii c @ json_chars cs
      else case utf8_size (c # cs) of
        None \<Rightarrow> (BACKSLASH # ''ufffd'') @ json_chars cs
      | Some n \<Rightarrow> json_rune (take n (c # cs)) @ json_chars (drop (n - 1) cs))"

definition json_string :: "string \<Rightarrow> string" where
  "json_string s = DQUOTE # json_chars s @ [DQUOTE]"

definition json_Marshal :: "string list \<Rightarrow> string" where
  "json_Marshal vs = ''['' @ Join '','' (map json_string vs) @ '']''"

section \<open>Unmarshal\<close>

definition hexval :: "char \<Rightarrow> nat option" where
  "hexval c =
     (if byte_in 48 57 c then Some (of_char c - 48)
      else if byte_in 97 102 c then Some (of_char c - 87)
      else if byte_in 65 70 c then Some (of_char c - 55) else None)"

fun getu4 :: "string \<Rightarrow> (nat \<times> string) option" where
  "getu4 (a # b # c # d # s) =
     (case (hexval a, hexval b, hexval c, hexval d) of
        (Some x, Some y, Some z, Some w) \<Rightarrow> Some (((x * 16 + y) * 16 + z) * 16 + w, s)
      | _ \<Rightarrow> None)"
| "getu4 _ = None"

definition utf8_encode :: "nat \<Rightarrow> string" where
  "utf8_encode r =
     (if r < 0x80 then [char_of r]
      else if r < 0x800 then [char_of (0xC0 + r div 64), char_of (0x80 + r mod 64)]
      else if r < 0x10000
      then [char_of (0xE0 + r div 4096), char_of (0x80 + r div 64 mod 64), char_of (0x80 + r mod 64)]
      else [char_of (0xF0 + r div 262144), char_of (0x80 + r div 4096 mod 64),
            char_of (0x80 + r div 64 mod 64), char_of (0x80 + r mod 64)])"

text \<open>
  A \<open>\u\<close> escape: a high surrogate followed by the escape of a low one is one rune, any other
  surrogate is U+FFFD. The result is the rune's bytes and the rest of the text.
\<close>

fun unquote_u :: "string \<Rightarrow> (string \<times> string) option" where
  "unquote_u s =
     (case getu4 s of
        None \<Rightarrow> None
      | Some (r, rest) \<Rightarrow>
          if 0xD800 \<le> r \<and> r < 0xE000 then
            (case rest of
               x # y # rest' \<Rightarrow>
                 if x = BACKSLASH \<and> y = CHR ''u'' then
                   (case getu4 rest' of
                      Some (r', rest'') \<Rightarrow>
                        if r < 0xDC00 \<and> 0xDC00 \<le> r' \<and> r' < 0xE000
                        then Some (utf8_encode (0x10000 + (r - 0xD800) * 1024 + (r' - 0xDC00)), rest'')
                        else Some (replacement, rest)
                    | None \<Rightarrow> Some (replacement, rest))
                 else Some (replacement, rest)
             | _ \<Rightarrow> Some (replacement, rest))
          else Some (utf8_encode r, rest))"

lemma getu4_length: "getu4 s = Some (r, t) \<Longrightarrow> length t < length s"
  by (cases s rule: getu4.cases) (auto split: option.splits)

lemma unquote_u_length: "unquote_u s = Some (r, t) \<Longrightarrow> length t < length s"
  by (auto split: option.splits if_splits list.splits dest!: getu4_length)

declare unquote_u.simps [simp del]

definition simple_escape :: "char \<Rightarrow> char option" where
  "simple_escape e =
     (if e = DQUOTE \<or> e = BACKSLASH \<or> e = CHR ''/'' then Some e
      else if e = CHR ''b'' then Some CHR 0x08
      else if e = CHR ''f'' then Some CHR 0x0C
      else if e = CHR ''n'' then Some CHR 0x0A
      else if e = CHR ''r'' then Some CHR 0x0D
      else if e = CHR ''t'' then Some CHR 0x09 else None)"

definition prepend :: "string \<Rightarrow> (string \<times> string) option \<Rightarrow> (string \<times> string) option" where
  "prepend p r = map_option (\<lambda>(s, rest). (p @ s, rest)) r"

text \<open>The body of a string literal up to its closing quote, and the text after it.\<close>

function json_unquote :: "string \<Rightarrow> (string \<times> string) option" where
  "json_unquote [] = None"
| "json_unquote (c # cs) =
     (if c = DQUOTE then Some ([], cs)
      else if c = BACKSLASH then
        (case cs of
           [] \<Rightarrow> None
         | e # es \<Rightarrow>
             if e = CHR ''u'' then
               (case unquote_u es of
                  None \<Rightarrow> None | Some (r, rest) \<Rightarrow> prepend r (json_unquote rest))
             else (case simple_escape e of
                  None \<Rightarrow> None | Some x \<Rightarrow> prepend [x] (json_unquote es)))
      else if of_char c < (32::nat) then None
      else if is_ascii c then prepend [c] (json_unquote cs)
      else (case utf8_size (c # cs) of
          None \<Rightarrow> prepend replacement (json_unquote cs)
        | Some n \<Rightarrow> prepend (take n (c # cs)) (json_unquote (drop (n - 1) cs))))"
  by pat_completeness auto
termination
  by (relation "measure length") (auto dest: unquote_u_length)

fun skip_ws :: "string \<Rightarrow> string" where
  "skip_ws [] = []"
| "skip_ws (c # cs) = (if c \<in> {CHR 0x20, CHR 0x09, CHR 0x0A, CHR 0x0D} then skip_ws cs else c # cs)"

text \<open>One element: a string, or \<open>null\<close>, which leaves the zero value.\<close>

definition json_elem :: "string \<Rightarrow> (string \<times> string) option" where
  "json_elem s =
     (if HasPrefix s ''null'' then Some ([], drop 4 s)
      else case s of [] \<Rightarrow> None | c # cs \<Rightarrow> if c = DQUOTE then json_unquote cs else None)"

lemma skip_ws_length: "length (skip_ws s) \<le> length s"
  by (induction s) auto

lemma prepend_Some [simp]: "prepend p (Some (v, t)) = Some (p @ v, t)"
  by (simp add: prepend_def)

lemma prepend_SomeD: "prepend p r = Some (v, t) \<Longrightarrow> \<exists>w. r = Some (w, t) \<and> v = p @ w"
  by (auto simp: prepend_def)

lemma json_unquote_length: "json_unquote s = Some (v, t) \<Longrightarrow> length t < length s"
proof (induction s arbitrary: v t rule: json_unquote.induct)
  case (2 c cs)
  consider "c = DQUOTE" | e es r rest where "c = BACKSLASH" "cs = e # es" "e = CHR ''u''" "unquote_u es = Some (r, rest)"
    | e es x where "c = BACKSLASH" "cs = e # es" "e \<noteq> CHR ''u''" "simple_escape e = Some x"
    | "c \<noteq> DQUOTE" "c \<noteq> BACKSLASH" "\<not> of_char c < (32::nat)"
    using "2.prems" by (auto split: if_splits list.splits option.splits)
  then show ?case
  proof cases
    case 1
    with "2.prems" show ?thesis by simp
  next
    case e: 2
    with "2.prems" obtain w where "json_unquote rest = Some (w, t)" by (auto dest: prepend_SomeD)
    with "2.IH"(1) e have "length t < length rest" by simp
    moreover have "length rest < length es" using e(4) by (rule unquote_u_length)
    ultimately show ?thesis using e by simp
  next
    case e: 3
    with "2.prems" obtain w where "json_unquote es = Some (w, t)" by (auto dest: prepend_SomeD)
    with "2.IH"(2) e have "length t < length es" by simp
    with e show ?thesis by simp
  next
    case 4
    note c = 4
    show ?thesis
    proof (cases "is_ascii c")
      case True
      with "2.prems" c obtain w where "json_unquote cs = Some (w, t)" by (auto dest: prepend_SomeD)
      with "2.IH"(3) c True show ?thesis by fastforce
    next
      case False
      show ?thesis
      proof (cases "utf8_size (c # cs)")
        case None
        with "2.prems" c False obtain w where "json_unquote cs = Some (w, t)"
          by (auto dest: prepend_SomeD simp del: utf8_size.simps)
        with "2.IH"(4) c False None show ?thesis by fastforce
      next
        case (Some n)
        with "2.prems" c False obtain w where "json_unquote (drop (n - 1) cs) = Some (w, t)"
          by (auto dest: prepend_SomeD simp del: utf8_size.simps)
        with "2.IH"(5) c False Some have "length t < length (drop (n - 1) cs)" by fastforce
        then show ?thesis by simp
      qed
    qed
  qed
qed simp

lemma json_elem_length: "json_elem s = Some (v, t) \<Longrightarrow> length t < length s"
  by (auto simp: json_elem_def HasPrefix_iff split: if_splits list.splits dest: json_unquote_length)

lemma json_elems_decreases:
  assumes "json_elem (skip_ws s) = Some (v, t)" and "skip_ws t = c # cs"
  shows "length cs < length s"
proof -
  have "length t < length (skip_ws s)" and "length (c # cs) \<le> length t"
    using assms json_elem_length skip_ws_length [of t] by simp_all
  then show ?thesis using skip_ws_length [of s] by simp
qed

text \<open>The elements after an opening bracket or a comma.\<close>

function json_elems :: "string \<Rightarrow> (string list \<times> string) option" where
  "json_elems s =
     (case json_elem (skip_ws s) of
        None \<Rightarrow> None
      | Some (v, t) \<Rightarrow>
          (case skip_ws t of
             [] \<Rightarrow> None
           | c # cs \<Rightarrow>
               if c = CHR '']'' then Some ([v], cs)
               else if c = COMMA then map_option (\<lambda>(vs, rest). (v # vs, rest)) (json_elems cs)
               else None))"
  by pat_completeness auto
termination
  by (relation "measure length") (auto dest: json_elems_decreases)

declare json_elems.simps [simp del]

definition json_Unmarshal :: "string \<Rightarrow> string list option" where
  "json_Unmarshal s0 =
     (let s = skip_ws s0; done = (\<lambda>(vs, rest). if skip_ws rest = [] then Some vs else None)
      in if HasPrefix s ''null'' then done ([], drop 4 s)
         else case s of
           [] \<Rightarrow> None
         | c # cs \<Rightarrow>
             if c \<noteq> CHR ''['' then None
             else (case skip_ws cs of
                 [] \<Rightarrow> None
               | d # ds \<Rightarrow> if d = CHR '']'' then done ([], ds) else Option.bind (json_elems cs) done))"

section \<open>Unmarshal after Marshal\<close>

lemma hexval_hexdigit: "n < 16 \<Longrightarrow> hexval (hexdigit n) = Some n"
  by (cases "n < 10") (simp_all add: hexdigit_def hexval_def byte_in_def)

lemma ascii_size: "is_ascii c \<Longrightarrow> utf8_size (c # cs) = Some 1"
proof -
  assume "is_ascii c"
  then have "byte_in 0x00 0x7F c" by (simp add: is_ascii_def byte_in_def)
  then show ?thesis by (simp only: utf8_size.simps if_True)
qed

lemma unquote_u_byte:
  assumes "is_ascii c"
  shows "unquote_u (CHR ''0'' # CHR ''0'' # hexdigit (of_char c div 16) # hexdigit (of_char c mod 16) # t) =
    Some ([c], t)"
proof -
  have c: "of_char c < (128::nat)" using assms by (simp add: is_ascii_def)
  then have "of_char c div 16 < (16::nat)" "of_char c mod 16 < (16::nat)"
    by (simp_all add: less_mult_imp_div_less)
  then have "hexval (hexdigit (of_char c div 16)) = Some (of_char c div 16)"
    "hexval (hexdigit (of_char c mod 16)) = Some (of_char c mod 16)"
    by (simp_all only: hexval_hexdigit)
  moreover have "hexval CHR ''0'' = Some 0" by code_simp
  ultimately show ?thesis using c by (simp add: unquote_u.simps utf8_encode_def)
qed

lemma json_unquote_ascii:
  assumes "is_ascii c"
  shows "json_unquote (json_ascii c @ t) = prepend [c] (json_unquote t)"
proof -
  have "c \<in> {BACKSLASH, DQUOTE, CHR 0x08, CHR 0x0C, CHR 0x0A, CHR 0x0D, CHR 0x09} \<or>
      json_ascii c = [BACKSLASH, CHR ''u'', CHR ''0'', CHR ''0'', hexdigit (of_char c div 16), hexdigit (of_char c mod 16)] \<or>
      json_ascii c = [c] \<and> c \<noteq> BACKSLASH \<and> c \<noteq> DQUOTE \<and> \<not> of_char c < (32::nat)"
    by (simp add: json_ascii_def)
  then consider "c \<in> {BACKSLASH, DQUOTE, CHR 0x08, CHR 0x0C, CHR 0x0A, CHR 0x0D, CHR 0x09}"
    | "json_ascii c = [BACKSLASH, CHR ''u'', CHR ''0'', CHR ''0'', hexdigit (of_char c div 16), hexdigit (of_char c mod 16)]"
    | "json_ascii c = [c]" "c \<noteq> BACKSLASH" "c \<noteq> DQUOTE" "\<not> of_char c < (32::nat)"
    by blast
  then show ?thesis
  proof cases
    case 1
    then show ?thesis by (auto simp: json_ascii_def simple_escape_def)
  next
    case 2
    then show ?thesis by (simp add: unquote_u_byte [OF assms])
  next
    case 3
    then show ?thesis using assms by simp
  qed
qed

lemma json_unquote_separators:
  "json_unquote (BACKSLASH # ''u2028'' @ t) = prepend line_separator (json_unquote t)"
  "json_unquote (BACKSLASH # ''u2029'' @ t) = prepend paragraph_separator (json_unquote t)"
  "json_unquote (BACKSLASH # ''ufffd'' @ t) = prepend replacement (json_unquote t)"
proof -
  have "hexval CHR ''2'' = Some 2" "hexval CHR ''0'' = Some 0" "hexval CHR ''8'' = Some 8"
    "hexval CHR ''9'' = Some 9" "hexval CHR ''f'' = Some 15" "hexval CHR ''d'' = Some 13"
    by code_simp+
  moreover have "utf8_encode 8232 = line_separator" "utf8_encode 8233 = paragraph_separator"
    "utf8_encode 65533 = replacement"
    by (simp_all add: utf8_encode_def line_separator_def paragraph_separator_def replacement_def char_of_def bit_0)
  ultimately show "json_unquote (BACKSLASH # ''u2028'' @ t) = prepend line_separator (json_unquote t)"
    "json_unquote (BACKSLASH # ''u2029'' @ t) = prepend paragraph_separator (json_unquote t)"
    "json_unquote (BACKSLASH # ''ufffd'' @ t) = prepend replacement (json_unquote t)"
    by (simp_all add: unquote_u.simps)
qed

lemma json_unquote_valid:
  assumes "\<not> is_ascii c" and n: "utf8_size (c # cs) = Some n"
  shows "json_unquote (take n (c # cs) @ t) = prepend (take n (c # cs)) (json_unquote t)"
proof -
  obtain m where m: "n = Suc m" "m \<le> length cs" using utf8_size_pos [OF n] by (cases n) auto
  have "utf8_size (c # take m cs @ t) = Some n"
    using utf8_size_local [OF n, of t] m by simp
  moreover have "c \<noteq> BACKSLASH" "c \<noteq> DQUOTE" "\<not> of_char c < (32::nat)"
    using assms(1) by (auto simp: is_ascii_def)
  ultimately show ?thesis using assms(1) m by (simp del: utf8_size.simps)
qed

lemma json_unquote_rune:
  assumes "\<not> is_ascii c" and n: "utf8_size (c # cs) = Some n"
  shows "json_unquote (json_rune (take n (c # cs)) @ t) = prepend (take n (c # cs)) (json_unquote t)"
  using json_unquote_valid [OF assms] json_unquote_separators
  by (simp add: json_rune_def del: json_unquote.simps utf8_size.simps)

lemma json_unquote_chars:
  "json_unquote (json_chars s @ DQUOTE # rest) = Some (utf8_repair s, rest)"
proof (induction s rule: json_chars.induct)
  case (2 c cs)
  show ?case
  proof (cases "is_ascii c")
    case True
    then show ?thesis using 2(1) by (simp add: json_unquote_ascii ascii_size del: json_unquote.simps utf8_size.simps)
  next
    case False
    show ?thesis
    proof (cases "utf8_size (c # cs)")
      case None
      then show ?thesis using 2(2) False
        using json_unquote_separators(3) [of "json_chars cs @ DQUOTE # rest"]
        by (simp del: json_unquote.simps utf8_size.simps)
    next
      case (Some n)
      then show ?thesis using 2(3) [OF False Some] False
        by (simp add: json_unquote_rune del: json_unquote.simps utf8_size.simps take_Suc_Cons)
    qed
  qed
qed simp

lemma skip_ws_quote [simp]: "skip_ws (DQUOTE # s) = DQUOTE # s"
  by simp

lemma json_elem_string: "json_elem (json_string s @ rest) = Some (utf8_repair s, rest)"
  by (simp add: json_elem_def json_string_def HasPrefix_def json_unquote_chars del: json_unquote.simps)

lemma json_elems_strings:
  "vs \<noteq> [] \<Longrightarrow>
   json_elems (Join '','' (map json_string vs) @ CHR '']'' # rest) = Some (map utf8_repair vs, rest)"
proof (induction vs)
  case (Cons v vs)
  have skip: "skip_ws (json_string v @ t) = json_string v @ t" for t by (simp add: json_string_def)
  show ?case
  proof (cases vs)
    case Nil
    then show ?thesis by (subst json_elems.simps) (simp add: skip json_elem_string)
  next
    case (Cons w ws)
    then show ?thesis using Cons.IH
      by (subst json_elems.simps) (simp add: skip json_elem_string)
  qed
qed simp

lemma json_Unmarshal_Marshal: "json_Unmarshal (json_Marshal vs) = Some (map utf8_repair vs)"
proof (cases vs)
  case Nil
  then show ?thesis by (simp add: json_Marshal_def json_Unmarshal_def HasPrefix_def Let_def)
next
  case (Cons v ws)
  have "Join '','' (map json_string vs) \<noteq> []" and
    hd: "\<exists>t. Join '','' (map json_string vs) = DQUOTE # t"
    using Cons by (cases ws; simp add: json_string_def)+
  then show ?thesis
    using json_elems_strings [of vs "[]"] Cons
    by (auto simp: json_Marshal_def json_Unmarshal_def HasPrefix_def Let_def)
qed

end
