(* ===== verification/GoErrors.thy ===== *)
theory GoErrors
  imports GoTime
begin

text \<open>
  Go error values. \<open>errorutil.Wrapf\<close> (\<open>src/internal/errorutil/errors.go\<close>) annotates
  an error with a format string and its arguments and keeps the cause reachable (\<open>%w\<close>);
  the text is rendered by \<open>fmt\<close> when it is printed and is kept here as format and arguments.
  \<open>errors.As\<close> and \<open>errors.AsType\<close> search the chain of causes for a type.
\<close>

datatype go_error =
    ErrUpstream int string \<comment> \<open>\<open>*upstreamError\<close>: status code and URL\<close>
  | ErrNet string \<comment> \<open>an error that implements \<open>net.Error\<close>\<close>
  | ErrAPI string string \<comment> \<open>a \<open>smithy.APIError\<close>: code and message\<close>
  | ErrPlain string \<comment> \<open>\<open>errors.New\<close>\<close>
  | ErrURL string string go_error \<comment> \<open>\<open>*url.Error\<close>: operation, URL, cause\<close>
  | ErrWrap string "string list" go_error \<comment> \<open>annotated by \<open>Wrap\<close> or \<open>Wrapf\<close>\<close>

definition Wrap :: "go_error \<Rightarrow> string \<Rightarrow> go_error" where
  "Wrap err msg = ErrWrap msg [] err"

definition Wrapf :: "go_error \<Rightarrow> string \<Rightarrow> string list \<Rightarrow> go_error" where
  "Wrapf err f args = ErrWrap f args err"

text \<open>\<open>*url.Error\<close> has \<open>Timeout\<close> and \<open>Temporary\<close>, so it is itself a \<open>net.Error\<close>.\<close>

fun is_net_error :: "go_error \<Rightarrow> bool" where
  "is_net_error (ErrNet m) = True"
| "is_net_error (ErrURL op u e) = True"
| "is_net_error _ = False"

fun unwrap :: "go_error \<Rightarrow> go_error option" where
  "unwrap (ErrURL op u e) = Some e"
| "unwrap (ErrWrap f args e) = Some e"
| "unwrap _ = None"

fun as_net_error :: "go_error \<Rightarrow> bool" where
  "as_net_error (ErrURL op u e) = True"
| "as_net_error (ErrWrap f args e) = as_net_error e"
| "as_net_error e = is_net_error e"

fun as_upstream :: "go_error \<Rightarrow> (int \<times> string) option" where
  "as_upstream (ErrUpstream code u) = Some (code, u)"
| "as_upstream (ErrURL op u e) = as_upstream e"
| "as_upstream (ErrWrap f args e) = as_upstream e"
| "as_upstream _ = None"

fun as_api :: "go_error \<Rightarrow> string option" where
  "as_api (ErrAPI code msg) = Some code"
| "as_api (ErrURL op u e) = as_api e"
| "as_api (ErrWrap f args e) = as_api e"
| "as_api _ = None"

text \<open>Wrapping hides nothing: every search finds in the wrapped error what it finds in the cause.\<close>

lemma as_Wrap [simp]:
  "as_net_error (Wrap e m) = as_net_error e"
  "as_upstream (Wrap e m) = as_upstream e"
  "as_api (Wrap e m) = as_api e"
  "as_net_error (Wrapf e f args) = as_net_error e"
  "as_upstream (Wrapf e f args) = as_upstream e"
  "as_api (Wrapf e f args) = as_api e"
  by (simp_all add: Wrap_def Wrapf_def)

end
