(* ===== verification/Metadata.thy ===== *)
theory Metadata
  imports Merging Json GoErrors
begin

text \<open>
  Headers as S3 object metadata, \<open>src/s3_metadata.go\<close>. Marshalling a string list cannot fail,
  so the error branch of \<open>headerToMetadata\<close> is never taken; unmarshalling what someone else
  stored can.
\<close>

type_synonym metadata = "(string, string) go_map"

definition metadataHeaderAllowlist :: "string list" where
  "metadataHeaderAllowlist =
     [''Age'', ''Cache-Control'', ''Content-Encoding'', ''Content-Length'', ''Content-Type'', ''Date'',
      ''Docker-Content-Digest'', ''Etag'', ''Expires'', ''Last-Modified'', ''Vary'']"

fun headerToMetadata_loop :: "metadata \<Rightarrow> header \<Rightarrow> metadata" where
  "headerToMetadata_loop metadata [] = metadata"
| "headerToMetadata_loop metadata ((k, vals) # rest) =
     (if CanonicalHeaderKey k \<notin> set metadataHeaderAllowlist
      then headerToMetadata_loop metadata rest
      else headerToMetadata_loop (AList.update k (json_Marshal vals) metadata) rest)"

definition headerToMetadata :: "header \<Rightarrow> go_error + metadata" where
  "headerToMetadata headers = Inr (headerToMetadata_loop [] headers)"

definition errJson :: go_error where "errJson = ErrPlain ''json''"

fun metadataToHeader_loop :: "header \<Rightarrow> metadata \<Rightarrow> go_error + header" where
  "metadataToHeader_loop headers [] = Inr headers"
| "metadataToHeader_loop headers ((k, v) # rest) =
     (case json_Unmarshal v of
        None \<Rightarrow> Inl (Wrapf errJson ''unmarshal metadata %s=%s'' [k, v])
      | Some parsed \<Rightarrow>
          metadataToHeader_loop
            (foldl (\<lambda>h x. hdr_Add h (TrimPrefix k ''x-amz-meta-'') x) headers parsed) rest)"

definition metadataToHeader :: "metadata \<Rightarrow> go_error + header" where
  "metadataToHeader metadata = metadataToHeader_loop [] metadata"

section \<open>What is written\<close>

lemma update_absent: "k \<notin> keys_of m \<Longrightarrow> AList.update k v m = m @ [(k, v)]"
  by (induction m) auto

definition allowed :: "string \<Rightarrow> bool" where
  "allowed k \<longleftrightarrow> CanonicalHeaderKey k \<in> set metadataHeaderAllowlist"

lemma headerToMetadata_loop_eq:
  "wf_map h \<Longrightarrow> keys_of m \<inter> keys_of h = {} \<Longrightarrow>
   headerToMetadata_loop m h =
     m @ map (\<lambda>(k, vs). (k, json_Marshal vs)) (filter (\<lambda>(k, vs). allowed k) h)"
proof (induction m h rule: headerToMetadata_loop.induct)
  case (2 m k vals rest)
  then have "k \<notin> keys_of m" and "keys_of (m @ [(k, json_Marshal vals)]) \<inter> keys_of rest = {}"
    and "keys_of m \<inter> keys_of rest = {}"
    by auto
  with 2 show ?case by (simp add: allowed_def update_absent)
qed simp

lemma headerToMetadata_eq:
  "wf_map h \<Longrightarrow> headerToMetadata h =
     Inr (map (\<lambda>(k, vs). (k, json_Marshal vs)) (filter (\<lambda>(k, vs). allowed k) h))"
  by (simp add: headerToMetadata_def headerToMetadata_loop_eq)

section \<open>What is read back\<close>

lemma hdr_Values_foldl_Add:
  "hdr_Values (foldl (\<lambda>h x. hdr_Add h n x) h vs) k =
     hdr_Values h k @ (if CanonicalHeaderKey k = CanonicalHeaderKey n then vs else [])"
  by (induction vs arbitrary: h) (auto simp: hdr_Values_Add)

lemma wf_hdr_foldl_Add [simp]: "wf_hdr h \<Longrightarrow> wf_hdr (foldl (\<lambda>h x. hdr_Add h n x) h vs)"
  by (induction vs arbitrary: h) auto

lemma metadataToHeader_loop_wf:
  "metadataToHeader_loop h m = Inr h' \<Longrightarrow> wf_hdr h \<Longrightarrow> wf_hdr h'"
  by (induction h m rule: metadataToHeader_loop.induct) (auto split: option.splits)

lemma metadataToHeader_wf: "metadataToHeader m = Inr h \<Longrightarrow> wf_hdr h"
  by (simp add: metadataToHeader_def metadataToHeader_loop_wf)

definition meta_name :: "string \<Rightarrow> string" where
  "meta_name k = CanonicalHeaderKey (TrimPrefix k ''x-amz-meta-'')"

lemma metadataToHeader_loop_Values:
  "list_all (\<lambda>(k, v). json_Unmarshal v \<noteq> None) m \<Longrightarrow>
   \<exists>h'. metadataToHeader_loop h m = Inr h' \<and>
     (\<forall>k. hdr_Values h' k = hdr_Values h k @
        concat (map (\<lambda>(_, v). the (json_Unmarshal v))
          (filter (\<lambda>(n, _). meta_name n = CanonicalHeaderKey k) m)))"
proof (induction h m rule: metadataToHeader_loop.induct)
  case (2 headers k v rest)
  then obtain parsed where v: "json_Unmarshal v = Some parsed" by auto
  let ?h = "foldl (\<lambda>h x. hdr_Add h (TrimPrefix k ''x-amz-meta-'') x) headers parsed"
  from 2 v obtain h' where "metadataToHeader_loop ?h rest = Inr h'"
    and "\<forall>k. hdr_Values h' k = hdr_Values ?h k @ concat (map (\<lambda>(_, v). the (json_Unmarshal v))
          (filter (\<lambda>(n, _). meta_name n = CanonicalHeaderKey k) rest))"
    by auto
  then show ?case
    using v by (auto simp: hdr_Values_foldl_Add meta_name_def)
qed simp

lemma metadataToHeader_error:
  "list_ex (\<lambda>(k, v). json_Unmarshal v = None) m \<Longrightarrow> \<exists>e. metadataToHeader_loop h m = Inl e"
  by (induction h m rule: metadataToHeader_loop.induct) (auto split: option.splits)

text \<open>
  S3 hands metadata back with its own spelling of the keys and in its own order: \<open>f\<close> is the
  respelling, \<open>m\<close> any rearrangement.
\<close>

lemma filter_unique_key:
  assumes "wf_map h"
  shows "filter (\<lambda>(k', _). k' = k) h = (case map_of h k of None \<Rightarrow> [] | Some v \<Rightarrow> [(k, v)])"
  using assms
proof (induction h)
  case (Cons x h)
  obtain a b where x: "x = (a, b)" by (cases x)
  with Cons have IH: "filter (\<lambda>(k', _). k' = k) h = (case map_of h k of None \<Rightarrow> [] | Some v \<Rightarrow> [(k, v)])"
    and "a \<notin> keys_of h"
    by auto
  then have "a = k \<Longrightarrow> map_of h k = None" by (simp add: map_of_None_keys)
  with IH x show ?case by (cases "a = k") (simp_all del: map_of_eq_None_iff)
qed simp

definition respell :: "(string \<Rightarrow> string) \<Rightarrow> metadata \<Rightarrow> metadata" where
  "respell f m = map (\<lambda>(k, v). (f k, v)) m"

definition faithful_spelling :: "(string \<Rightarrow> string) \<Rightarrow> bool" where
  "faithful_spelling f \<longleftrightarrow> list_all (\<lambda>k. meta_name (f k) = k) metadataHeaderAllowlist"

abbreviation stored_pair :: "(string \<Rightarrow> string) \<Rightarrow> string \<times> string list \<Rightarrow> string \<times> string" where
  "stored_pair f \<equiv> \<lambda>(k, vs). (f k, json_Marshal vs)"

lemma filter_stored:
  assumes "wf_hdr h" and "faithful_spelling f"
  shows "filter (\<lambda>(n, _). meta_name n = c) (map (stored_pair f) (filter (\<lambda>(k, vs). allowed k) h)) =
    (case map_of h c of
       None \<Rightarrow> [] | Some vs \<Rightarrow> if allowed c then [(f c, json_Marshal vs)] else [])"
proof -
  let ?h = "filter (\<lambda>(k, vs). allowed k) h"
  have name: "(k, vs) \<in> set ?h \<Longrightarrow> meta_name (f k) = k" for k vs
    using assms by (force simp: wf_hdr_iff canonical_def allowed_def faithful_spelling_def list_all_iff)
  have "filter (\<lambda>(n, _). meta_name n = c) (map (stored_pair f) ?h) =
      map (stored_pair f) (filter (\<lambda>(k, _). meta_name (f k) = c) ?h)"
    by (simp add: filter_map comp_def case_prod_beta)
  also have "filter (\<lambda>(k, _). meta_name (f k) = c) ?h = filter (\<lambda>(k, _). k = c) ?h"
    using name by (intro filter_cong) auto
  also have "\<dots> = (case map_of ?h c of None \<Rightarrow> [] | Some v \<Rightarrow> [(c, v)])"
    using assms(1) by (intro filter_unique_key) (simp add: wf_hdr_def)
  also have "map_of ?h c = (case map_of h c of None \<Rightarrow> None | Some v \<Rightarrow> if allowed c then Some v else None)"
    using assms(1) by (subst map_of_filter_pred) (auto simp: wf_hdr_def split: option.splits)
  finally show ?thesis by (auto split: option.splits)
qed

lemma mset_short_eq: "mset xs = mset ys \<Longrightarrow> length ys \<le> 1 \<Longrightarrow> xs = ys"
  by (cases ys) auto

lemma metadata_roundtrip_Values:
  assumes h: "wf_hdr h" and f: "faithful_spelling f"
    and m: "headerToMetadata h = Inr m" and m': "mset m' = mset (respell f m)"
  shows "\<exists>h'. metadataToHeader m' = Inr h' \<and> wf_hdr h' \<and>
    (\<forall>k. hdr_Values h' k = (if allowed k then map utf8_repair (hdr_Values h k) else []))"
proof -
  let ?m0 = "map (stored_pair f) (filter (\<lambda>(k, vs). allowed k) h)"
  have m0: "respell f m = ?m0"
    using m h by (auto simp: headerToMetadata_eq wf_hdr_def respell_def case_prod_beta)
  with m' have set: "set m' = set ?m0" by (metis mset_eq_setD)
  then have "list_all (\<lambda>(k, v). json_Unmarshal v \<noteq> None) m'"
    by (auto simp: list_all_iff json_Unmarshal_Marshal)
  from metadataToHeader_loop_Values [OF this, of "[]"] obtain h' where
    h': "metadataToHeader m' = Inr h'" and
    vals: "hdr_Values h' k = concat (map (\<lambda>(_, v). the (json_Unmarshal v))
      (filter (\<lambda>(n, _). meta_name n = CanonicalHeaderKey k) m'))" for k
    by (auto simp: metadataToHeader_def)
  have "hdr_Values h' k = (if allowed k then map utf8_repair (hdr_Values h k) else [])" for k
  proof -
    let ?c = "CanonicalHeaderKey k" and ?P = "\<lambda>(n, _). meta_name n = CanonicalHeaderKey k"
    have "mset (filter ?P m') = mset (filter ?P ?m0)"
      using m' m0 by (metis mset_filter)
    moreover have m0_filter: "filter ?P ?m0 =
        (case map_of h ?c of None \<Rightarrow> [] | Some vs \<Rightarrow> if allowed ?c then [(f ?c, json_Marshal vs)] else [])"
      by (rule filter_stored [OF h f])
    ultimately have "filter ?P m' =
        (case map_of h ?c of None \<Rightarrow> [] | Some vs \<Rightarrow> if allowed ?c then [(f ?c, json_Marshal vs)] else [])"
      by (intro mset_short_eq) (auto simp: m0_filter simp del: mset_filter split: option.split)
    moreover have "allowed ?c = allowed k" by (simp add: allowed_def)
    ultimately show ?thesis
      unfolding vals hdr_Values_def [of h k] by (auto simp: json_Unmarshal_Marshal split: option.split)
  qed
  with h' metadataToHeader_wf show ?thesis by blast
qed

section \<open>Properties\<close>

text \<open>
  C11. Storing headers and reading them back. Whatever order S3 returns the metadata in and however
  it spells the names, as long as a spelling canonicalises back (lower case and the
  \<open>x-amz-meta-\<close> prefix do), reading succeeds and yields exactly the allowlisted headers with
  their values in order, each value with invalid UTF-8 replaced; everything else is dropped.
\<close>

theorem metadata_roundtrip:
  assumes "wf_hdr h" and "faithful_spelling f"
    and "headerToMetadata h = Inr m" and "mset m' = mset (respell f m)"
  shows "\<exists>h'. metadataToHeader m' = Inr h' \<and>
    (\<forall>k. hdr_Values h' k = (if allowed k then map utf8_repair (hdr_Values h k) else []))"
  using metadata_roundtrip_Values [OF assms] by blast

theorem metadata_roundtrip_witness:
  "\<exists>h'. metadataToHeader
      [(''x-amz-meta-vary'', json_Marshal [''Accept'']), (''x-amz-meta-etag'', json_Marshal [''v1''])] = Inr h' \<and>
    hdr_Values h' ''Etag'' = [''v1''] \<and> hdr_Values h' ''Set-Cookie'' = []"
proof -
  let ?h = "[(''Etag'', [''v1'']), (''Set-Cookie'', [''s'']), (''Vary'', [''Accept''])]"
  let ?f = "\<lambda>k. ''x-amz-meta-'' @ map ascii_lower k"
  have "wf_hdr ?h" and "faithful_spelling ?f"
    and "headerToMetadata ?h = Inr [(''Etag'', json_Marshal [''v1'']), (''Vary'', json_Marshal [''Accept''])]"
    by code_simp+
  moreover have "mset [(''x-amz-meta-vary'', json_Marshal [''Accept'']), (''x-amz-meta-etag'', json_Marshal [''v1''])] =
      mset (respell ?f [(''Etag'', json_Marshal [''v1'']), (''Vary'', json_Marshal [''Accept''])])"
    by (simp add: respell_def ascii_lower_def is_upper_def char_of_def bit_0 add_mset_commute)
  ultimately obtain h' where h': "metadataToHeader
      [(''x-amz-meta-vary'', json_Marshal [''Accept'']), (''x-amz-meta-etag'', json_Marshal [''v1''])] = Inr h'"
    and vals: "\<forall>k. hdr_Values h' k = (if allowed k then map utf8_repair (hdr_Values ?h k) else [])"
    using metadata_roundtrip by blast
  have "hdr_Values ?h ''Etag'' = [''v1'']" "allowed ''Etag''" "\<not> allowed ''Set-Cookie''" "utf8_repair ''v1'' = ''v1''"
    by code_simp+
  then have "hdr_Values h' ''Etag'' = [''v1''] \<and> hdr_Values h' ''Set-Cookie'' = []"
    using vals by (simp only: if_True if_False list.map not_False_eq_True)
  with h' show ?thesis by blast
qed

text \<open>
  Only valid text survives unchanged: for a stored header whose values are valid UTF-8 (every
  ASCII value is) the value read back is the value written, so validators reach upstream again byte
  for byte.
\<close>

theorem metadata_preserves_text:
  assumes "wf_hdr h" and "faithful_spelling f" and "headerToMetadata h = Inr m"
    and "metadataToHeader (respell f m) = Inr h'"
    and "allowed k" and "list_all valid_utf8 (hdr_Values h k)"
  shows "hdr_Values h' k = hdr_Values h k"
proof -
  have "map utf8_repair (hdr_Values h k) = hdr_Values h k"
    using assms(6) by (simp add: list_all_iff map_idI utf8_repair_valid)
  with metadata_roundtrip_Values [OF assms(1-3) refl] assms(4,5) show ?thesis by auto
qed

theorem metadata_preserves_text_witness:
  "hdr_Values [(''Etag'', [''abc''])] ''ETag'' = [''abc'']"
proof -
  have "hdr_Values [(''Etag'', [''abc''])] ''ETag'' = hdr_Values [(''Etag'', [''abc''])] ''ETag''"
    by (rule metadata_preserves_text [where f = "\<lambda>k. k" and m = "[(''Etag'', json_Marshal [''abc''])]"])
      code_simp+
  then show ?thesis by (simp add: hdr_Values_def)
qed

text \<open>
  The metadata written fits the allowlist: every key that is stored canonicalises to an
  allowlisted name, whatever upstream sent, and a header off the list leaves no trace.
\<close>

theorem metadata_allowlisted:
  assumes "headerToMetadata h = Inr m"
  shows "keys_of m \<subseteq> {k. CanonicalHeaderKey k \<in> set metadataHeaderAllowlist} \<inter> keys_of h"
proof -
  have "keys_of (headerToMetadata_loop m0 h) \<subseteq>
      keys_of m0 \<union> {k. CanonicalHeaderKey k \<in> set metadataHeaderAllowlist} \<inter> keys_of h" for m0
    by (induction m0 h rule: headerToMetadata_loop.induct) (auto simp: dom_update)
  from this [of "[]"] show ?thesis using assms by (auto simp: headerToMetadata_def)
qed

theorem metadata_allowlisted_witness:
  "''Set-Cookie'' \<notin> keys_of (headerToMetadata_loop [] [(''Etag'', [''a'']), (''Set-Cookie'', [''s''])])"
  using metadata_allowlisted [OF headerToMetadata_def, of "[(''Etag'', [''a'']), (''Set-Cookie'', [''s''])]"]
  by (auto simp: metadataHeaderAllowlist_def CanonicalHeaderKey_def)

end
