(* ===== verification/Fallback.thy ===== *)
theory Fallback
  imports GoErrors
begin

text \<open>The stale-content policy, \<open>src/fallback.go\<close>. A nil error is \<open>None\<close>.\<close>

record FallbackPolicy =
  OnConnectionError :: bool
  On5xx :: bool
  OnAnyError :: bool

definition isConnectionError :: "go_error \<Rightarrow> bool" where
  "isConnectionError err = as_net_error err"

definition ShouldFallback :: "FallbackPolicy \<Rightarrow> go_error option \<Rightarrow> int \<Rightarrow> bool" where
  "ShouldFallback p err statusCode =
     (if OnAnyError p \<and> (err \<noteq> None \<or> (statusCode \<noteq> 200 \<and> statusCode \<noteq> 304)) then True
      else if (case err of None \<Rightarrow> False | Some e \<Rightarrow> OnConnectionError p \<and> isConnectionError e) then True
      else if 500 \<le> statusCode \<and> statusCode < 600 \<and> On5xx p then True
      else False)"

text \<open>One policy permits at least what another does.\<close>

definition policy_le :: "FallbackPolicy \<Rightarrow> FallbackPolicy \<Rightarrow> bool" where
  "policy_le p q \<longleftrightarrow>
     (OnConnectionError p \<longrightarrow> OnConnectionError q) \<and> (On5xx p \<longrightarrow> On5xx q) \<and>
     (OnAnyError p \<longrightarrow> OnAnyError q)"

lemma ShouldFallback_mono: "policy_le p q \<Longrightarrow> ShouldFallback p e s \<Longrightarrow> ShouldFallback q e s"
  by (auto simp: ShouldFallback_def policy_le_def split: if_splits option.splits)

text \<open>The two calls of the program: a transport error with status 0, and a status with no error.\<close>

lemma ShouldFallback_error:
  "ShouldFallback p (Some e) 0 \<longleftrightarrow> OnAnyError p \<or> OnConnectionError p \<and> isConnectionError e"
  by (simp add: ShouldFallback_def)

lemma ShouldFallback_status:
  "ShouldFallback p None s \<longleftrightarrow>
     OnAnyError p \<and> s \<noteq> 200 \<and> s \<noteq> 304 \<or> On5xx p \<and> 500 \<le> s \<and> s < 600"
  by (auto simp: ShouldFallback_def)

end
