(* ===== verification/GoUrl.thy ===== *)
theory GoUrl
  imports GoStrings
begin

text \<open>
  Percent-encoding and the URL type of \<open>net/url\<close>, as far as the repository uses them: the
  four escaping modes, \<open>EscapedPath\<close> and \<open>String\<close> of a URL with scheme, host, path and
  query (no user, opaque part, fragment or \<open>RawPath\<close>: \<open>parseTargetURL\<close> sets none).
\<close>

section \<open>Escaping\<close>

datatype encoding = encodePath | encodePathSegment | encodeHost | encodeQueryComponent

definition unreserved :: "char \<Rightarrow> bool" where
  "unreserved c \<longleftrightarrow> is_lower c \<or> is_upper c \<or> is_digit c \<or> c \<in> set ''-_.~''"

definition shouldEscape :: "encoding \<Rightarrow> char \<Rightarrow> bool" where
  "shouldEscape mode c =
     (if unreserved c then False
      else if mode = encodeHost \<and> (c \<in> set ''!$&()*+,;=:[]<>'' \<or> c = CHR 0x27 \<or> c = DQUOTE) then False
      else if c \<in> set ''$&+,/:;=?@'' then
        (case mode of
           encodePath \<Rightarrow> c = CHR ''?''
         | encodePathSegment \<Rightarrow> c \<in> set ''/;,?''
         | encodeQueryComponent \<Rightarrow> True
         | encodeHost \<Rightarrow> True)
      else True)"

definition upperhex :: "nat \<Rightarrow> char" where
  "upperhex n = (if n < 10 then char_of (48 + n) else char_of (55 + n))"

definition percent :: "char \<Rightarrow> string" where
  "percent c = [CHR ''%'', upperhex (of_char c div 16), upperhex (of_char c mod 16)]"

definition escape_byte :: "encoding \<Rightarrow> char \<Rightarrow> string" where
  "escape_byte mode c =
     (if shouldEscape mode c
      then (if c = CHR '' '' \<and> mode = encodeQueryComponent then ''+'' else percent c)
      else [c])"

definition escape :: "encoding \<Rightarrow> string \<Rightarrow> string" where
  "escape mode s = concat (map (escape_byte mode) s)"

abbreviation PathEscape :: "string \<Rightarrow> string" where "PathEscape \<equiv> escape encodePathSegment"
abbreviation QueryEscape :: "string \<Rightarrow> string" where "QueryEscape \<equiv> escape encodeQueryComponent"

text \<open>
  Decoding, for well formed input: \<open>%XY\<close> is the byte, and with query-style decoding a plus is
  a blank.
\<close>

definition unhex :: "char \<Rightarrow> nat" where
  "unhex c = (if is_digit c then of_char c - 48 else if is_upper c then of_char c - 55 else of_char c - 87)"

fun unescape :: "bool \<Rightarrow> string \<Rightarrow> string" where
  "unescape query [] = []"
| "unescape query [c] = [if query \<and> c = CHR ''+'' then CHR '' '' else c]"
| "unescape query [c, d] = (if query \<and> c = CHR ''+'' then CHR '' '' else c) # unescape query [d]"
| "unescape query (c # h # l # cs) =
     (if c = CHR ''%'' then char_of (16 * unhex h + unhex l) # unescape query cs
      else (if query \<and> c = CHR ''+'' then CHR '' '' else c) # unescape query (h # l # cs))"

section \<open>The contract of a byte encoder\<close>

text \<open>
  What the cache-key grammar relies on: each byte becomes a code that decodes to it whatever
  follows, and one byte, the grammar's joiner, appears in no code.
\<close>

locale byte_encoder =
  fixes enc :: "char \<Rightarrow> string" and dec :: "string \<Rightarrow> string" and joiner :: char
  assumes dec_Nil: "dec [] = []"
    and dec_enc: "dec (enc c @ s) = c # dec s"
    and joiner_enc: "joiner \<notin> set (enc c)"
begin

lemma dec_encode: "dec (concat (map enc s)) = s"
  by (induction s) (simp_all add: dec_Nil dec_enc)

lemma encode_inject: "concat (map enc s) = concat (map enc t) \<longleftrightarrow> s = t"
  by (metis dec_encode)

lemma encode_Nil: "concat (map enc s) = [] \<longleftrightarrow> s = []"
  by (metis dec_encode dec_Nil list.simps(8) concat.simps(1))

lemma joiner_encode: "joiner \<notin> set (concat (map enc s))"
  using joiner_enc by auto

end

section \<open>The encoders satisfy it\<close>

lemma upperhex_val:
  assumes "n < 16"
  shows "unhex (upperhex n) = n" and "upperhex n \<noteq> CHR ''%''" and "is_digit (upperhex n) \<or> is_upper (upperhex n)"
proof -
  have "n \<in> set [0..<16]" using assms by simp
  moreover have "list_all (\<lambda>n. unhex (upperhex n) = n \<and> upperhex n \<noteq> CHR ''%'' \<and>
      (is_digit (upperhex n) \<or> is_upper (upperhex n))) [0..<16]"
    by code_simp
  ultimately show "unhex (upperhex n) = n" "upperhex n \<noteq> CHR ''%''"
    "is_digit (upperhex n) \<or> is_upper (upperhex n)"
    by (auto simp: list_all_iff)
qed

lemma of_char_256: "of_char c < (256::nat)"
  by (metis mod_less_divisor of_char_mod_256 zero_less_numeral)

lemma hex_digits: "of_char c div 16 < (16::nat)" "of_char c mod 16 < (16::nat)"
  using of_char_256 [of c] by (simp_all add: less_mult_imp_div_less)

lemma unescape_percent: "unescape query (percent c @ s) = c # unescape query s"
proof -
  have "16 * unhex (upperhex (of_char c div 16)) + unhex (upperhex (of_char c mod 16)) = of_char c"
    by (simp add: upperhex_val hex_digits)
  then show ?thesis by (simp add: percent_def)
qed

lemma unescape_plain:
  "c \<noteq> CHR ''%'' \<Longrightarrow> unescape query (c # s) = (if query \<and> c = CHR ''+'' then CHR '' '' else c) # unescape query s"
  by (cases s rule: list.exhaust; cases "tl s" rule: list.exhaust) auto

lemma set_percent: "d \<in> set (percent c) \<Longrightarrow> d = CHR ''%'' \<or> is_digit d \<or> is_upper d"
  using upperhex_val(3) [OF hex_digits(1) [of c]] upperhex_val(3) [OF hex_digits(2) [of c]]
  by (auto simp: percent_def)

lemma shouldEscape_percent [simp]: "shouldEscape mode CHR ''%''"
  by (induction mode; code_simp)

lemma shouldEscape_query: "\<not> shouldEscape encodeQueryComponent c \<longleftrightarrow> unreserved c"
  by (simp add: shouldEscape_def)

lemma unescape_escape_byte:
  "query \<longleftrightarrow> mode = encodeQueryComponent \<Longrightarrow>
   unescape query (escape_byte mode c @ s) = c # unescape query s"
proof (cases "shouldEscape mode c")
  case True
  then show "query \<longleftrightarrow> mode = encodeQueryComponent \<Longrightarrow> ?thesis"
    by (auto simp: escape_byte_def unescape_percent unescape_plain)
next
  case False
  then have "c \<noteq> CHR ''%''" by auto
  moreover have "mode = encodeQueryComponent \<Longrightarrow> c \<noteq> CHR ''+''"
    using False by (auto simp: shouldEscape_query) (auto simp: unreserved_def char_class_defs)
  ultimately show "query \<longleftrightarrow> mode = encodeQueryComponent \<Longrightarrow> ?thesis"
    using False by (simp add: escape_byte_def unescape_plain)
qed

lemma joiner_escape_byte:
  assumes "shouldEscape mode d" and "d \<noteq> CHR ''%''" and "d \<noteq> CHR ''+''" and "\<not> is_digit d" and "\<not> is_upper d"
  shows "d \<notin> set (escape_byte mode c)"
  using assms by (auto simp: escape_byte_def dest: set_percent split: if_splits)

lemma joiner_chars:
  "shouldEscape mode CHR ''?''" "\<not> is_digit CHR ''?''" "\<not> is_upper CHR ''?''"
  "\<not> is_digit CHR ''/''" "\<not> is_upper CHR ''/''"
  by (induction mode; code_simp) code_simp+

interpretation path_encoder: byte_encoder "escape_byte encodePath" "unescape False" "CHR ''?''"
  by unfold_locales (simp_all add: unescape_escape_byte joiner_escape_byte joiner_chars)

interpretation segment_encoder: byte_encoder "escape_byte encodePathSegment" "unescape False" "CHR ''?''"
  by unfold_locales (simp_all add: unescape_escape_byte joiner_escape_byte joiner_chars)

interpretation query_encoder: byte_encoder "escape_byte encodeQueryComponent" "unescape True" "CHR ''?''"
  by unfold_locales (simp_all add: unescape_escape_byte joiner_escape_byte joiner_chars)

interpretation host_encoder: byte_encoder "escape_byte encodeHost" "unescape False" "CHR ''?''"
  by unfold_locales (simp_all add: unescape_escape_byte joiner_escape_byte joiner_chars)

lemma escape_inject [simp]: "escape mode s = escape mode t \<longleftrightarrow> s = t"
  by (cases mode) (simp_all add: escape_def path_encoder.encode_inject segment_encoder.encode_inject
      query_encoder.encode_inject host_encoder.encode_inject)

lemma escape_Nil_iff [simp]: "escape mode s = [] \<longleftrightarrow> s = []"
  by (cases mode) (simp_all only: escape_def path_encoder.encode_Nil segment_encoder.encode_Nil
      query_encoder.encode_Nil host_encoder.encode_Nil)

lemma escape_question [simp]: "CHR ''?'' \<notin> set (escape mode s)"
  by (cases mode) (simp_all only: escape_def path_encoder.joiner_encode segment_encoder.joiner_encode
      query_encoder.joiner_encode host_encoder.joiner_encode not_False_eq_True)

lemma escape_slash: "shouldEscape mode CHR ''/'' \<Longrightarrow> CHR ''/'' \<notin> set (escape mode s)"
  using joiner_escape_byte [of mode "CHR ''/''"] by (auto simp: escape_def joiner_chars)

lemma escape_slash_host [simp]: "CHR ''/'' \<notin> set (escape encodeHost s)"
  and escape_slash_segment [simp]: "CHR ''/'' \<notin> set (escape encodePathSegment s)"
  by (rule escape_slash, code_simp)+

lemma escape_NUL: "CHR 0x00 \<notin> set (escape mode s)"
proof -
  have "shouldEscape mode CHR 0x00" "\<not> is_digit CHR 0x00" "\<not> is_upper CHR 0x00"
    by (induction mode; code_simp) code_simp+
  then show ?thesis using joiner_escape_byte [of mode "CHR 0x00"] by (auto simp: escape_def)
qed

section \<open>URLs\<close>

record URL =
  Scheme :: string
  Host :: string
  Path :: string
  RawQuery :: string

definition EscapedPath :: "URL \<Rightarrow> string" where
  "EscapedPath u = (if Path u = ''*'' then ''*'' else escape encodePath (Path u))"

definition URL_String :: "URL \<Rightarrow> string" where
  "URL_String u =
     (let scheme = (if Scheme u \<noteq> [] then Scheme u @ '':'' else []);
          slashes = (if (Scheme u \<noteq> [] \<or> Host u \<noteq> []) \<and> (Host u \<noteq> [] \<or> Path u \<noteq> []) then ''//'' else []);
          path = EscapedPath u;
          sep = (if path \<noteq> [] \<and> hd path \<noteq> CHR ''/'' \<and> Host u \<noteq> [] then ''/'' else [])
      in scheme @ slashes @ escape encodeHost (Host u) @ sep @ path @
         (if RawQuery u \<noteq> [] then CHR ''?'' # RawQuery u else []))"

text \<open>A path that starts at the root keeps its leading slash and has no other effect on the host.\<close>

definition rooted :: "string \<Rightarrow> bool" where
  "rooted p \<longleftrightarrow> p \<noteq> [] \<and> hd p = CHR ''/''"

lemma EscapedPath_rooted: "rooted (Path u) \<Longrightarrow> EscapedPath u = escape encodePath (Path u)"
  by (auto simp: EscapedPath_def rooted_def)

lemma escape_path_hd: "rooted p \<Longrightarrow> rooted (escape encodePath p)"
proof -
  have "escape_byte encodePath CHR ''/'' = ''/''" by code_simp
  then show "rooted p \<Longrightarrow> rooted (escape encodePath p)"
    by (cases p) (auto simp: rooted_def escape_def)
qed

lemma URL_String_https:
  "Scheme u = ''https'' \<Longrightarrow> rooted (Path u) \<Longrightarrow>
   URL_String u = ''https://'' @ escape encodeHost (Host u) @ escape encodePath (Path u) @
     (if RawQuery u \<noteq> [] then CHR ''?'' # RawQuery u else [])"
  using escape_path_hd [of "Path u"]
  by (auto simp: URL_String_def Let_def EscapedPath_rooted rooted_def)

end
