(* ===== verification/CacheKeys.thy ===== *)
theory CacheKeys
  imports GoUrl Header GoErrors
begin

text \<open>
  How a request becomes a cache key and a key becomes an object name: \<open>CacheKey\<close> of
  \<open>src/cache.go\<close>, \<open>parseTargetURL\<close>, \<open>acceptHeader\<close> and
  \<open>acceptVariantKeyFunc\<close> of \<open>src/server.go\<close>, \<open>s3PathFor\<close> and
  \<open>escapeCopySource\<close> of \<open>src/s3_cache.go\<close>.
\<close>

section \<open>Requests and keys\<close>

record Request =
  Method :: string
  ReqURL :: URL
  ReqHeader :: header

record CacheKey =
  KeyURL :: URL
  Variant :: string

definition CacheKey_String :: "CacheKey \<Rightarrow> string" where
  "CacheKey_String k =
     (let s = URL_String (KeyURL k)
      in if Variant k \<noteq> [] then s @ CHR 0x00 # Variant k else s)"

definition errInvalidPath :: go_error where
  "errInvalidPath = ErrPlain ''invalid path''"

definition parseTargetURL :: "string \<Rightarrow> string \<Rightarrow> go_error + URL" where
  "parseTargetURL path0 rawQuery =
     (let path = TrimPrefix path0 ''/'';
          invalid = Inl (Wrapf errInvalidPath ''invalid path %q'' [path])
      in case SplitN2 CHR ''/'' path of
           [host, rest] \<Rightarrow>
             if host = [] then invalid
             else Inr \<lparr>Scheme = ''https'', Host = host, Path = CHR ''/'' # rest, RawQuery = rawQuery\<rparr>
         | _ \<Rightarrow> invalid)"

definition acceptHeader :: "Request \<Rightarrow> string" where
  "acceptHeader r = Join '', '' (hdr_Values (ReqHeader r) ''Accept'')"

definition acceptVariantKeyFunc :: "URL \<Rightarrow> Request \<Rightarrow> CacheKey \<times> string list" where
  "acceptVariantKeyFunc target r =
     (let accept = acceptHeader r
      in if accept \<noteq> [] then (\<lparr>KeyURL = target, Variant = accept\<rparr>, [''Accept''])
         else (\<lparr>KeyURL = target, Variant = []\<rparr>, []))"

section \<open>Object names\<close>

definition s3PathFor :: "string \<Rightarrow> CacheKey \<Rightarrow> string" where
  "s3PathFor prefix key =
     (let u = KeyURL key;
          path = prefix @ ''/'' @ PathEscape (Host u) @ EscapedPath u;
          path = (if RawQuery u \<noteq> [] then path @ ''?'' @ QueryEscape (RawQuery u) else path)
      in if Variant key \<noteq> [] then path @ ''??'' @ PathEscape (Variant key) else path)"

definition copy_source_byte :: "char \<Rightarrow> string" where
  "copy_source_byte c =
     (if (CHR ''A'' \<le> c \<and> c \<le> CHR ''Z'') \<or> (CHR ''a'' \<le> c \<and> c \<le> CHR ''z'') \<or>
         (CHR ''0'' \<le> c \<and> c \<le> CHR ''9'') \<or>
         c = CHR ''-'' \<or> c = CHR ''.'' \<or> c = CHR ''_'' \<or> c = CHR ''~'' \<or> c = CHR ''/''
      then [c] else percent c)"

definition escapeCopySource :: "string \<Rightarrow> string" where
  "escapeCopySource s = concat (map copy_source_byte s)"

lemma copy_source_plus: "copy_source_byte CHR ''+'' = percent CHR ''+''"
  by code_simp

lemma copy_source_percent: "copy_source_byte CHR ''%'' = percent CHR ''%''"
  by code_simp

interpretation copy_source: byte_encoder copy_source_byte "unescape True" "CHR ''+''"
proof unfold_locales
  fix c s
  have "copy_source_byte c = [c] \<Longrightarrow> c \<noteq> CHR ''%'' \<and> c \<noteq> CHR ''+''"
    using copy_source_plus copy_source_percent by (auto simp: percent_def)
  moreover have "copy_source_byte c = [c] \<or> copy_source_byte c = percent c"
    by (simp add: copy_source_byte_def)
  ultimately show "unescape True (copy_source_byte c @ s) = c # unescape True s"
    by (auto simp: unescape_percent unescape_plain)
  show "CHR ''+'' \<notin> set (copy_source_byte c)"
    using copy_source_plus set_percent [of "CHR ''+''" c] \<open>copy_source_byte c = [c] \<or> copy_source_byte c = percent c\<close>
    by (auto simp: percent_def char_class_defs)
qed simp

section \<open>Reading a finished name back\<close>

text \<open>
  The part of a name after the path: nothing, \<open>?query\<close>, \<open>??variant\<close> or both. No
  encoder writes a raw question mark, so the shape tells the parts apart.
\<close>

definition key_tail :: "string \<Rightarrow> string \<Rightarrow> string" where
  "key_tail q v = (if q \<noteq> [] then ''?'' @ QueryEscape q else []) @
     (if v \<noteq> [] then ''??'' @ PathEscape v else [])"

lemma key_tail_hd: "key_tail q v = [] \<or> hd (key_tail q v) = CHR ''?''"
  by (simp add: key_tail_def)

lemma escape_hd_question: "s \<noteq> [] \<Longrightarrow> hd (escape mode s) \<noteq> CHR ''?''"
  by (metis escape_Nil_iff escape_question hd_in_set)

lemma variant_tail_eq:
  "(if v \<noteq> [] then ''??'' @ PathEscape v else []) = (if v' \<noteq> [] then ''??'' @ PathEscape v' else [])
   \<longleftrightarrow> v = v'"
  by auto

lemma key_tail_inject: "key_tail q v = key_tail q' v' \<longleftrightarrow> q = q' \<and> v = v'"
proof
  assume eq: "key_tail q v = key_tail q' v'"
  have empty_query: "key_tail [] w = key_tail r w' \<Longrightarrow> r = []" for r w w'
    using escape_hd_question [of r encodeQueryComponent]
    by (cases "escape encodeQueryComponent r") (auto simp: key_tail_def split: if_splits)
  show "q = q' \<and> v = v'"
  proof (cases "q = [] \<or> q' = []")
    case True
    then have "q = []" "q' = []" using eq empty_query by (metis)+
    with eq show ?thesis by (simp add: key_tail_def variant_tail_eq)
  next
    case False
    let ?w = "\<lambda>v. if v \<noteq> [] then ''??'' @ PathEscape v else []"
    from False eq have "QueryEscape q @ ?w v = QueryEscape q' @ ?w v'"
      by (simp add: key_tail_def)
    then have "QueryEscape q = QueryEscape q' \<and> ?w v = ?w v'"
      by (subst (asm) append_at_sep [where c = "CHR ''?''"]) auto
    then show ?thesis by (simp add: variant_tail_eq)
  qed
qed simp

lemma s3PathFor_eq:
  "rooted (Path (KeyURL k)) \<Longrightarrow>
   s3PathFor prefix k = prefix @ ''/'' @ PathEscape (Host (KeyURL k)) @
     escape encodePath (Path (KeyURL k)) @ key_tail (RawQuery (KeyURL k)) (Variant k)"
  by (simp add: s3PathFor_def Let_def key_tail_def EscapedPath_rooted)

lemma host_path_inject:
  assumes "rooted p" "rooted p'" and "mode = encodeHost \<or> mode = encodePathSegment"
    and "t = [] \<or> hd t = CHR ''?''" and "t' = [] \<or> hd t' = CHR ''?''"
  shows "escape mode h @ escape encodePath p @ t = escape mode h' @ escape encodePath p' @ t' \<longleftrightarrow>
    h = h' \<and> p = p' \<and> t = t'"
proof -
  have "escape mode h @ escape encodePath p @ t = escape mode h' @ escape encodePath p' @ t' \<longleftrightarrow>
      escape mode h @ escape encodePath p = escape mode h' @ escape encodePath p' \<and> t = t'"
    using append_at_sep [where c = "CHR ''?''", OF _ _ assms(4,5),
        of "escape mode h @ escape encodePath p" "escape mode h' @ escape encodePath p'"]
    by simp
  also have "escape mode h @ escape encodePath p = escape mode h' @ escape encodePath p' \<longleftrightarrow>
      escape mode h = escape mode h' \<and> escape encodePath p = escape encodePath p'"
    using assms(3) escape_path_hd [OF assms(1)] escape_path_hd [OF assms(2)]
    by (intro append_at_sep [where c = "CHR ''/''"]) (auto simp: rooted_def)
  finally show ?thesis by simp
qed

lemma s3PathFor_inject:
  assumes "rooted (Path (KeyURL k))" and "rooted (Path (KeyURL k'))"
  shows "s3PathFor prefix k = s3PathFor prefix k' \<longleftrightarrow>
    Host (KeyURL k) = Host (KeyURL k') \<and> Path (KeyURL k) = Path (KeyURL k') \<and>
    RawQuery (KeyURL k) = RawQuery (KeyURL k') \<and> Variant k = Variant k'"
  using host_path_inject [OF assms, of encodePathSegment, OF _ key_tail_hd key_tail_hd]
  by (auto simp: s3PathFor_eq assms key_tail_inject)

lemma URL_String_inject:
  assumes "Scheme u = ''https''" "Scheme u' = ''https''" "rooted (Path u)" "rooted (Path u')"
  shows "URL_String u = URL_String u' \<longleftrightarrow> u = u'"
proof -
  let ?q = "\<lambda>u. if RawQuery u \<noteq> [] then CHR ''?'' # RawQuery u else []"
  have "URL_String u = URL_String u' \<longleftrightarrow> Host u = Host u' \<and> Path u = Path u' \<and> ?q u = ?q u'"
    using host_path_inject [OF assms(3,4), of encodeHost "?q u" "?q u'"] assms
    by (simp add: URL_String_https)
  then show ?thesis using assms by (auto intro: URL.equality)
qed

lemma URL_String_NUL:
  assumes "Scheme u = ''https''" "rooted (Path u)" "CHR 0x00 \<notin> set (RawQuery u)"
  shows "CHR 0x00 \<notin> set (URL_String u)"
  using assms escape_NUL by (simp add: URL_String_https)

lemma CacheKey_String_inject:
  assumes "Scheme (KeyURL k) = ''https''" "Scheme (KeyURL k') = ''https''"
    and "rooted (Path (KeyURL k))" "rooted (Path (KeyURL k'))"
    and "CHR 0x00 \<notin> set (RawQuery (KeyURL k))" "CHR 0x00 \<notin> set (RawQuery (KeyURL k'))"
  shows "CacheKey_String k = CacheKey_String k' \<longleftrightarrow> k = k'"
proof -
  have split: "CacheKey_String k = URL_String (KeyURL k) @ (if Variant k \<noteq> [] then CHR 0x00 # Variant k else [])" for k
    by (simp add: CacheKey_String_def Let_def)
  have "CacheKey_String k = CacheKey_String k' \<longleftrightarrow> URL_String (KeyURL k) = URL_String (KeyURL k') \<and>
      (if Variant k \<noteq> [] then CHR 0x00 # Variant k else []) =
      (if Variant k' \<noteq> [] then CHR 0x00 # Variant k' else [])"
    unfolding split using assms URL_String_NUL by (intro append_at_sep [where c = "CHR 0x00"]) auto
  then show ?thesis using assms URL_String_inject by (auto intro: CacheKey.equality split: if_splits)
qed

lemma parseTargetURL_iff:
  "parseTargetURL path q = Inr u \<longleftrightarrow>
     Scheme u = ''https'' \<and> RawQuery u = q \<and> Host u \<noteq> [] \<and> CHR ''/'' \<notin> set (Host u) \<and>
     rooted (Path u) \<and> TrimPrefix path ''/'' = Host u @ Path u"
proof (cases "Cut CHR ''/'' (TrimPrefix path ''/'')")
  case (fields b a ok)
  show ?thesis
  proof (cases ok)
    case True
    with fields have s: "TrimPrefix path ''/'' = b @ CHR ''/'' # a" "CHR ''/'' \<notin> set b"
      by (auto dest: Cut_SomeD)
    have "CHR ''/'' \<notin> set (Host u) \<Longrightarrow> rooted (Path u) \<Longrightarrow>
        b @ CHR ''/'' # a = Host u @ Path u \<longleftrightarrow> b = Host u \<and> CHR ''/'' # a = Path u"
      using s(2) by (intro append_at_sep [where c = "CHR ''/''"]) (auto simp: rooted_def)
    with s fields True show ?thesis
      by (auto simp: parseTargetURL_def Let_def SplitN2_def rooted_def intro: URL.equality)
  next
    case False
    with fields have "CHR ''/'' \<notin> set (TrimPrefix path ''/'')" by (auto dest: Cut_NoneD)
    moreover have "rooted (Path u) \<Longrightarrow> CHR ''/'' \<in> set (Host u @ Path u)"
      by (cases "Path u") (auto simp: rooted_def)
    ultimately show ?thesis
      using fields False by (auto simp: parseTargetURL_def Let_def SplitN2_def)
  qed
qed

section \<open>Properties\<close>

text \<open>
  C9. The object grammar is injective: two keys with rooted paths - every key the server builds -
  name the same S3 object only if host, path, query and variant all agree, so no request can be
  answered with another resource's bytes.
\<close>

theorem s3PathFor_injective:
  assumes "rooted (Path (KeyURL k))" and "rooted (Path (KeyURL k'))"
    and "s3PathFor prefix k = s3PathFor prefix k'"
  shows "Host (KeyURL k) = Host (KeyURL k') \<and> Path (KeyURL k) = Path (KeyURL k') \<and>
    RawQuery (KeyURL k) = RawQuery (KeyURL k') \<and> Variant k = Variant k'"
  using assms s3PathFor_inject by blast

theorem s3PathFor_injective_witness:
  "s3PathFor ''cache'' \<lparr>KeyURL = \<lparr>Scheme = ''https'', Host = ''h'', Path = ''/a??gif'', RawQuery = []\<rparr>, Variant = []\<rparr> \<noteq>
   s3PathFor ''cache'' \<lparr>KeyURL = \<lparr>Scheme = ''https'', Host = ''h'', Path = ''/a'', RawQuery = []\<rparr>, Variant = ''gif''\<rparr>"
  using s3PathFor_injective [of "\<lparr>KeyURL = \<lparr>Scheme = ''https'', Host = ''h'', Path = ''/a??gif'', RawQuery = []\<rparr>, Variant = []\<rparr>"
      "\<lparr>KeyURL = \<lparr>Scheme = ''https'', Host = ''h'', Path = ''/a'', RawQuery = []\<rparr>, Variant = ''gif''\<rparr>" "''cache''"]
  by (auto simp: rooted_def)

text \<open>
  Coalescing follows storage: for keys built from parsed targets whose query has no NUL byte
  (the HTTP server refuses control bytes in a request URI) two requests share a singleflight group
  exactly when they name the same object.
\<close>

theorem flight_key_iff_object:
  assumes "parseTargetURL p q = Inr u" and "parseTargetURL p' q' = Inr u'"
    and "CHR 0x00 \<notin> set q" and "CHR 0x00 \<notin> set q'"
  shows "CacheKey_String \<lparr>KeyURL = u, Variant = v\<rparr> = CacheKey_String \<lparr>KeyURL = u', Variant = v'\<rparr> \<longleftrightarrow>
    s3PathFor prefix \<lparr>KeyURL = u, Variant = v\<rparr> = s3PathFor prefix \<lparr>KeyURL = u', Variant = v'\<rparr>"
proof -
  note u = assms(1) [unfolded parseTargetURL_iff] and u' = assms(2) [unfolded parseTargetURL_iff]
  have "u = u' \<longleftrightarrow> Host u = Host u' \<and> Path u = Path u' \<and> RawQuery u = RawQuery u'"
    using u u' by (auto intro: URL.equality)
  moreover have "CacheKey_String \<lparr>KeyURL = u, Variant = v\<rparr> = CacheKey_String \<lparr>KeyURL = u', Variant = v'\<rparr> \<longleftrightarrow>
      \<lparr>KeyURL = u, Variant = v\<rparr> = \<lparr>KeyURL = u', Variant = v'\<rparr>"
    using u u' assms(3,4) by (intro CacheKey_String_inject) auto
  ultimately show ?thesis
    using u u' s3PathFor_inject [of "\<lparr>KeyURL = u, Variant = v\<rparr>" "\<lparr>KeyURL = u', Variant = v'\<rparr>" prefix]
    by auto
qed

theorem flight_key_iff_object_witness:
  "CacheKey_String \<lparr>KeyURL = \<lparr>Scheme = ''https'', Host = ''h'', Path = ''/x'', RawQuery = ''a''\<rparr>, Variant = ''b''\<rparr> \<noteq>
   CacheKey_String \<lparr>KeyURL = \<lparr>Scheme = ''https'', Host = ''h'', Path = ''/x'', RawQuery = []\<rparr>, Variant = ''b''\<rparr>"
proof -
  have "parseTargetURL ''/h/x'' ''a'' = Inr \<lparr>Scheme = ''https'', Host = ''h'', Path = ''/x'', RawQuery = ''a''\<rparr>"
    and "parseTargetURL ''/h/x'' [] = Inr \<lparr>Scheme = ''https'', Host = ''h'', Path = ''/x'', RawQuery = []\<rparr>"
    by code_simp+
  from flight_key_iff_object [OF this, of "''b''" "''b''" "''cache''"]
  show ?thesis by (simp add: s3PathFor_inject rooted_def)
qed

text \<open>
  \<open>parseTargetURL\<close> succeeds exactly on paths of the form [/]host/rest with a nonempty
  host, and what it returns is an https URL whose host and rooted path concatenate back to the
  request path, with the query untouched: nothing is lost or invented.
\<close>

theorem parseTargetURL_characterised:
  "parseTargetURL path q = Inr u \<longleftrightarrow>
     Scheme u = ''https'' \<and> RawQuery u = q \<and> Host u \<noteq> [] \<and> CHR ''/'' \<notin> set (Host u) \<and>
     rooted (Path u) \<and> TrimPrefix path ''/'' = Host u @ Path u"
  by (rule parseTargetURL_iff)

text \<open>
  Variants never mix: two requests for the same URL get the same key exactly when their
  complete Accept sets are equal, the variant is the very Accept value that is forwarded upstream,
  and the key claims to encode Accept exactly when there is one.
\<close>

theorem accept_variants_never_mix:
  "(acceptVariantKeyFunc u r = acceptVariantKeyFunc u r') = (acceptHeader r = acceptHeader r') \<and>
   KeyURL (fst (acceptVariantKeyFunc u r)) = u \<and>
   Variant (fst (acceptVariantKeyFunc u r)) = acceptHeader r \<and>
   (snd (acceptVariantKeyFunc u r) = (if acceptHeader r = [] then [] else [''Accept'']))"
  by (auto simp: acceptVariantKeyFunc_def Let_def)

text \<open>
  The copy-source header survives S3's query-style decoding: decoding what
  \<open>escapeCopySource\<close> writes gives the bucket and key back, byte for byte - a plus sign
  included, which a plain path escape would turn into a blank - and its output has no plus.
\<close>

theorem escapeCopySource_roundtrip:
  "unescape True (escapeCopySource s) = s \<and> CHR ''+'' \<notin> set (escapeCopySource s)"
  by (simp only: escapeCopySource_def copy_source.dec_encode copy_source.joiner_encode not_False_eq_True simp_thms)

end
