(* ===== verification/GoUrlParse.thy ===== *)
theory GoUrlParse
  imports GoUrl GoErrors
begin

text \<open>
  \<open>url.Parse\<close> and \<open>http.NewRequestWithContext\<close>, the way a URL text becomes the URL
  that is fetched. \<open>ip6\<close> says which texts between brackets are IPv6 addresses
  (\<open>netip.ParseAddr\<close>) and stays an argument. The result of main interest is
  \<open>NewRequest_of_target\<close>: a target URL that is accepted is the URL that is requested.
\<close>

section \<open>Strict decoding\<close>

definition ishex :: "char \<Rightarrow> bool" where
  "ishex c \<longleftrightarrow> is_digit c \<or> (CHR ''a'' \<le> c \<and> c \<le> CHR ''f'') \<or> (CHR ''A'' \<le> c \<and> c \<le> CHR ''F'')"

datatype decoding = decPlain | decQuery | decHost | decZone

definition escape_ok :: "decoding \<Rightarrow> char \<Rightarrow> char \<Rightarrow> bool" where
  "escape_ok mode h l \<longleftrightarrow> ishex h \<and> ishex l \<and>
     (case mode of
        decHost \<Rightarrow> 8 \<le> unhex h \<or> (h = CHR ''2'' \<and> l = CHR ''5'')
      | decZone \<Rightarrow>
          (let v = char_of (16 * unhex h + unhex l) :: char
           in (h = CHR ''2'' \<and> l = CHR ''5'') \<or> v = CHR '' '' \<or> \<not> shouldEscape encodeHost v)
      | _ \<Rightarrow> True)"

definition plain_ok :: "decoding \<Rightarrow> char \<Rightarrow> bool" where
  "plain_ok mode c \<longleftrightarrow> (mode = decHost \<or> mode = decZone) \<longrightarrow> is_ascii c \<longrightarrow> \<not> shouldEscape encodeHost c"

fun escapes_ok :: "decoding \<Rightarrow> string \<Rightarrow> bool" where
  "escapes_ok mode [] = True"
| "escapes_ok mode [c] = (c \<noteq> CHR ''%'' \<and> plain_ok mode c)"
| "escapes_ok mode [c, d] = (c \<noteq> CHR ''%'' \<and> plain_ok mode c \<and> escapes_ok mode [d])"
| "escapes_ok mode (c # h # l # cs) =
     (if c = CHR ''%'' then escape_ok mode h l \<and> escapes_ok mode cs
      else plain_ok mode c \<and> escapes_ok mode (h # l # cs))"

definition url_unescape :: "decoding \<Rightarrow> string \<Rightarrow> string option" where
  "url_unescape mode s = (if escapes_ok mode s then Some (unescape (mode = decQuery) s) else None)"

section \<open>Parsing\<close>

record ParsedURL = URL +
  Opaque :: string
  User :: "(string \<times> string option) option"
  RawPath :: string
  ForceQuery :: bool
  OmitHost :: bool
  Fragment :: string
  RawFragment :: string

definition url_error :: "string \<Rightarrow> go_error + 'a" where
  "url_error msg = Inl (ErrPlain msg)"

fun scheme_scan :: "string \<Rightarrow> string \<Rightarrow> string \<Rightarrow> (string \<times> string) option" where
  "scheme_scan raw seen [] = Some ([], raw)"
| "scheme_scan raw seen (c # cs) =
     (if is_lower c \<or> is_upper c then scheme_scan raw (seen @ [c]) cs
      else if is_digit c \<or> c \<in> set ''+-.'' then
        (if seen = [] then Some ([], raw) else scheme_scan raw (seen @ [c]) cs)
      else if c = CHR '':'' then (if seen = [] then None else Some (seen, cs))
      else Some ([], raw))"

definition getScheme :: "string \<Rightarrow> (string \<times> string) option" where
  "getScheme raw = scheme_scan raw [] raw"

definition validOptionalPort :: "string \<Rightarrow> bool" where
  "validOptionalPort port \<longleftrightarrow> (case port of [] \<Rightarrow> True | c # cs \<Rightarrow> c = CHR '':'' \<and> list_all is_digit cs)"

text \<open>A bracketed host split before the first \<open>%25\<close>: the address and the zone.\<close>

fun split_zone :: "string \<Rightarrow> string \<times> string" where
  "split_zone [] = ([], [])"
| "split_zone (c # cs) =
     (if HasPrefix (c # cs) ''%25'' then ([], c # cs)
      else (case split_zone cs of (a, z) \<Rightarrow> (c # a, z)))"

definition parseHost :: "(string \<Rightarrow> bool) \<Rightarrow> string \<Rightarrow> go_error + string" where
  "parseHost ip6 host =
     (let open_at = LastIndex host ''['' in
      if 0 < open_at then url_error ''invalid IP-literal''
      else if open_at = 0 then
        (let close_at = LastIndex host '']'' in
         if close_at < 0 then url_error ''missing ] in host''
         else let colonPort = drop (nat close_at + 1) host;
                  hostname = take (nat close_at - 1) (drop 1 host)
              in if \<not> validOptionalPort colonPort then url_error ''invalid port after host''
                 else case split_zone hostname of (address, zone) \<Rightarrow>
                   (case url_unescape decHost address of
                      None \<Rightarrow> url_error ''invalid host''
                    | Some hostPart \<Rightarrow>
                        (case url_unescape decZone zone of
                           None \<Rightarrow> url_error ''invalid zone''
                         | Some zonePart \<Rightarrow>
                             if ip6 (hostPart @ zonePart)
                             then Inr (''['' @ (hostPart @ zonePart) @ '']'' @ colonPort)
                             else url_error ''invalid host'')))
      else if \<not> validOptionalPort (dropWhile (\<lambda>c. c \<noteq> CHR '':'') host)
      then url_error ''invalid port after host''
      else case url_unescape decHost host of
          None \<Rightarrow> url_error ''invalid host'' | Some h \<Rightarrow> Inr h)"

definition validUserinfo :: "string \<Rightarrow> bool" where
  "validUserinfo s \<longleftrightarrow>
     list_all (\<lambda>c. is_lower c \<or> is_upper c \<or> is_digit c \<or> c \<in> set ''-._:~!$&()*+,;=%@'' \<or> c = CHR 0x27) s"

definition parseUser :: "string \<Rightarrow> go_error + (string \<times> string option)" where
  "parseUser userinfo =
     (if \<not> validUserinfo userinfo then url_error ''net/url: invalid userinfo''
      else case Cut CHR '':'' userinfo of (u, p, found) \<Rightarrow>
        (case url_unescape decPlain u of
           None \<Rightarrow> url_error ''invalid escape''
         | Some username \<Rightarrow>
             if \<not> found then Inr (username, None)
             else (case url_unescape decPlain p of
                 None \<Rightarrow> url_error ''invalid escape''
               | Some password \<Rightarrow> Inr (username, Some password))))"

definition parseAuthority ::
    "(string \<Rightarrow> bool) \<Rightarrow> string \<Rightarrow> go_error + ((string \<times> string option) option \<times> string)" where
  "parseAuthority ip6 authority =
     (let i = LastIndex authority ''@'' in
      if i < 0 then (case parseHost ip6 authority of Inl e \<Rightarrow> Inl e | Inr h \<Rightarrow> Inr (None, h))
      else case parseHost ip6 (drop (nat i + 1) authority) of
          Inl e \<Rightarrow> Inl e
        | Inr h \<Rightarrow>
            (case parseUser (take (nat i) authority) of
               Inl e \<Rightarrow> Inl e | Inr u \<Rightarrow> Inr (Some u, h)))"

definition is_ctl :: "char \<Rightarrow> bool" where
  "is_ctl c \<longleftrightarrow> c < CHR '' '' \<or> c = CHR 0x7F"

definition blank_url :: ParsedURL where
  "blank_url = \<lparr>Scheme = [], Host = [], Path = [], RawQuery = [], Opaque = [], User = None,
     RawPath = [], ForceQuery = False, OmitHost = False, Fragment = [], RawFragment = []\<rparr>"

definition setPath :: "ParsedURL \<Rightarrow> string \<Rightarrow> go_error + ParsedURL" where
  "setPath u p =
     (case url_unescape decPlain p of
        None \<Rightarrow> url_error ''invalid escape''
      | Some path \<Rightarrow>
          Inr (u\<lparr>Path := path, RawPath := (if p = escape encodePath path then [] else p)\<rparr>))"

definition split_query :: "string \<Rightarrow> string \<times> string \<times> bool" where
  "split_query rest =
     (if HasSuffix rest ''?'' \<and> count_list rest CHR ''?'' = 1 then (butlast rest, [], True)
      else (case Cut CHR ''?'' rest of (p, q, _) \<Rightarrow> (p, q, False)))"

definition parse_rest ::
    "(string \<Rightarrow> bool) \<Rightarrow> string \<Rightarrow> string \<Rightarrow> string \<Rightarrow> bool \<Rightarrow> go_error + ParsedURL" where
  "parse_rest ip6 scheme rest query force =
     (let u = blank_url\<lparr>Scheme := scheme, RawQuery := query, ForceQuery := force\<rparr> in
      if \<not> HasPrefix rest ''/'' \<and> scheme \<noteq> [] then Inr (u\<lparr>Opaque := rest\<rparr>)
      else if \<not> HasPrefix rest ''/'' \<and> CHR '':'' \<in> set (fst (Cut CHR ''/'' rest))
      then url_error ''first path segment in URL cannot contain colon''
      else if (scheme \<noteq> [] \<or> \<not> HasPrefix rest ''///'') \<and> HasPrefix rest ''//'' then
        (case parseAuthority ip6 (takeWhile (\<lambda>c. c \<noteq> CHR ''/'') (drop 2 rest)) of
           Inl e \<Rightarrow> Inl e
         | Inr (user, host) \<Rightarrow>
             setPath (u\<lparr>User := user, Host := host\<rparr>) (dropWhile (\<lambda>c. c \<noteq> CHR ''/'') (drop 2 rest)))
      else setPath (u\<lparr>OmitHost := (scheme \<noteq> [] \<and> HasPrefix rest ''/'')\<rparr>) rest)"

definition parse_raw :: "(string \<Rightarrow> bool) \<Rightarrow> string \<Rightarrow> go_error + ParsedURL" where
  "parse_raw ip6 raw =
     (if list_ex is_ctl raw then url_error ''net/url: invalid control character in URL''
      else if raw = ''*'' then Inr (blank_url\<lparr>Path := ''*''\<rparr>)
      else case getScheme raw of
          None \<Rightarrow> url_error ''missing protocol scheme''
        | Some (scheme, rest) \<Rightarrow>
            (case split_query rest of (rest, query, force) \<Rightarrow>
               parse_rest ip6 (ToLower scheme) rest query force))"

definition shouldEscapeFragment :: "char \<Rightarrow> bool" where
  "shouldEscapeFragment c \<longleftrightarrow> \<not> unreserved c \<and> c \<notin> set ''$&+,/:;=?@'' \<and> c \<notin> set ''!()*''"

definition escapeFragment :: "string \<Rightarrow> string" where
  "escapeFragment s = concat (map (\<lambda>c. if shouldEscapeFragment c then percent c else [c]) s)"

definition url_Parse :: "(string \<Rightarrow> bool) \<Rightarrow> string \<Rightarrow> go_error + ParsedURL" where
  "url_Parse ip6 rawURL =
     (case Cut CHR ''#'' rawURL of (u, frag, _) \<Rightarrow>
        (case parse_raw ip6 u of
           Inl e \<Rightarrow> Inl (ErrURL ''parse'' u e)
         | Inr url \<Rightarrow>
             if frag = [] then Inr url
             else (case url_unescape decPlain frag of
                 None \<Rightarrow> Inl (ErrURL ''parse'' rawURL (ErrPlain ''invalid escape''))
               | Some f \<Rightarrow> Inr (url\<lparr>Fragment := f, RawFragment := (if frag = escapeFragment f then [] else frag)\<rparr>))))"

section \<open>Requests to upstream\<close>

definition removeEmptyPort :: "string \<Rightarrow> string" where
  "removeEmptyPort host =
     (if LastIndex host '']'' < LastIndex host '':'' \<and> HasSuffix host '':'' then butlast host else host)"

definition NewRequest_url :: "(string \<Rightarrow> bool) \<Rightarrow> string \<Rightarrow> go_error + ParsedURL" where
  "NewRequest_url ip6 s =
     (case url_Parse ip6 s of
        Inl e \<Rightarrow> Inl e
      | Inr u \<Rightarrow> Inr (u\<lparr>Host := removeEmptyPort (Host u)\<rparr>))"

section \<open>What parsing keeps\<close>

lemma escapes_ok_plain:
  "c \<noteq> CHR ''%'' \<Longrightarrow> escapes_ok mode (c # s) \<longleftrightarrow> plain_ok mode c \<and> escapes_ok mode s"
  by (cases s rule: list.exhaust; cases "tl s" rule: list.exhaust) auto

lemma unescape_append:
  "escapes_ok mode x \<Longrightarrow> unescape query (x @ y) = unescape query x @ unescape query y"
proof (induction mode x rule: escapes_ok.induct)
  case (2 mode c)
  then show ?case by (simp add: unescape_plain)
next
  case (3 mode c d)
  then show ?case by (simp add: unescape_plain)
next
  case (4 mode c h l cs)
  then show ?case
  proof (cases "c = CHR ''%''")
    case False
    with 4 have "unescape query ((h # l # cs) @ y) = unescape query (h # l # cs) @ unescape query y"
      by simp
    with False show ?thesis using unescape_plain [of c query "(h # l # cs) @ y"] by simp
  qed simp
qed simp

lemma url_unescape_SomeD:
  "url_unescape mode s = Some t \<Longrightarrow> escapes_ok mode s \<and> t = unescape (mode = decQuery) s"
  by (auto simp: url_unescape_def split: if_splits)

lemma unescape_port: "validOptionalPort p \<Longrightarrow> unescape query p = p"
proof -
  have digits: "list_all is_digit s \<Longrightarrow> unescape query s = s" for s
  proof (induction s)
    case (Cons c s)
    then have "c \<noteq> CHR ''%''" and "c \<noteq> CHR ''+''" by (auto simp: char_class_defs)
    with Cons show ?case by (simp add: unescape_plain)
  qed simp
  then show "validOptionalPort p \<Longrightarrow> ?thesis"
    by (auto simp: validOptionalPort_def unescape_plain split: list.splits)
qed

lemma split_zone_append: "split_zone s = (a, z) \<Longrightarrow> s = a @ z"
  by (induction s arbitrary: a) (auto split: if_splits prod.splits)

lemma LastIndex_prefix:
  assumes "0 \<le> LastIndex s sub"
  shows "HasPrefix (drop (nat (LastIndex s sub)) s) sub"
proof -
  obtain i js where "filter (\<lambda>i. HasPrefix (drop i s) sub) (rev [0..<Suc (length s)]) = i # js"
    and i: "LastIndex s sub = int i"
    using assms by (auto simp: LastIndex_def simp del: upt_Suc split: list.splits)
  then have "HasPrefix (drop i s) sub" by (metis filter_eq_ConsD)
  with i show ?thesis by simp
qed

lemma LastIndex_char:
  assumes "0 \<le> LastIndex s [c]"
  shows "nat (LastIndex s [c]) < length s \<and> s ! nat (LastIndex s [c]) = c"
proof -
  obtain t where t: "drop (nat (LastIndex s [c])) s = c # t"
    using LastIndex_prefix [OF assms] by (auto simp: HasPrefix_iff)
  then have "nat (LastIndex s [c]) < length s" by (metis drop_all list.distinct(1) not_le)
  with t show ?thesis by (simp add: nth_via_drop)
qed

lemma LastIndex_absent: "c \<notin> set s \<Longrightarrow> LastIndex s [c] = -1"
proof -
  assume "c \<notin> set s"
  then have "filter (\<lambda>i. HasPrefix (drop i s) [c]) (rev [0..<Suc (length s)]) = []"
    by (auto simp: filter_empty_conv HasPrefix_iff simp del: upt_Suc)
      (metis in_set_dropD list.set_intros(1))
  then show ?thesis by (simp add: LastIndex_def del: upt_Suc)
qed

lemma parseHost_sound: "parseHost ip6 host = Inr h \<Longrightarrow> h = unescape False host"
proof (cases "LastIndex host ''['' = 0")
  case True
  assume h: "parseHost ip6 host = Inr h"
  define k where "k = nat (LastIndex host '']'')"
  from h True have k0: "0 \<le> LastIndex host '']''"
    by (auto simp: parseHost_def Let_def url_error_def split: if_splits)
  from True LastIndex_char [of host "CHR ''[''"] have "host \<noteq> []" and hd: "host ! 0 = CHR ''[''"
    by auto
  from k0 LastIndex_char [of host "CHR '']''"] have kl: "k < length host" and nk: "host ! k = CHR '']''"
    by (auto simp: k_def)
  have "k \<noteq> 0"
  proof
    assume "k = 0"
    with nk hd show False by simp
  qed
  let ?n = "take (k - 1) (drop 1 host)" and ?p = "drop (k + 1) host"
  from \<open>host \<noteq> []\<close> hd obtain t where t: "host = CHR ''['' # t" by (cases host) auto
  have split: "host = ''['' @ ?n @ '']'' @ ?p"
  proof -
    have "take k host = CHR ''['' # ?n"
      using \<open>k \<noteq> 0\<close> by (cases k) (simp_all add: t)
    moreover have "host = take k host @ CHR '']'' # ?p"
      using id_take_nth_drop [OF kl] nk by (simp only: Suc_eq_plus1)
    ultimately show ?thesis by (metis append_Cons append_Nil)
  qed
  obtain a z where az: "split_zone ?n = (a, z)" by fastforce
  from h True k0 az obtain hp zp where port: "validOptionalPort ?p"
    and hp: "url_unescape decHost a = Some hp" and zp: "url_unescape decZone z = Some zp"
    and res: "h = ''['' @ (hp @ zp) @ '']'' @ ?p"
    by (auto simp: parseHost_def Let_def url_error_def k_def split: if_splits option.splits)
  have "unescape False host = CHR ''['' # unescape False (?n @ CHR '']'' # ?p)"
    by (subst split) (simp add: unescape_plain)
  also have "unescape False (?n @ CHR '']'' # ?p) = hp @ zp @ CHR '']'' # ?p"
    unfolding split_zone_append [OF az] using hp zp port
    by (auto simp: unescape_append unescape_plain unescape_port dest!: url_unescape_SomeD)
  finally show "h = unescape False host" using res by simp
next
  case False
  assume "parseHost ip6 host = Inr h"
  with False show "h = unescape False host"
    by (auto simp: parseHost_def Let_def url_error_def dest!: url_unescape_SomeD
        split: if_splits option.splits)
qed

lemma setPath_escaped:
  "setPath u (escape encodePath p) = Inr v \<Longrightarrow> v = u\<lparr>Path := p, RawPath := []\<rparr>"
  by (auto simp: setPath_def url_error_def escape_def path_encoder.dec_encode split: option.splits
      dest!: url_unescape_SomeD)

lemma escape_at: "CHR ''@'' \<notin> set (escape encodeHost s)"
  and escape_hash: "mode = encodeHost \<or> mode = encodePath \<Longrightarrow> CHR ''#'' \<notin> set (escape mode s)"
proof -
  have at: "shouldEscape encodeHost CHR ''@''" "\<not> is_digit CHR ''@''" "\<not> is_upper CHR ''@''" by code_simp+
  have hash: "shouldEscape encodeHost CHR ''#''" "shouldEscape encodePath CHR ''#''"
    "\<not> is_digit CHR ''#''" "\<not> is_upper CHR ''#''" by code_simp+
  show "CHR ''@'' \<notin> set (escape encodeHost s)"
    using joiner_escape_byte [of encodeHost "CHR ''@''"] at by (auto simp: escape_def)
  show "mode = encodeHost \<or> mode = encodePath \<Longrightarrow> CHR ''#'' \<notin> set (escape mode s)"
    using joiner_escape_byte [of mode "CHR ''#''"] hash by (auto simp: escape_def)
qed

lemma Cut_before: "sep \<notin> set x \<Longrightarrow> Cut sep (x @ y) = (x @ fst (Cut sep y), snd (Cut sep y))"
  by (induction x) (auto split: prod.splits)

lemma split_query_none: "CHR ''?'' \<notin> set x \<Longrightarrow> split_query x = (x, [], False)"
proof -
  assume x: "CHR ''?'' \<notin> set x"
  then have "\<not> HasSuffix x ''?''" by (auto dest!: HasSuffixD) (metis in_set_conv_decomp)
  with x show ?thesis by (simp add: split_query_def Cut_absent)
qed

lemma split_query_some:
  assumes x: "CHR ''?'' \<notin> set x"
  shows "split_query (x @ CHR ''?'' # q) = (x, q, q = [])"
proof (cases "q = []")
  case True
  with x show ?thesis by (simp add: split_query_def count_list_0_iff)
next
  case False
  have c: "count_list x CHR ''?'' = 0" using x by (simp add: count_list_0_iff)
  have "\<not> (HasSuffix (x @ CHR ''?'' # q) ''?'' \<and> count_list (x @ CHR ''?'' # q) CHR ''?'' = 1)"
  proof (clarify)
    assume "HasSuffix (x @ CHR ''?'' # q) ''?''"
    then have "last (x @ CHR ''?'' # q) = CHR ''?''" by (metis HasSuffixD last_snoc)
    then have "CHR ''?'' \<in> set q" using False by (metis last_ConsR last_appendR last_in_set list.distinct(1))
    moreover assume "count_list (x @ CHR ''?'' # q) CHR ''?'' = 1"
    ultimately show False using c by (simp add: count_list_0_iff)
  qed
  with False x show ?thesis by (auto simp: split_query_def Cut_found)
qed

text \<open>The text of a target URL, cut at a hash: the query loses what follows it.\<close>

definition before_hash :: "string \<Rightarrow> string" where
  "before_hash q = fst (Cut CHR ''#'' q)"

lemma target_prefix_hash:
  "CHR ''#'' \<notin> set (''https://'' @ escape encodeHost h @ escape encodePath p)"
  by (simp add: escape_hash)

lemma getScheme_https: "getScheme (''https:'' @ s) = Some (''https'', s)"
proof -
  have "list_all (\<lambda>c. is_lower c) ''https''" "\<not> is_lower CHR '':''" "\<not> is_upper CHR '':''" "\<not> is_digit CHR '':''"
    by code_simp+
  then show ?thesis by (simp add: getScheme_def)
qed

lemma before_hash_Nil [simp]: "before_hash [] = []"
  by (simp add: before_hash_def)

lemma Cut_target:
  assumes "Scheme u = ''https''" and "rooted (Path u)"
  shows "fst (Cut CHR ''#'' (URL_String u)) =
    ''https:'' @ ((''//'' @ escape encodeHost (Host u) @ escape encodePath (Path u)) @
      (if RawQuery u \<noteq> [] then CHR ''?'' # before_hash (RawQuery u) else []))"
proof -
  let ?pre = "''https://'' @ escape encodeHost (Host u) @ escape encodePath (Path u)"
  have "fst (Cut CHR ''#'' (?pre @ (if RawQuery u \<noteq> [] then CHR ''?'' # RawQuery u else []))) =
      ?pre @ (if RawQuery u \<noteq> [] then CHR ''?'' # before_hash (RawQuery u) else [])"
    by (subst Cut_before [OF target_prefix_hash]) (simp add: before_hash_def case_prod_beta)
  then show ?thesis using URL_String_https [OF assms] by simp
qed

lemma split_query_target:
  "split_query ((''//'' @ escape encodeHost h @ escape encodePath p) @
      (if q \<noteq> [] then CHR ''?'' # before_hash q else [])) =
   (''//'' @ escape encodeHost h @ escape encodePath p, before_hash q, q \<noteq> [] \<and> before_hash q = [])"
  by (cases "q = []") (simp_all only: split_query_none split_query_some escape_question set_append
      Un_iff list.simps if_True if_False before_hash_Nil append_Nil2 not_False_eq_True simp_thms
      set_simps insert_iff empty_iff char.inject)

lemma takeWhile_host:
  assumes "rooted p"
  shows "takeWhile (\<lambda>c. c \<noteq> CHR ''/'') (escape encodeHost h @ escape encodePath p) = escape encodeHost h"
    and "dropWhile (\<lambda>c. c \<noteq> CHR ''/'') (escape encodeHost h @ escape encodePath p) = escape encodePath p"
proof -
  obtain t where t: "escape encodePath p = CHR ''/'' # t"
    using escape_path_hd [OF assms] unfolding rooted_def by (metis list.collapse)
  have "takeWhile (\<lambda>c. c \<noteq> CHR ''/'') (escape encodeHost h @ CHR ''/'' # t) = escape encodeHost h"
    by (rule takeWhile_sep) simp
  moreover from this have "dropWhile (\<lambda>c. c \<noteq> CHR ''/'') (escape encodeHost h @ CHR ''/'' # t) = CHR ''/'' # t"
    by (metis append_same_eq same_append_eq takeWhile_dropWhile_id)
  ultimately show "takeWhile (\<lambda>c. c \<noteq> CHR ''/'') (escape encodeHost h @ escape encodePath p) = escape encodeHost h"
    and "dropWhile (\<lambda>c. c \<noteq> CHR ''/'') (escape encodeHost h @ escape encodePath p) = escape encodePath p"
    by (simp_all add: t)
qed

lemma parse_rest_target:
  assumes "rooted p"
    and "parse_rest ip6 ''https'' (''//'' @ escape encodeHost h @ escape encodePath p) query force = Inr r"
  shows "r = blank_url\<lparr>Scheme := ''https'', Host := h, Path := p, RawQuery := query, ForceQuery := force\<rparr>"
proof -
  have "HasPrefix (''//'' @ s) ''/''" "HasPrefix (''//'' @ s) ''//''" for s
    by (simp_all add: HasPrefix_def)
  with assms(2) have *: "(case parseAuthority ip6 (escape encodeHost h) of Inl e \<Rightarrow> Inl e
      | Inr (user, host) \<Rightarrow> setPath (blank_url\<lparr>Scheme := ''https'', RawQuery := query, ForceQuery := force,
          User := user, Host := host\<rparr>) (escape encodePath p)) = Inr r"
    by (simp add: parse_rest_def Let_def takeWhile_host [OF assms(1)] cong del: sum.case_cong_weak)
  have "LastIndex (escape encodeHost h) ''@'' = -1"
    by (rule LastIndex_absent [OF escape_at])
  with * obtain host where host: "parseHost ip6 (escape encodeHost h) = Inr host"
    and r: "setPath (blank_url\<lparr>Scheme := ''https'', RawQuery := query, ForceQuery := force,
          User := None, Host := host\<rparr>) (escape encodePath p) = Inr r"
    by (auto simp: parseAuthority_def Let_def split: sum.splits)
  have "host = h"
    using parseHost_sound [OF host] by (simp add: escape_def host_encoder.dec_encode)
  with setPath_escaped [OF r] show ?thesis by (simp add: blank_url_def)
qed

lemma parse_raw_https:
  assumes "parse_raw ip6 (''https:'' @ s) = Inr v"
  shows "(case split_query s of (rest, query, force) \<Rightarrow> parse_rest ip6 ''https'' rest query force) = Inr v"
proof -
  have "ToLower ''https'' = ''https''" by code_simp
  with assms getScheme_https [of s] show ?thesis
    by (simp add: parse_raw_def url_error_def del: ToLower.simps split: if_splits)
qed

text \<open>
  A target URL that is accepted is the one requested: same scheme, host and path, the query up to a
  hash, and nobody can smuggle in user information or an opaque part.
\<close>

lemma NewRequest_of_target:
  assumes "Scheme u = ''https''" and "rooted (Path u)"
    and "NewRequest_url ip6 (URL_String u) = Inr r"
  shows "Scheme r = ''https'' \<and> Host r = removeEmptyPort (Host u) \<and> Path r = Path u \<and>
    RawQuery r = before_hash (RawQuery u) \<and> User r = None \<and> Opaque r = [] \<and> RawPath r = []"
proof -
  let ?raw = "fst (Cut CHR ''#'' (URL_String u))"
  let ?force = "RawQuery u \<noteq> [] \<and> before_hash (RawQuery u) = []"
  from assms(3) obtain v where v: "parse_raw ip6 ?raw = Inr v"
    and r: "Scheme r = Scheme v \<and> Host r = removeEmptyPort (Host v) \<and> Path r = Path v \<and>
      RawQuery r = RawQuery v \<and> User r = User v \<and> Opaque r = Opaque v \<and> RawPath r = RawPath v"
    by (auto simp: NewRequest_url_def url_Parse_def blank_url_def split: sum.splits prod.splits option.splits if_splits)
  have "parse_rest ip6 ''https'' (''//'' @ escape encodeHost (Host u) @ escape encodePath (Path u))
      (before_hash (RawQuery u)) ?force = Inr v"
    using parse_raw_https [OF v [unfolded Cut_target [OF assms(1,2)]]]
    unfolding split_query_target prod.case .
  from parse_rest_target [OF assms(2) this] r show ?thesis by (simp add: blank_url_def)
qed

end
