(* ===== verification/Reqlog.thy ===== *)
theory Reqlog
  imports Header GoErrors
begin

text \<open>
  Request logging, \<open>src/internal/reqlog\<close>: structured attributes, the header allowlist, the
  context's logger, request identifiers, the status-capturing response writer and the middleware
  around the handler. A logger is its list of attributes; a log line is what one call emits.
\<close>

section \<open>Attributes and loggers\<close>

datatype attr =
    AStr string string
  | AInt string int
  | ADur string duration
  | AErr string go_error
  | AGroup string "(string \<times> string) list"

datatype log_level = LevelDebug | LevelInfo | LevelWarn | LevelError

type_synonym logger = "attr list"

record log_line =
  LogLevel :: log_level
  LogMsg :: string
  LogAttrs :: "attr list"

definition log_at :: "log_level \<Rightarrow> logger \<Rightarrow> string \<Rightarrow> attr list \<Rightarrow> log_line" where
  "log_at lvl logger msg attrs = \<lparr>LogLevel = lvl, LogMsg = msg, LogAttrs = logger @ attrs\<rparr>"

definition safeHeaders :: "string list" where
  "safeHeaders =
     [''Accept'', ''Accept-Encoding'', ''User-Agent'', ''Content-Type'', ''Content-Length'', ''Range'',
      ''If-Range'', ''If-None-Match'', ''If-Modified-Since'', ''Etag'', ''Last-Modified'', ''Location'']"

fun header_attrs_loop :: "header \<Rightarrow> string list \<Rightarrow> (string \<times> string) list" where
  "header_attrs_loop h [] = []"
| "header_attrs_loop h (name # names) =
     (let vals = hdr_Values h name
      in if 0 < length vals then (name, Join '', '' vals) # header_attrs_loop h names
         else header_attrs_loop h names)"

definition HeaderAttrs :: "string \<Rightarrow> header \<Rightarrow> attr" where
  "HeaderAttrs grp h = AGroup grp (header_attrs_loop h safeHeaders)"

lemma header_attrs_eq:
  "header_attrs_loop h names =
     map (\<lambda>n. (n, Join '', '' (hdr_Values h n))) (filter (\<lambda>n. hdr_Values h n \<noteq> []) names)"
  by (induction names) (auto simp: Let_def)

lemma HeaderAttrs_eq:
  "HeaderAttrs g h =
     AGroup g (map (\<lambda>n. (n, Join '', '' (hdr_Values h n))) (filter (\<lambda>n. hdr_Values h n \<noteq> []) safeHeaders))"
  by (simp add: HeaderAttrs_def header_attrs_eq)

text \<open>The context carries at most one logger; the default logger is the process's.\<close>

record request_context =
  ctx_logger :: "logger option"
  ctx_cancelled :: bool

definition WithLogger :: "request_context \<Rightarrow> logger \<Rightarrow> request_context" where
  "WithLogger ctx l = ctx\<lparr>ctx_logger := Some l\<rparr>"

definition FromContext :: "logger \<Rightarrow> request_context \<Rightarrow> logger" where
  "FromContext slog_default ctx = (case ctx_logger ctx of Some l \<Rightarrow> l | None \<Rightarrow> slog_default)"

definition WithoutCancel :: "request_context \<Rightarrow> request_context" where
  "WithoutCancel ctx = ctx\<lparr>ctx_cancelled := False\<rparr>"

lemma FromContext_simps [simp]:
  "FromContext d (WithLogger ctx l) = l"
  "FromContext d (WithoutCancel ctx) = FromContext d ctx"
  by (simp_all add: FromContext_def WithLogger_def WithoutCancel_def)

section \<open>Request identifiers\<close>

text \<open>\<open>hex.EncodeToString\<close> of the eight random bytes.\<close>

definition lowerhex :: "nat \<Rightarrow> char" where
  "lowerhex n = (if n < 10 then char_of (48 + n) else char_of (87 + n))"

definition hex_byte :: "8 word \<Rightarrow> string" where
  "hex_byte b = [lowerhex (unat b div 16), lowerhex (unat b mod 16)]"

definition EncodeToString :: "8 word list \<Rightarrow> string" where
  "EncodeToString bs = concat (map hex_byte bs)"

definition NewRequestID :: "8 word list \<Rightarrow> string" where
  "NewRequestID random = EncodeToString (take 8 random)"

definition is_hex :: "char \<Rightarrow> bool" where
  "is_hex c \<longleftrightarrow> is_digit c \<or> (CHR ''a'' \<le> c \<and> c \<le> CHR ''f'')"

definition lowerhex_value :: "char \<Rightarrow> nat" where
  "lowerhex_value c = (if is_digit c then of_char c - 48 else of_char c - 87)"

lemma lowerhex_table:
  assumes "n < (16::nat)"
  shows "is_hex (lowerhex n)" and "lowerhex_value (lowerhex n) = n"
proof -
  have "list_all (\<lambda>n. is_hex (lowerhex n) \<and> lowerhex_value (lowerhex n) = n) [0..<16]"
    by code_simp
  then show "is_hex (lowerhex n)" and "lowerhex_value (lowerhex n) = n"
    using assms by (simp_all only: list_all_iff atLeastLessThan_iff set_upt) auto
qed

lemma lowerhex_inject: "n < (16::nat) \<Longrightarrow> m < (16::nat) \<Longrightarrow> lowerhex n = lowerhex m \<longleftrightarrow> n = m"
  by (metis lowerhex_table(2))

lemma byte_halves: "unat (b :: 8 word) div 16 < 16" "unat b mod 16 < 16"
proof -
  have "unat b < 256" using unsigned_less [of b, where 'a = nat] by simp
  then show "unat b div 16 < 16" "unat b mod 16 < 16" by (simp_all add: less_mult_imp_div_less)
qed

lemma hex_byte_inject: "hex_byte a = hex_byte b \<longleftrightarrow> a = b"
proof
  assume "hex_byte a = hex_byte b"
  then have "unat a div 16 = unat b div 16" and "unat a mod 16 = unat b mod 16"
    by (simp_all add: hex_byte_def lowerhex_inject byte_halves)
  then have "unat a = unat b" by (metis div_mult_mod_eq)
  then show "a = b" by (simp add: unsigned_word_eqI)
qed simp

lemma EncodeToString_inject: "EncodeToString xs = EncodeToString ys \<longleftrightarrow> xs = ys"
proof (induction xs arbitrary: ys)
  case Nil
  show ?case by (cases ys) (auto simp: EncodeToString_def hex_byte_def)
next
  case (Cons x xs)
  have step: "EncodeToString (z # zs) = hex_byte z @ EncodeToString zs" for z zs
    by (simp add: EncodeToString_def)
  have len: "length (hex_byte z) = 2" for z by (simp add: hex_byte_def)
  show ?case
  proof (cases ys)
    case Nil
    then show ?thesis by (simp add: EncodeToString_def hex_byte_def)
  next
    case (Cons y ys')
    then show ?thesis
      using Cons.IH [of ys'] by (simp add: step append_eq_append_conv len hex_byte_inject)
  qed
qed

lemma EncodeToString_shape:
  "length (EncodeToString bs) = 2 * length bs \<and> list_all is_hex (EncodeToString bs)"
proof (induction bs)
  case (Cons b bs)
  have "is_hex (lowerhex (unat b div 16))" "is_hex (lowerhex (unat b mod 16))"
    by (simp_all add: lowerhex_table byte_halves)
  with Cons show ?case by (simp add: EncodeToString_def hex_byte_def)
qed (simp add: EncodeToString_def)

section \<open>Response writers\<close>

text \<open>
  \<open>net/http\<close>'s response: headers, the committed status (0 before it), the body written.
  \<open>None\<close> is a panic: \<open>WriteHeader\<close> refuses a code that is not three digits.
\<close>

record response_writer =
  WHeader :: header
  WCode :: int
  WBody :: string

definition new_writer :: response_writer where
  "new_writer = \<lparr>WHeader = [], WCode = 0, WBody = []\<rparr>"

definition rw_WriteHeader :: "response_writer \<Rightarrow> int \<Rightarrow> response_writer option" where
  "rw_WriteHeader w code =
     (if WCode w \<noteq> 0 then Some w
      else if code < 100 \<or> 999 < code then None
      else if code \<le> 199 \<and> code \<noteq> 101 then Some w
      else Some (w\<lparr>WCode := code\<rparr>))"

definition body_allowed :: "int \<Rightarrow> bool" where
  "body_allowed code \<longleftrightarrow> \<not> (100 \<le> code \<and> code \<le> 199) \<and> code \<noteq> 204 \<and> code \<noteq> 304"

definition rw_Write :: "response_writer \<Rightarrow> string \<Rightarrow> response_writer" where
  "rw_Write w b =
     (let w' = (if WCode w = 0 then w\<lparr>WCode := 200\<rparr> else w)
      in if body_allowed (WCode w') then w'\<lparr>WBody := WBody w' @ b\<rparr> else w')"

record statusWriter =
  ResponseWriter :: response_writer
  sw_status :: int

definition sw_WriteHeader :: "statusWriter \<Rightarrow> int \<Rightarrow> statusWriter option" where
  "sw_WriteHeader w code =
     (case rw_WriteHeader (ResponseWriter w) code of
        None \<Rightarrow> None
      | Some rw \<Rightarrow> Some (w\<lparr>sw_status := code, ResponseWriter := rw\<rparr>))"

definition sw_Write :: "statusWriter \<Rightarrow> string \<Rightarrow> statusWriter" where
  "sw_Write w b =
     (let w' = (if sw_status w = 0 then w\<lparr>sw_status := 200\<rparr> else w)
      in w'\<lparr>ResponseWriter := rw_Write (ResponseWriter w') b\<rparr>)"

definition sw_Unwrap :: "statusWriter \<Rightarrow> response_writer" where
  "sw_Unwrap w = ResponseWriter w"

definition sw_Header :: "(header \<Rightarrow> header) \<Rightarrow> statusWriter \<Rightarrow> statusWriter" where
  "sw_Header f w = w\<lparr>ResponseWriter := (ResponseWriter w)\<lparr>WHeader := f (WHeader (ResponseWriter w))\<rparr>\<rparr>"

text \<open>The captured status is the one on the wire, once one is committed.\<close>

definition sw_agrees :: "statusWriter \<Rightarrow> bool" where
  "sw_agrees w \<longleftrightarrow> WCode (ResponseWriter w) \<noteq> 0 \<longrightarrow> sw_status w = WCode (ResponseWriter w)"

lemma sw_Write_agrees: "sw_agrees w \<Longrightarrow> (WCode (ResponseWriter w) = 0 \<longrightarrow> sw_status w = 0) \<Longrightarrow> sw_agrees (sw_Write w b)"
  by (auto simp: sw_agrees_def sw_Write_def rw_Write_def Let_def)

lemma sw_WriteHeader_agrees:
  "WCode (ResponseWriter w) = 0 \<Longrightarrow> sw_WriteHeader w code = Some w' \<Longrightarrow> sw_agrees w'"
  by (auto simp: sw_agrees_def sw_WriteHeader_def rw_WriteHeader_def split: option.splits if_splits)

end
