(* ===== verification/Server.thy ===== *)
theory Server
  imports Fallback CacheKeys Merging GoUrlParse Reqlog "HOL-Library.State_Monad"
begin

text \<open>
  The caching handler, \<open>src/server.go\<close> and \<open>src/http_caching.go\<close>. What it talks to
  - the cache (\<open>httpCache\<close> of \<open>src/cache.go\<close>), the HTTP client, the clock - is a
  record of functions over a world \<open>'w\<close>; every call and every log line is also appended to a
  trace, so what a request did is a list that properties can quote. Errors are the left side of a sum.
\<close>

section \<open>The interfaces\<close>

record cachedEntry =
  Headers :: "header option"
  StoredAt :: time
  ObjectETag :: string
  Size :: int

text \<open>A body is what its reader yields and the error it ends in, if it does not end in EOF.\<close>

type_synonym reader = "string \<times> go_error option"

record Response =
  StatusCode :: int
  RespHeader :: header
  RespBody :: reader

record UpRequest =
  UpMethod :: string
  UpURL :: ParsedURL
  UpHeader :: header

record 'w httpCache =
  cacheHead :: "CacheKey \<Rightarrow> 'w \<Rightarrow> (go_error + cachedEntry option) \<times> 'w"
  cachePresign :: "CacheKey \<Rightarrow> 'w \<Rightarrow> (go_error + string) \<times> 'w"
  cachePut :: "CacheKey \<Rightarrow> header \<Rightarrow> reader \<Rightarrow> 'w \<Rightarrow> go_error option \<times> 'w"
  cacheTouch :: "CacheKey \<Rightarrow> cachedEntry \<Rightarrow> header \<Rightarrow> 'w \<Rightarrow> go_error option \<times> 'w"

record 'w cacheMiddleware =
  cache :: "'w httpCache"
  clientDo :: "UpRequest \<Rightarrow> 'w \<Rightarrow> (go_error + Response) \<times> 'w"
  timeNow :: "'w \<Rightarrow> time \<times> 'w"
  ip6 :: "string \<Rightarrow> bool"
  fallback :: FallbackPolicy
  honorFreshness :: bool
  freshnessCap :: duration

datatype event =
    EvHead CacheKey
  | EvPresign CacheKey
  | EvPut CacheKey header
  | EvTouch CacheKey cachedEntry header
  | EvDo UpRequest
  | EvNow time
  | EvLog log_line

record 'w sys =
  world :: 'w
  trace :: "event list"

definition perform :: "event \<Rightarrow> ('w \<Rightarrow> 'a \<times> 'w) \<Rightarrow> ('w sys, 'a) state" where
  "perform ev f =
     State (\<lambda>s. case f (world s) of (a, w) \<Rightarrow> (a, s\<lparr>world := w, trace := trace s @ [ev]\<rparr>))"

definition clock :: "'w cacheMiddleware \<Rightarrow> ('w sys, time) state" where
  "clock m =
     State (\<lambda>s. case timeNow m (world s) of (t, w) \<Rightarrow> (t, s\<lparr>world := w, trace := trace s @ [EvNow t]\<rparr>))"

definition emit :: "log_line \<Rightarrow> ('w sys, unit) state" where
  "emit l = State (\<lambda>s. ((), s\<lparr>trace := trace s @ [EvLog l]\<rparr>))"

abbreviation (input) skip :: "('w sys, unit) state" where
  "skip \<equiv> State_Monad.return ()"

section \<open>Reasoning about runs\<close>

text \<open>
  \<open>exec p w r es w'\<close>: run in the world \<open>w\<close>, \<open>p\<close> returns \<open>r\<close>, produces
  the events \<open>es\<close> and leaves \<open>w'\<close>. A program is framed when it only appends to the
  trace; all programs below are, so \<open>exec\<close> of a composition splits into its parts.
\<close>

definition exec :: "('w sys, 'a) state \<Rightarrow> 'w \<Rightarrow> 'a \<Rightarrow> event list \<Rightarrow> 'w \<Rightarrow> bool" where
  "exec p w r es w' \<longleftrightarrow> run_state p \<lparr>world = w, trace = []\<rparr> = (r, \<lparr>world = w', trace = es\<rparr>)"

definition framed :: "('w sys, 'a) state \<Rightarrow> bool" where
  "framed p \<longleftrightarrow> (\<forall>w t. run_state p \<lparr>world = w, trace = t\<rparr> =
     (case run_state p \<lparr>world = w, trace = []\<rparr> of
        (r, s) \<Rightarrow> (r, \<lparr>world = world s, trace = t @ trace s\<rparr>)))"

named_theorems framed \<open>programs that only append to the trace\<close>

lemma run_bind: "run_state (State_Monad.bind p f) s = (case run_state p s of (a, s') \<Rightarrow> run_state (f a) s')"
  by (simp add: State_Monad.bind_def)

lemma exec_total: "\<exists>r es w'. exec p w r es w'"
proof -
  obtain r s where "run_state p \<lparr>world = w, trace = []\<rparr> = (r, s)" by fastforce
  moreover have "s = \<lparr>world = world s, trace = trace s\<rparr>" by simp
  ultimately show ?thesis unfolding exec_def by metis
qed

lemma exec_det: "exec p w r es w' \<Longrightarrow> exec p w r1 es1 w1 \<Longrightarrow> r1 = r \<and> es1 = es \<and> w1 = w'"
  by (auto simp: exec_def)

lemma framed_run:
  "framed p \<Longrightarrow> run_state p \<lparr>world = w, trace = t\<rparr> = (r, s) \<longleftrightarrow>
    (\<exists>es w'. exec p w r es w' \<and> s = \<lparr>world = w', trace = t @ es\<rparr>)"
proof -
  assume "framed p"
  then have *: "run_state p \<lparr>world = w, trace = t\<rparr> =
     (case run_state p \<lparr>world = w, trace = []\<rparr> of (r, s) \<Rightarrow> (r, \<lparr>world = world s, trace = t @ trace s\<rparr>))"
    unfolding framed_def by blast
  obtain r0 w0 es0 where F: "run_state p \<lparr>world = w, trace = []\<rparr> = (r0, \<lparr>world = w0, trace = es0\<rparr>)"
    using exec_total [of p w] unfolding exec_def by blast
  show ?thesis unfolding * exec_def F by auto
qed

lemma exec_bind:
  "framed p \<Longrightarrow> (\<And>a. framed (f a)) \<Longrightarrow> exec (State_Monad.bind p f) w r es w'' \<longleftrightarrow>
    (\<exists>a es1 w' es2. exec p w a es1 w' \<and> exec (f a) w' r es2 w'' \<and> es = es1 @ es2)"
proof -
  assume p: "framed p" and f: "\<And>a. framed (f a)"
  obtain a es1 w1 where 1: "exec p w a es1 w1" using exec_total [of p w] by blast
  then have "run_state p \<lparr>world = w, trace = []\<rparr> = (a, \<lparr>world = w1, trace = es1\<rparr>)"
    by (simp add: exec_def)
  then have "exec (State_Monad.bind p f) w r es w'' \<longleftrightarrow> (\<exists>es2. exec (f a) w1 r es2 w'' \<and> es = es1 @ es2)"
    unfolding exec_def [of "State_Monad.bind p f"] by (auto simp: run_bind framed_run [OF f])
  with 1 show ?thesis by (metis exec_det)
qed

lemma exec_bindE:
  assumes "exec (State_Monad.bind p f) w r es w''" and "framed p" and "\<And>a. framed (f a)"
  obtains a es1 w' es2 where "exec p w a es1 w'" "exec (f a) w' r es2 w''" "es = es1 @ es2"
  using assms by (auto simp: exec_bind)

lemma exec_bindI:
  "exec p w a es w' \<Longrightarrow> exec (f a) w' r es' w'' \<Longrightarrow> framed p \<Longrightarrow> (\<And>a. framed (f a)) \<Longrightarrow>
   exec (State_Monad.bind p f) w r (es @ es') w''"
  by (auto simp: exec_bind)

lemma framed_bind [framed]: "framed p \<Longrightarrow> (\<And>a. framed (f a)) \<Longrightarrow> framed (State_Monad.bind p f)"
proof -
  assume p: "framed p" and f: "\<And>a. framed (f a)"
  show ?thesis
    unfolding framed_def
  proof (intro allI)
    fix w t
    obtain a es1 w1 where 1: "exec p w a es1 w1" using exec_total [of p w] by blast
    obtain b es2 w2 where 2: "exec (f a) w1 b es2 w2" using exec_total [of "f a" w1] by blast
    have "run_state (State_Monad.bind p f) \<lparr>world = w, trace = u\<rparr> = (b, \<lparr>world = w2, trace = u @ es1 @ es2\<rparr>)" for u
    proof -
      have "run_state p \<lparr>world = w, trace = u\<rparr> = (a, \<lparr>world = w1, trace = u @ es1\<rparr>)"
        using 1 framed_run [OF p] by blast
      moreover have "run_state (f a) \<lparr>world = w1, trace = u @ es1\<rparr> = (b, \<lparr>world = w2, trace = (u @ es1) @ es2\<rparr>)"
        using 2 framed_run [OF f] by blast
      ultimately show ?thesis by (simp add: run_bind)
    qed
    then show "run_state (State_Monad.bind p f) \<lparr>world = w, trace = t\<rparr> =
     (case run_state (State_Monad.bind p f) \<lparr>world = w, trace = []\<rparr> of
        (r, s) \<Rightarrow> (r, \<lparr>world = world s, trace = t @ trace s\<rparr>))"
      by simp
  qed
qed

lemma framed_prims [framed]:
  "framed (State_Monad.return a)" "framed (perform ev f)" "framed (clock m)" "framed (emit l)"
  by (simp_all add: framed_def State_Monad.return_def perform_def clock_def emit_def split: prod.split)

lemma framed_if [framed]: "(c \<Longrightarrow> framed p) \<Longrightarrow> (\<not> c \<Longrightarrow> framed q) \<Longrightarrow> framed (if c then p else q)"
  by simp

lemma framed_cases [framed]:
  "framed p \<Longrightarrow> (\<And>x. framed (f x)) \<Longrightarrow> framed (case v of None \<Rightarrow> p | Some x \<Rightarrow> f x)"
  "(\<And>x. framed (g x)) \<Longrightarrow> (\<And>x. framed (h x)) \<Longrightarrow> framed (case y of Inl x \<Rightarrow> g x | Inr x \<Rightarrow> h x)"
  "(\<And>x z. framed (k x z)) \<Longrightarrow> framed (case pr of (x, z) \<Rightarrow> k x z)"
  by (simp_all split: option.split sum.split prod.split)

lemma exec_if [simp]:
  "exec (if c then p else q) w r es w' \<longleftrightarrow> (if c then exec p w r es w' else exec q w r es w')"
  by simp

lemma exec_cases [simp]:
  "exec (case v of None \<Rightarrow> p | Some x \<Rightarrow> f x) w r es w' \<longleftrightarrow>
     (case v of None \<Rightarrow> exec p w r es w' | Some x \<Rightarrow> exec (f x) w r es w')"
  "exec (case y of Inl a \<Rightarrow> g a | Inr b \<Rightarrow> h b) w r es w' \<longleftrightarrow>
     (case y of Inl a \<Rightarrow> exec (g a) w r es w' | Inr b \<Rightarrow> exec (h b) w r es w')"
  "exec (case pr of (a, b) \<Rightarrow> k a b) w r es w' \<longleftrightarrow> (case pr of (a, b) \<Rightarrow> exec (k a b) w r es w')"
  by (simp_all split: option.split sum.split prod.split)

lemma exec_prims [simp]:
  "exec (State_Monad.return a) w r es w' \<longleftrightarrow> r = a \<and> es = [] \<and> w' = w"
  "exec (perform ev f) w r es w' \<longleftrightarrow> f w = (r, w') \<and> es = [ev]"
  "exec (emit l) w u es w' \<longleftrightarrow> es = [EvLog l] \<and> w' = w"
  "exec (clock m) w t es w' \<longleftrightarrow> timeNow m w = (t, w') \<and> es = [EvNow t]"
  by (auto simp: exec_def State_Monad.return_def perform_def clock_def emit_def split: prod.splits)

section \<open>Validators\<close>

definition etagStrongMatch :: "string \<Rightarrow> string \<Rightarrow> bool" where
  "etagStrongMatch cached resp =
     (if cached \<noteq> resp then False
      else 2 \<le> length cached \<and> HasPrefix cached [DQUOTE] \<and> HasSuffix cached [DQUOTE])"

definition upstreamUnchanged :: "Response \<Rightarrow> header option \<Rightarrow> (string \<times> bool)" where
  "upstreamUnchanged resp cachedHeaders =
     (if StatusCode resp = 304 \<and> cachedHeaders \<noteq> None then (''not modified'', True)
      else if StatusCode resp = 200 \<and>
        etagStrongMatch (hdr_Get (hdr_of cachedHeaders) ''ETag'') (hdr_Get (RespHeader resp) ''ETag'')
      then (''etag match on 200'', True)
      else ([], False))"

definition injectCacheHeadersIntoRequest :: "UpRequest \<Rightarrow> header \<Rightarrow> UpRequest" where
  "injectCacheHeadersIntoRequest req cachedHeaders =
     (let etag = hdr_Get cachedHeaders ''ETag'';
          req = (if etag \<noteq> [] \<and> hdr_Get (UpHeader req) ''ETag'' = []
                 then req\<lparr>UpHeader := hdr_Set (UpHeader req) ''If-None-Match'' etag\<rparr> else req);
          lastModified = hdr_Get cachedHeaders ''Last-Modified''
      in if lastModified \<noteq> [] \<and> hdr_Get (UpHeader req) ''Last-Modified'' = []
         then req\<lparr>UpHeader := hdr_Set (UpHeader req) ''If-Modified-Since'' lastModified\<rparr> else req)"

definition buildUpstreamRequest ::
    "(string \<Rightarrow> bool) \<Rightarrow> URL \<Rightarrow> string \<Rightarrow> header option \<Rightarrow> go_error + UpRequest" where
  "buildUpstreamRequest ip target accept cachedHeaders =
     (case NewRequest_url ip (URL_String target) of
        Inl err \<Rightarrow> Inl (Wrapf err ''create request for %s'' [URL_String target])
      | Inr u \<Rightarrow>
          let req = \<lparr>UpMethod = ''GET'', UpURL = u, UpHeader = []\<rparr>;
              req = (if accept \<noteq> [] then req\<lparr>UpHeader := hdr_Set (UpHeader req) ''Accept'' accept\<rparr> else req)
          in Inr (case cachedHeaders of None \<Rightarrow> req | Some h \<Rightarrow> injectCacheHeadersIntoRequest req h))"

section \<open>The steps\<close>

definition headEntry :: "'w cacheMiddleware \<Rightarrow> logger \<Rightarrow> CacheKey \<Rightarrow> ('w sys, cachedEntry option) state" where
  "headEntry m logger key = do {
     r \<leftarrow> perform (EvHead key) (cacheHead (cache m) key);
     (case r of
        Inl err \<Rightarrow> do {
          emit (log_at LevelWarn logger ''cache head error''
            [AStr ''target'' (URL_String (KeyURL key)), AErr ''error'' err]);
          State_Monad.return None }
      | Inr entry \<Rightarrow> State_Monad.return entry)
   }"

definition presign :: "'w cacheMiddleware \<Rightarrow> CacheKey \<Rightarrow> ('w sys, go_error + string) state" where
  "presign m key = do {
     r \<leftarrow> perform (EvPresign key) (cachePresign (cache m) key);
     State_Monad.return (case r of
        Inl err \<Rightarrow> Inl (Wrapf err ''presign %s'' [URL_String (KeyURL key)])
      | Inr u \<Rightarrow> Inr u)
   }"

definition evaluateFreshness ::
    "'w cacheMiddleware \<Rightarrow> cachedEntry option \<Rightarrow> string list \<Rightarrow> ('w sys, Decision option) state" where
  "evaluateFreshness m entry keyHeaders =
     (case entry of
        None \<Rightarrow> State_Monad.return None
      | Some e \<Rightarrow>
          if \<not> honorFreshness m then State_Monad.return None
          else do {
            now \<leftarrow> clock m;
            State_Monad.return (Some (Evaluate (hdr_of (Headers e)) (StoredAt e) now (freshnessCap m) keyHeaders))
          })"

definition maybeTouch ::
    "'w cacheMiddleware \<Rightarrow> logger \<Rightarrow> CacheKey \<Rightarrow> cachedEntry option \<Rightarrow> header \<Rightarrow> string list \<Rightarrow>
     ('w sys, unit) state" where
  "maybeTouch m logger key entry validating keyHeaders =
     (case entry of
        None \<Rightarrow> skip
      | Some e \<Rightarrow>
          if \<not> honorFreshness m then skip
          else let vet = hdr_Get validating ''ETag'' in
            if vet \<noteq> [] \<and> \<not> etagStrongMatch (hdr_Get (hdr_of (Headers e)) ''ETag'') vet then skip
            else let merged = Merge (Headers e) validating in do {
              now \<leftarrow> clock m;
              if \<not> Fresh (Evaluate merged now now (freshnessCap m) keyHeaders) then skip
              else do {
                r \<leftarrow> perform (EvTouch key e merged) (cacheTouch (cache m) key e merged);
                (case r of
                   None \<Rightarrow> skip
                 | Some err \<Rightarrow>
                     emit (log_at LevelWarn logger ''touch failed; entry keeps revalidating'' [AErr ''error'' err]))
              }
            })"

definition handleNon200 ::
    "'w cacheMiddleware \<Rightarrow> logger \<Rightarrow> CacheKey \<Rightarrow> int \<Rightarrow> bool \<Rightarrow> ('w sys, go_error + string) state" where
  "handleNon200 m logger key status conditionalFetch =
     (if conditionalFetch \<and> ShouldFallback (fallback m) None status then do {
        emit (log_at LevelWarn logger ''upstream response'' [AInt ''status'' status, AStr ''action'' ''stale'']);
        presign m key
      }
      else do {
        emit (log_at LevelInfo logger ''upstream response''
          [AInt ''status'' status, AStr ''action'' ''error'',
           AStr ''action_reason'' (if conditionalFetch then ''fallback policy denied'' else ''no cached content'')]);
        State_Monad.return (Inl (ErrUpstream status (URL_String (KeyURL key))))
      })"

section \<open>Fetching\<close>

text \<open>
  \<open>fetchAndCache\<close> in the three stretches its early returns cut it into: the response, the
  upstream request, the whole.
\<close>

definition handleResponse ::
    "'w cacheMiddleware \<Rightarrow> logger \<Rightarrow> CacheKey \<Rightarrow> cachedEntry option \<Rightarrow> string list \<Rightarrow> Response \<Rightarrow>
     ('w sys, go_error + string) state" where
  "handleResponse m logger key entry keyHeaders resp =
     (let cachedHeaders = Option.bind entry Headers;
          conditionalFetch = (entry \<noteq> None);
          logger = logger @ [HeaderAttrs ''upstream_response_headers'' (RespHeader resp)]
      in case upstreamUnchanged resp cachedHeaders of (reason, ok) \<Rightarrow>
        if ok then do {
          emit (log_at LevelInfo logger ''upstream response''
            [AInt ''status'' (StatusCode resp), AStr ''action'' ''revalidated'', AStr ''action_reason'' reason]);
          maybeTouch m logger key entry (RespHeader resp) keyHeaders;
          presign m key
        }
        else if StatusCode resp \<noteq> 200 then
          handleNon200 m logger key (StatusCode resp) conditionalFetch
        else do {
          err \<leftarrow> perform (EvPut key (RespHeader resp)) (cachePut (cache m) key (RespHeader resp) (RespBody resp));
          (case err of
             Some e \<Rightarrow> State_Monad.return (Inl (Wrapf e ''cache %s'' [URL_String (KeyURL key)]))
           | None \<Rightarrow> do {
               (if conditionalFetch
                then emit (log_at LevelInfo logger ''upstream response''
                  [AInt ''status'' (StatusCode resp), AStr ''action'' ''refreshed'',
                   AStr ''action_reason'' ''content modified''])
                else emit (log_at LevelInfo logger ''upstream response''
                  [AInt ''status'' (StatusCode resp), AStr ''action'' ''cached'']));
               presign m key
             })
        })"

definition fetchUpstream ::
    "'w cacheMiddleware \<Rightarrow> logger \<Rightarrow> CacheKey \<Rightarrow> cachedEntry option \<Rightarrow> string \<Rightarrow> string list \<Rightarrow>
     ('w sys, go_error + string) state" where
  "fetchUpstream m logger key entry accept keyHeaders =
     (let target = URL_String (KeyURL key);
          conditionalFetch = (entry \<noteq> None)
      in case buildUpstreamRequest (ip6 m) (KeyURL key) accept (Option.bind entry Headers) of
           Inl err \<Rightarrow> State_Monad.return (Inl err)
         | Inr req \<Rightarrow>
             let logger = logger @ [AStr ''target'' target,
                   AStr ''fetch'' (if conditionalFetch then ''conditional'' else ''first''),
                   HeaderAttrs ''upstream_request_headers'' (UpHeader req)]
             in do {
               emit (log_at LevelDebug logger ''fetching upstream'' []);
               r \<leftarrow> perform (EvDo req) (clientDo m req);
               (case r of
                  Inl err \<Rightarrow>
                    if conditionalFetch \<and> ShouldFallback (fallback m) (Some err) 0 then do {
                      emit (log_at LevelWarn logger ''upstream response''
                        [AInt ''status'' 0, AStr ''action'' ''stale'', AErr ''action_reason'' err]);
                      presign m key
                    }
                    else do {
                      emit (log_at LevelWarn logger ''upstream response''
                        [AInt ''status'' 0, AStr ''action'' ''error'', AErr ''action_reason'' err]);
                      State_Monad.return (Inl (Wrapf err ''fetch %s (no cache available)'' [target]))
                    }
                | Inr resp \<Rightarrow> handleResponse m logger key entry keyHeaders resp)
             })"

definition fetchAndCache ::
    "'w cacheMiddleware \<Rightarrow> logger \<Rightarrow> CacheKey \<Rightarrow> string \<Rightarrow> string list \<Rightarrow>
     ('w sys, go_error + string) state" where
  "fetchAndCache m logger key accept keyHeaders = do {
     entry \<leftarrow> headEntry m logger key;
     gate \<leftarrow> evaluateFreshness m entry keyHeaders;
     (case gate of
        None \<Rightarrow> fetchUpstream m logger key entry accept keyHeaders
      | Some decision \<Rightarrow>
          if Fresh decision then do {
            emit (log_at LevelInfo logger ''cache decision''
              [AStr ''target'' (URL_String (KeyURL key)), AStr ''action'' ''fresh'',
               AStr ''action_reason'' (reason_text (Reason decision)), ADur ''age'' (Age decision),
               ADur ''declared_lifetime'' (DeclaredLifetime decision), ADur ''resident'' (Resident decision)]);
            presign m key
          }
          else fetchUpstream m (logger @ [AStr ''freshness_reason'' (reason_text (Reason decision))])
                 key entry accept keyHeaders)
   }"

section \<open>Every step is framed\<close>

lemma framed_steps [framed]:
  "framed (headEntry m lg key)"
  "framed (presign m key)"
  "framed (evaluateFreshness m entry kh)"
  "framed (maybeTouch m lg key entry v kh)"
  "framed (handleNon200 m lg key status c)"
  unfolding headEntry_def presign_def evaluateFreshness_def maybeTouch_def handleNon200_def Let_def
  by (intro framed)+

lemma framed_handleResponse [framed]: "framed (handleResponse m lg key entry kh resp)"
  unfolding handleResponse_def Let_def by (intro framed)

lemma framed_fetchUpstream [framed]: "framed (fetchUpstream m lg key entry accept kh)"
  unfolding fetchUpstream_def Let_def by (intro framed)

lemma framed_fetchAndCache [framed]: "framed (fetchAndCache m lg key accept kh)"
  unfolding fetchAndCache_def by (intro framed)

section \<open>Serving a request\<close>

definition StatusTexts :: "(int \<times> string) list" where
  "StatusTexts =
     [(100, ''Continue''), (101, ''Switching Protocols''), (102, ''Processing''), (103, ''Early Hints''),
      (200, ''OK''), (201, ''Created''), (202, ''Accepted''), (203, ''Non-Authoritative Information''),
      (204, ''No Content''), (205, ''Reset Content''), (206, ''Partial Content''), (207, ''Multi-Status''),
      (208, ''Already Reported''), (226, ''IM Used''),
      (300, ''Multiple Choices''), (301, ''Moved Permanently''), (302, ''Found''), (303, ''See Other''),
      (304, ''Not Modified''), (305, ''Use Proxy''), (307, ''Temporary Redirect''), (308, ''Permanent Redirect''),
      (400, ''Bad Request''), (401, ''Unauthorized''), (402, ''Payment Required''), (403, ''Forbidden''),
      (404, ''Not Found''), (405, ''Method Not Allowed''), (406, ''Not Acceptable''),
      (407, ''Proxy Authentication Required''), (408, ''Request Timeout''), (409, ''Conflict''),
      (410, ''Gone''), (411, ''Length Required''), (412, ''Precondition Failed''),
      (413, ''Request Entity Too Large''), (414, ''Request URI Too Long''), (415, ''Unsupported Media Type''),
      (416, ''Requested Range Not Satisfiable''), (417, ''Expectation Failed''), (418, ''I'' @ [CHR 0x27] @ ''m a teapot''),
      (421, ''Misdirected Request''), (422, ''Unprocessable Entity''), (423, ''Locked''),
      (424, ''Failed Dependency''), (425, ''Too Early''), (426, ''Upgrade Required''),
      (428, ''Precondition Required''), (429, ''Too Many Requests''),
      (431, ''Request Header Fields Too Large''), (451, ''Unavailable For Legal Reasons''),
      (500, ''Internal Server Error''), (501, ''Not Implemented''), (502, ''Bad Gateway''),
      (503, ''Service Unavailable''), (504, ''Gateway Timeout''), (505, ''HTTP Version Not Supported''),
      (506, ''Variant Also Negotiates''), (507, ''Insufficient Storage''), (508, ''Loop Detected''),
      (510, ''Not Extended''), (511, ''Network Authentication Required'')]"

definition StatusText :: "int \<Rightarrow> string" where
  "StatusText code = (case map_of StatusTexts code of None \<Rightarrow> [] | Some t \<Rightarrow> t)"

text \<open>The last call on the response writer: \<open>WriteHeader\<close>, \<open>http.Error\<close>, \<open>http.Redirect\<close>.\<close>

datatype message = Text string | ErrorText string go_error

datatype reply =
    ReplyHeader int
  | ReplyError message int
  | ReplyRedirect string int

definition mirror_failure :: string where
  "mirror_failure = ''mirror-cache internal error, see X-Request-ID''"

text \<open>What the handler decides before the flight: a reply, or the key to fly under.\<close>

datatype admission = Rejected reply | Admitted CacheKey string "string list"

definition admit :: "Request \<Rightarrow> admission" where
  "admit r =
     (if Path (ReqURL r) = ''/health'' then Rejected (ReplyHeader 200)
      else if Method r \<noteq> ''GET'' then Rejected (ReplyError (Text ''Only GET requests are supported'') 405)
      else case parseTargetURL (Path (ReqURL r)) (RawQuery (ReqURL r)) of
          Inl err \<Rightarrow> Rejected (ReplyError (ErrorText ''Invalid request: '' err) 400)
        | Inr target \<Rightarrow>
            (case acceptVariantKeyFunc target r of (key, keyHeaders) \<Rightarrow>
               Admitted key (acceptHeader r) keyHeaders))"

definition respond :: "go_error + string \<Rightarrow> reply" where
  "respond result =
     (case result of
        Inl err \<Rightarrow>
          (case as_upstream err of
             Some (code, _) \<Rightarrow> ReplyError (Text (StatusText code)) code
           | None \<Rightarrow> ReplyError (Text mirror_failure) 502)
      | Inr presignedURL \<Rightarrow> ReplyRedirect presignedURL 303)"

text \<open>
  \<open>ServeHTTP\<close> for a request that leads its flight: \<open>slog\<close> is the process's logger,
  \<open>ctx\<close> the request's context. Followers are the subject of \<open>Flights\<close>.
\<close>

definition ServeHTTP :: "'w cacheMiddleware \<Rightarrow> logger \<Rightarrow> request_context \<Rightarrow> Request \<Rightarrow> ('w sys, reply) state" where
  "ServeHTTP m slog ctx r =
     (case admit r of
        Rejected reply \<Rightarrow> State_Monad.return reply
      | Admitted key accept keyHeaders \<Rightarrow> do {
          result \<leftarrow> fetchAndCache m (FromContext slog (WithoutCancel ctx)) key accept keyHeaders;
          (case result of
             Inl err \<Rightarrow>
               emit (log_at LevelError (FromContext slog ctx) ''failed to fetch and cache''
                 [AStr ''target'' (URL_String (KeyURL key)), AErr ''error'' err])
           | Inr u \<Rightarrow> skip);
          State_Monad.return (respond result)
        })"

section \<open>What each step does\<close>

text \<open>The calls in a trace, and the \<open>action\<close> attributes its log lines carry.\<close>

fun is_call :: "event \<Rightarrow> bool" where
  "is_call (EvLog l) = False"
| "is_call (EvNow t) = False"
| "is_call _ = True"

definition calls :: "event list \<Rightarrow> event list" where
  "calls es = filter is_call es"

fun action_attr :: "attr \<Rightarrow> string list" where
  "action_attr (AStr k v) = (if k = ''action'' then [v] else [])"
| "action_attr _ = []"

definition line_actions :: "attr list \<Rightarrow> string list" where
  "line_actions attrs = concat (map action_attr attrs)"

fun event_actions :: "event \<Rightarrow> string list" where
  "event_actions (EvLog l) = line_actions (LogAttrs l)"
| "event_actions _ = []"

definition actions :: "event list \<Rightarrow> string list" where
  "actions es = concat (map event_actions es)"

lemma calls_simps [simp]:
  "calls [] = []" "calls (e # es) = (if is_call e then e # calls es else calls es)"
  "calls (es @ es') = calls es @ calls es'"
  by (simp_all add: calls_def)

lemma actions_simps [simp]:
  "actions [] = []" "actions (e # es) = event_actions e @ actions es"
  "actions (es @ es') = actions es @ actions es'"
  by (simp_all add: actions_def)

lemma line_actions_simps [simp]:
  "line_actions [] = []" "line_actions (a # as) = action_attr a @ line_actions as"
  "line_actions (as @ as') = line_actions as @ line_actions as'"
  "LogAttrs (log_at lvl lg msg as) = lg @ as"
  "action_attr (HeaderAttrs g h) = []"
  by (simp_all add: line_actions_def log_at_def HeaderAttrs_def)

lemma calls_mem: "is_call e \<Longrightarrow> e \<in> set (calls es) \<longleftrightarrow> e \<in> set es"
  by (auto simp: calls_def)

lemma exec_headEntry:
  "exec (headEntry m lg key) w entry es w' \<Longrightarrow>
     calls es = [EvHead key] \<and> (line_actions lg = [] \<longrightarrow> actions es = []) \<and>
     snd (cacheHead (cache m) key w) = w' \<and>
     entry = (case fst (cacheHead (cache m) key w) of Inl _ \<Rightarrow> None | Inr e \<Rightarrow> e)"
  by (auto simp: headEntry_def exec_bind framed split: sum.splits)

lemma exec_presign:
  "exec (presign m key) w r es w' \<Longrightarrow>
     es = [EvPresign key] \<and> snd (cachePresign (cache m) key w) = w' \<and>
     r = (case fst (cachePresign (cache m) key w) of
            Inl err \<Rightarrow> Inl (Wrapf err ''presign %s'' [URL_String (KeyURL key)]) | Inr u \<Rightarrow> Inr u)"
  by (auto simp: presign_def exec_bind framed)

lemma exec_evaluateFreshness:
  "exec (evaluateFreshness m entry kh) w g es w' \<Longrightarrow>
     calls es = [] \<and> actions es = [] \<and>
     (if entry = None \<or> \<not> honorFreshness m then g = None \<and> es = [] \<and> w' = w
      else g = Some (Evaluate (hdr_of (Headers (the entry))) (StoredAt (the entry)) (fst (timeNow m w))
             (freshnessCap m) kh) \<and> w' = snd (timeNow m w))"
  by (auto simp: evaluateFreshness_def exec_bind framed split: option.splits if_splits)

definition touchable :: "'w cacheMiddleware \<Rightarrow> cachedEntry \<Rightarrow> header \<Rightarrow> string list \<Rightarrow> time \<Rightarrow> bool" where
  "touchable m e validating kh t \<longleftrightarrow> honorFreshness m \<and>
     (let vet = hdr_Get validating ''ETag'' in vet = [] \<or> etagStrongMatch (hdr_Get (hdr_of (Headers e)) ''ETag'') vet) \<and>
     Fresh (Evaluate (Merge (Headers e) validating) t t (freshnessCap m) kh)"

lemma exec_maybeTouch:
  "exec (maybeTouch m lg key entry v kh) w u es w' \<Longrightarrow>
     (line_actions lg = [] \<longrightarrow> actions es = []) \<and> (\<forall>l. EvLog l \<in> set es \<longrightarrow> LogLevel l = LevelWarn) \<and>
     (calls es = [] \<or>
      (\<exists>e. entry = Some e \<and> calls es = [EvTouch key e (Merge (Headers e) v)] \<and>
         touchable m e v kh (fst (timeNow m w))))"
  by (auto simp: maybeTouch_def exec_bind framed Let_def touchable_def log_at_def line_actions_def
      split: option.splits if_splits)

lemma exec_handleNon200:
  "exec (handleNon200 m lg key status c) w r es w' \<Longrightarrow>
     (line_actions lg = [] \<longrightarrow> length (actions es) = 1) \<and>
     (if c \<and> ShouldFallback (fallback m) None status then calls es = [EvPresign key] \<and>
        actions es = line_actions lg @ [''stale'']
      else es \<noteq> [] \<and> calls es = [] \<and> r = Inl (ErrUpstream status (URL_String (KeyURL key))))"
  by (auto simp: handleNon200_def exec_bind framed dest!: exec_presign split: if_splits)

section \<open>The policy\<close>

text \<open>
  What a fetch should do, as one decision over what the cache, the gate and upstream say, with the
  calls and the logged action each verdict stands for.
\<close>

datatype aftermath =
    Stale
  | Refused
  | Revalidated "(cachedEntry \<times> header) option"
  | Stored header
  | StoreFailed header

datatype verdict = ServeFresh | Unbuildable | Fetched UpRequest aftermath

fun aftermath_calls :: "CacheKey \<Rightarrow> aftermath \<Rightarrow> event list" where
  "aftermath_calls key Stale = [EvPresign key]"
| "aftermath_calls key Refused = []"
| "aftermath_calls key (Revalidated None) = [EvPresign key]"
| "aftermath_calls key (Revalidated (Some (e, h))) = [EvTouch key e h, EvPresign key]"
| "aftermath_calls key (Stored h) = [EvPut key h, EvPresign key]"
| "aftermath_calls key (StoreFailed h) = [EvPut key h]"

fun verdict_calls :: "CacheKey \<Rightarrow> verdict \<Rightarrow> event list" where
  "verdict_calls key ServeFresh = [EvHead key, EvPresign key]"
| "verdict_calls key Unbuildable = [EvHead key]"
| "verdict_calls key (Fetched req a) = EvHead key # EvDo req # aftermath_calls key a"

fun verdict_actions :: "bool \<Rightarrow> verdict \<Rightarrow> string list" where
  "verdict_actions cached ServeFresh = [''fresh'']"
| "verdict_actions cached Unbuildable = []"
| "verdict_actions cached (Fetched req Stale) = [''stale'']"
| "verdict_actions cached (Fetched req Refused) = [''error'']"
| "verdict_actions cached (Fetched req (Revalidated t)) = [''revalidated'']"
| "verdict_actions cached (Fetched req (Stored h)) = [if cached then ''refreshed'' else ''cached'']"
| "verdict_actions cached (Fetched req (StoreFailed h)) = []"

definition seen_entry :: "'w cacheMiddleware \<Rightarrow> CacheKey \<Rightarrow> 'w \<Rightarrow> cachedEntry option" where
  "seen_entry m key w = (case fst (cacheHead (cache m) key w) of Inl _ \<Rightarrow> None | Inr e \<Rightarrow> e)"

definition gate_runs :: "'w cacheMiddleware \<Rightarrow> CacheKey \<Rightarrow> 'w \<Rightarrow> bool" where
  "gate_runs m key w \<longleftrightarrow> honorFreshness m \<and> seen_entry m key w \<noteq> None"

definition fresh_hit :: "'w cacheMiddleware \<Rightarrow> CacheKey \<Rightarrow> string list \<Rightarrow> 'w \<Rightarrow> bool" where
  "fresh_hit m key kh w \<longleftrightarrow> honorFreshness m \<and>
     (case seen_entry m key w of
        None \<Rightarrow> False
      | Some e \<Rightarrow> Fresh (Evaluate (hdr_of (Headers e)) (StoredAt e)
            (fst (timeNow m (snd (cacheHead (cache m) key w)))) (freshnessCap m) kh))"

definition fetch_world :: "'w cacheMiddleware \<Rightarrow> CacheKey \<Rightarrow> 'w \<Rightarrow> 'w" where
  "fetch_world m key w =
     (let w1 = snd (cacheHead (cache m) key w) in if gate_runs m key w then snd (timeNow m w1) else w1)"

definition fetch_request :: "'w cacheMiddleware \<Rightarrow> CacheKey \<Rightarrow> string \<Rightarrow> 'w \<Rightarrow> go_error + UpRequest" where
  "fetch_request m key accept w =
     buildUpstreamRequest (ip6 m) (KeyURL key) accept (Option.bind (seen_entry m key w) Headers)"

definition aftermath_of ::
    "'w cacheMiddleware \<Rightarrow> CacheKey \<Rightarrow> string list \<Rightarrow> cachedEntry option \<Rightarrow> (go_error + Response) \<Rightarrow> 'w \<Rightarrow> aftermath" where
  "aftermath_of m key kh entry answer w =
     (case answer of
        Inl err \<Rightarrow> if entry \<noteq> None \<and> ShouldFallback (fallback m) (Some err) 0 then Stale else Refused
      | Inr resp \<Rightarrow>
          if snd (upstreamUnchanged resp (Option.bind entry Headers)) then
            Revalidated (case entry of
                None \<Rightarrow> None
              | Some e \<Rightarrow> if touchable m e (RespHeader resp) kh (fst (timeNow m w))
                  then Some (e, Merge (Headers e) (RespHeader resp)) else None)
          else if StatusCode resp \<noteq> 200 then
            (if entry \<noteq> None \<and> ShouldFallback (fallback m) None (StatusCode resp) then Stale else Refused)
          else if fst (cachePut (cache m) key (RespHeader resp) (RespBody resp) w) = None
          then Stored (RespHeader resp) else StoreFailed (RespHeader resp))"

definition verdict_of :: "'w cacheMiddleware \<Rightarrow> CacheKey \<Rightarrow> string \<Rightarrow> string list \<Rightarrow> 'w \<Rightarrow> verdict" where
  "verdict_of m key accept kh w =
     (if fresh_hit m key kh w then ServeFresh
      else case fetch_request m key accept w of
          Inl _ \<Rightarrow> Unbuildable
        | Inr req \<Rightarrow>
            (case clientDo m req (fetch_world m key w) of (answer, w') \<Rightarrow>
               Fetched req (aftermath_of m key kh (seen_entry m key w) answer w')))"

lemma upstreamUnchanged_entry:
  "snd (upstreamUnchanged resp (Option.bind entry Headers)) \<Longrightarrow> entry \<noteq> None"
  by (cases entry) (auto simp: upstreamUnchanged_def etagStrongMatch_def HasPrefix_def split: if_splits)

lemma exec_maybeTouch_calls:
  "exec (maybeTouch m lg key entry v kh) w u es w' \<Longrightarrow>
     calls es = (case entry of None \<Rightarrow> []
       | Some e \<Rightarrow> if touchable m e v kh (fst (timeNow m w)) then [EvTouch key e (Merge (Headers e) v)] else []) \<and>
     (line_actions lg = [] \<longrightarrow> actions es = [])"
  by (auto simp: maybeTouch_def exec_bind framed Let_def touchable_def split: option.splits if_splits)

lemma exec_handleResponse:
  assumes "exec (handleResponse m lg key entry kh resp) w r es w'" and "line_actions lg = []"
  shows "calls es = aftermath_calls key (aftermath_of m key kh entry (Inr resp) w) \<and>
    actions es = verdict_actions (entry \<noteq> None) (Fetched req (aftermath_of m key kh entry (Inr resp) w)) \<and>
    (aftermath_of m key kh entry (Inr resp) w = Refused \<longrightarrow> r = Inl (ErrUpstream (StatusCode resp) (URL_String (KeyURL key)))) \<and>
    (\<forall>h. aftermath_of m key kh entry (Inr resp) w = StoreFailed h \<longrightarrow>
       (\<exists>e. r = Inl (Wrapf e ''cache %s'' [URL_String (KeyURL key)])))"
proof (cases "snd (upstreamUnchanged resp (Option.bind entry Headers))")
  case True
  with assms show ?thesis
    using upstreamUnchanged_entry [OF True]
    by (auto simp: handleResponse_def aftermath_of_def exec_bind framed Let_def
        split: prod.splits dest!: exec_maybeTouch_calls exec_presign)
next
  case False
  then obtain reason where *: "upstreamUnchanged resp (Option.bind entry Headers) = (reason, False)"
    by (metis prod.collapse)
  show ?thesis
  proof (cases "StatusCode resp = 200")
    case True
    with assms * show ?thesis
      by (cases entry) (auto simp: handleResponse_def aftermath_of_def exec_bind framed Let_def
          split: option.splits dest!: exec_presign)
  next
    case False
    with assms * show ?thesis
      by (auto simp: handleResponse_def aftermath_of_def handleNon200_def exec_bind framed Let_def
          split: if_splits dest!: exec_presign)
  qed
qed

text \<open>What a run that reaches upstream returns when nothing may be served.\<close>

definition refusal :: "CacheKey \<Rightarrow> (go_error + Response) \<Rightarrow> go_error" where
  "refusal key answer =
     (case answer of
        Inl err \<Rightarrow> Wrapf err ''fetch %s (no cache available)'' [URL_String (KeyURL key)]
      | Inr resp \<Rightarrow> ErrUpstream (StatusCode resp) (URL_String (KeyURL key)))"

lemma exec_fetchUpstream:
  assumes "exec (fetchUpstream m lg key entry accept kh) w r es w'" and "line_actions lg = []"
    and "buildUpstreamRequest (ip6 m) (KeyURL key) accept (Option.bind entry Headers) = Inr req"
    and "clientDo m req w = (answer, w1)"
  shows "calls es = EvDo req # aftermath_calls key (aftermath_of m key kh entry answer w1) \<and>
    actions es = verdict_actions (entry \<noteq> None) (Fetched req (aftermath_of m key kh entry answer w1)) \<and>
    (aftermath_of m key kh entry answer w1 = Refused \<longrightarrow> r = Inl (refusal key answer)) \<and>
    (\<forall>h. aftermath_of m key kh entry answer w1 = StoreFailed h \<longrightarrow>
       (\<exists>e. r = Inl (Wrapf e ''cache %s'' [URL_String (KeyURL key)])))"
proof (cases answer)
  case (Inl err)
  with assms show ?thesis
    by (cases "entry = None")
      (auto simp: fetchUpstream_def aftermath_of_def refusal_def exec_bind framed Let_def
        split: if_splits dest!: exec_presign)
next
  case (Inr resp)
  let ?lg = "lg @ [AStr ''target'' (URL_String (KeyURL key)),
    AStr ''fetch'' (if entry \<noteq> None then ''conditional'' else ''first''),
    HeaderAttrs ''upstream_request_headers'' (UpHeader req)]"
  from assms Inr obtain l es2 where es: "es = [EvLog l, EvDo req] @ es2" and l: "event_actions (EvLog l) = []"
    and r: "exec (handleResponse m ?lg key entry kh resp) w1 r es2 w'"
    by (auto simp: fetchUpstream_def exec_bind framed Let_def)
  moreover have "line_actions ?lg = []" using assms(2) by simp
  ultimately show ?thesis
    using exec_handleResponse [of m ?lg key entry kh resp w1 r es2 w' req] Inr by (simp add: refusal_def)
qed

lemma exec_fetchAndCache_steps:
  assumes run: "exec (fetchAndCache m lg key accept kh) w r es w'" and lg: "line_actions lg = []"
  shows "\<exists>es1 es2. es = es1 @ es2 \<and> calls es1 = [EvHead key] \<and> actions es1 = [] \<and>
    (if fresh_hit m key kh w then calls es2 = [EvPresign key] \<and> actions es2 = [''fresh''] \<and>
       (\<exists>es3. exec (presign m key) (fetch_world m key w) r es3 w')
     else \<exists>lg'. line_actions lg' = [] \<and>
       exec (fetchUpstream m lg' key (seen_entry m key w) accept kh) (fetch_world m key w) r es2 w')"
proof -
  from run obtain entry es1 w1 gate es2 w2 es3 where es: "es = es1 @ es2 @ es3"
    and 1: "exec (headEntry m lg key) w entry es1 w1"
    and 2: "exec (evaluateFreshness m entry kh) w1 gate es2 w2"
    and 3: "exec (case gate of
        None \<Rightarrow> fetchUpstream m lg key entry accept kh
      | Some decision \<Rightarrow>
          if Fresh decision then do {
            emit (log_at LevelInfo lg ''cache decision''
              [AStr ''target'' (URL_String (KeyURL key)), AStr ''action'' ''fresh'',
               AStr ''action_reason'' (reason_text (Reason decision)), ADur ''age'' (Age decision),
               ADur ''declared_lifetime'' (DeclaredLifetime decision), ADur ''resident'' (Resident decision)]);
            presign m key
          }
          else fetchUpstream m (lg @ [AStr ''freshness_reason'' (reason_text (Reason decision))])
                 key entry accept kh) w2 r es3 w'"
    unfolding fetchAndCache_def by (simp only: exec_bind framed) blast
  from exec_headEntry [OF 1] lg have entry: "entry = seen_entry m key w"
    and w1: "w1 = snd (cacheHead (cache m) key w)" and c1: "calls es1 = [EvHead key]" "actions es1 = []"
    by (auto simp: seen_entry_def)
  from exec_evaluateFreshness [OF 2] have c2: "calls es2 = []" "actions es2 = []"
    and gate: "if entry = None \<or> \<not> honorFreshness m then gate = None \<and> w2 = w1
      else gate = Some (Evaluate (hdr_of (Headers (the entry))) (StoredAt (the entry)) (fst (timeNow m w1))
             (freshnessCap m) kh) \<and> w2 = snd (timeNow m w1)"
    by (auto split: if_splits)
  have "if fresh_hit m key kh w then calls es3 = [EvPresign key] \<and> actions es3 = [''fresh''] \<and>
       (\<exists>es4. exec (presign m key) (fetch_world m key w) r es4 w')
     else \<exists>lg'. line_actions lg' = [] \<and>
       exec (fetchUpstream m lg' key (seen_entry m key w) accept kh) (fetch_world m key w) r es3 w'"
  proof (cases gate)
    case None
    with gate have "\<not> gate_runs m key w" by (auto simp: gate_runs_def entry split: if_splits)
    with None gate 3 lg show ?thesis
      by (auto simp: gate_runs_def fresh_hit_def fetch_world_def entry w1 Let_def split: option.splits if_splits)
  next
    case (Some d)
    with gate have run: "gate_runs m key w" and w2: "w2 = fetch_world m key w"
      and d: "Fresh d = fresh_hit m key kh w"
      by (auto simp: gate_runs_def fresh_hit_def fetch_world_def entry w1 Let_def split: option.splits if_splits)
    show ?thesis
    proof (cases "Fresh d")
      case True
      with Some 3 obtain es4 where p: "exec (presign m key) w2 r es4 w'"
        and es3: "calls es3 = calls es4" "actions es3 = line_actions lg @ [''fresh''] @ actions es4"
        by (auto simp: exec_bind framed)
      from exec_presign [OF p] es3 lg have "calls es3 = [EvPresign key] \<and> actions es3 = [''fresh'']" by simp
      with p w2 d True show ?thesis by auto
    next
      case False
      let ?lg = "lg @ [AStr ''freshness_reason'' (reason_text (Reason d))]"
      have "line_actions ?lg = []" using lg by simp
      moreover have "exec (fetchUpstream m ?lg key (seen_entry m key w) accept kh) (fetch_world m key w) r es3 w'"
        using 3 False Some w2 entry by simp
      ultimately have "\<exists>lg'. line_actions lg' = [] \<and>
          exec (fetchUpstream m lg' key (seen_entry m key w) accept kh) (fetch_world m key w) r es3 w'"
        by blast
      then show ?thesis unfolding d [symmetric] if_not_P [OF False] .
    qed
  qed
  moreover have "calls (es1 @ es2) = [EvHead key]" "actions (es1 @ es2) = []" using c1 c2 by simp_all
  ultimately show ?thesis using es by (metis append.assoc)
qed

lemma exec_fetchAndCache:
  assumes run: "exec (fetchAndCache m lg key accept kh) w r es w'" and lg: "line_actions lg = []"
  shows "calls es = verdict_calls key (verdict_of m key accept kh w) \<and>
    actions es = verdict_actions (seen_entry m key w \<noteq> None) (verdict_of m key accept kh w) \<and>
    (\<forall>req. verdict_of m key accept kh w = Fetched req Refused \<longrightarrow>
      r = Inl (refusal key (fst (clientDo m req (fetch_world m key w))))) \<and>
    (\<forall>req h. verdict_of m key accept kh w = Fetched req (StoreFailed h) \<longrightarrow>
      (\<exists>e. r = Inl (Wrapf e ''cache %s'' [URL_String (KeyURL key)]))) \<and>
    (verdict_of m key accept kh w = Unbuildable \<longrightarrow> isl r)"
proof -
  obtain es1 es2 where es: "es = es1 @ es2" and c: "calls es1 = [EvHead key]" "actions es1 = []"
    and step: "if fresh_hit m key kh w then calls es2 = [EvPresign key] \<and> actions es2 = [''fresh''] \<and>
       (\<exists>es3. exec (presign m key) (fetch_world m key w) r es3 w')
     else \<exists>lg'. line_actions lg' = [] \<and>
       exec (fetchUpstream m lg' key (seen_entry m key w) accept kh) (fetch_world m key w) r es2 w'"
    using exec_fetchAndCache_steps [OF assms] by blast
  show ?thesis
  proof (cases "fresh_hit m key kh w")
    case True
    with step c es show ?thesis by (simp add: verdict_of_def)
  next
    case False
    with step obtain lg' where lg': "line_actions lg' = []"
      and r: "exec (fetchUpstream m lg' key (seen_entry m key w) accept kh) (fetch_world m key w) r es2 w'"
      by auto
    show ?thesis
    proof (cases "fetch_request m key accept w")
      case (Inl e)
      with r have "es2 = [] \<and> isl r"
        by (auto simp: fetchUpstream_def fetch_request_def exec_bind framed Let_def)
      with Inl False c es show ?thesis by (simp add: verdict_of_def)
    next
      case (Inr req)
      obtain answer w1 where a: "clientDo m req (fetch_world m key w) = (answer, w1)" by fastforce
      from exec_fetchUpstream [OF r lg' Inr [unfolded fetch_request_def] a] Inr False a c es
      show ?thesis by (simp add: verdict_of_def)
    qed
  qed
qed

end
