(* ===== verification/S3Cache.thy ===== *)
theory S3Cache
  imports Metadata Server
begin

text \<open>
  The S3 cache, \<open>src/s3_cache.go\<close>, as an implementation of the \<open>httpCache\<close>
  interface of \<open>src/cache.go\<close>. The S3 client is a record of functions over the world; what
  the code relies on of the service is the locale \<open>s3_service\<close>, what it promises its callers
  the locale \<open>http_cache\<close>, and \<open>s3_cache\<close> carries the one into the other. The
  log lines of this file (debug traces and the note of a skipped touch) are left out.
\<close>

section \<open>The client\<close>

record HeadObjectOutput =
  ho_Metadata :: metadata
  ho_LastModified :: "time option"
  ho_ETag :: "string option"
  ho_ContentLength :: "int option"

record CopyObjectInput =
  co_Bucket :: string
  co_Key :: string
  co_Source :: string
  co_IfMatch :: string
  co_Directive :: string
  co_Metadata :: metadata
  co_ContentType :: "string option"

record UploadObjectInput =
  up_Bucket :: string
  up_Key :: string
  up_Body :: reader
  up_Metadata :: metadata
  up_ContentType :: "string option"

record 'w s3_client =
  HeadObject :: "string \<Rightarrow> string \<Rightarrow> 'w \<Rightarrow> (go_error + HeadObjectOutput) \<times> 'w"
  CopyObject :: "CopyObjectInput \<Rightarrow> 'w \<Rightarrow> go_error option \<times> 'w"
  UploadObject :: "UploadObjectInput \<Rightarrow> 'w \<Rightarrow> go_error option \<times> 'w"
  PresignGetObject :: "string \<Rightarrow> string \<Rightarrow> 'w \<Rightarrow> (go_error + string) \<times> 'w"

record 'w s3HTTPCache =
  s3c :: "'w s3_client"
  bucket :: string
  prefix :: string

section \<open>The operations\<close>

definition ToValue :: "'a \<Rightarrow> 'a option \<Rightarrow> 'a" where
  "ToValue zero p = (case p of None \<Rightarrow> zero | Some v \<Rightarrow> v)"

definition s3_Head :: "'w s3HTTPCache \<Rightarrow> CacheKey \<Rightarrow> 'w \<Rightarrow> (go_error + cachedEntry option) \<times> 'w" where
  "s3_Head c key w =
     (let s3Path = s3PathFor (prefix c) key in
      case HeadObject (s3c c) (bucket c) s3Path w of (r, w') \<Rightarrow>
        ((case r of
            Inl err \<Rightarrow>
              (case as_api err of
                 Some code \<Rightarrow>
                   if code = ''NotFound'' \<or> code = ''Forbidden'' then Inr None
                   else Inl (Wrapf err ''HeadObject(%s, %s)'' [bucket c, s3Path])
               | None \<Rightarrow> Inl (Wrapf err ''HeadObject(%s, %s)'' [bucket c, s3Path]))
          | Inr resp \<Rightarrow>
              (case metadataToHeader (ho_Metadata resp) of
                 Inl err \<Rightarrow> Inl err
               | Inr headers \<Rightarrow>
                   Inr (Some \<lparr>Headers = Some headers, StoredAt = ToValue 0 (ho_LastModified resp),
                     ObjectETag = ToValue [] (ho_ETag resp), Size = ToValue 0 (ho_ContentLength resp)\<rparr>))), w'))"

definition copyObjectSizeLimit :: int where
  "copyObjectSizeLimit = 5 * 1024 * 1024 * 1024"

definition content_type :: "header \<Rightarrow> string option" where
  "content_type headers = (let ct = hdr_Get headers ''Content-Type'' in if ct \<noteq> [] then Some ct else None)"

definition s3_Touch ::
    "'w s3HTTPCache \<Rightarrow> CacheKey \<Rightarrow> cachedEntry \<Rightarrow> header \<Rightarrow> 'w \<Rightarrow> go_error option \<times> 'w" where
  "s3_Touch c key entry headers w =
     (let s3Path = s3PathFor (prefix c) key in
      if copyObjectSizeLimit < Size entry then (None, w)
      else case headerToMetadata headers of
          Inl err \<Rightarrow> (Some (Wrapf err ''headerToMetadata(%v)'' []), w)
        | Inr metadata \<Rightarrow>
            (case CopyObject (s3c c)
                \<lparr>co_Bucket = bucket c, co_Key = s3Path,
                 co_Source = escapeCopySource (bucket c @ ''/'' @ s3Path),
                 co_IfMatch = ObjectETag entry, co_Directive = ''REPLACE'', co_Metadata = metadata,
                 co_ContentType = content_type headers\<rparr> w of
               (Some err, w') \<Rightarrow> (Some (Wrapf err ''CopyObject(%s, %s)'' [bucket c, s3Path]), w')
             | (None, w') \<Rightarrow> (None, w')))"

definition s3_GetPresignedURL :: "'w s3HTTPCache \<Rightarrow> CacheKey \<Rightarrow> 'w \<Rightarrow> (go_error + string) \<times> 'w" where
  "s3_GetPresignedURL c key w =
     (let objectPath = s3PathFor (prefix c) key in
      case PresignGetObject (s3c c) (bucket c) objectPath w of
        (Inl err, w') \<Rightarrow> (Inl (Wrapf err ''PresignGetObject(%s, %s)'' [bucket c, objectPath]), w')
      | (Inr u, w') \<Rightarrow> (Inr u, w'))"

definition s3_Put :: "'w s3HTTPCache \<Rightarrow> CacheKey \<Rightarrow> header \<Rightarrow> reader \<Rightarrow> 'w \<Rightarrow> go_error option \<times> 'w" where
  "s3_Put c key headers body w =
     (let objectPath = s3PathFor (prefix c) key in
      case headerToMetadata headers of
        Inl err \<Rightarrow> (Some (Wrapf err ''headerToMetadata(%v)'' []), w)
      | Inr metadata \<Rightarrow>
          (case UploadObject (s3c c)
              \<lparr>up_Bucket = bucket c, up_Key = objectPath, up_Body = body, up_Metadata = metadata,
               up_ContentType = content_type headers\<rparr> w of
             (Some err, w') \<Rightarrow> (Some (Wrapf err ''UploadObject(%s, %s)'' [bucket c, objectPath]), w')
           | (None, w') \<Rightarrow> (None, w')))"

definition s3_httpCache :: "'w s3HTTPCache \<Rightarrow> 'w httpCache" where
  "s3_httpCache c =
     \<lparr>cacheHead = s3_Head c, cachePresign = s3_GetPresignedURL c, cachePut = s3_Put c, cacheTouch = s3_Touch c\<rparr>"

lemma s3_httpCache_simps [simp]:
  "cacheHead (s3_httpCache c) = s3_Head c" "cachePresign (s3_httpCache c) = s3_GetPresignedURL c"
  "cachePut (s3_httpCache c) = s3_Put c" "cacheTouch (s3_httpCache c) = s3_Touch c"
  by (simp_all add: s3_httpCache_def)

section \<open>What the cache promises\<close>

text \<open>
  A cached response as callers see it: the values of each header, the body, the version tag.
\<close>

record stored =
  sHeaders :: "string \<Rightarrow> string list"
  sBody :: string
  sTag :: string

definition storable :: "header \<Rightarrow> string \<Rightarrow> string list" where
  "storable h n = (if allowed n then map utf8_repair (hdr_Values h n) else [])"

text \<open>
  The contract of the \<open>httpCache\<close> interface over a set of keys: \<open>view\<close> is what is
  cached, \<open>inv\<close> what every operation maintains. \<open>Head\<close> reports the view, \<open>Put\<close>
  replaces one entry with a body that was read to its end, \<open>Touch\<close> either changes nothing or
  replaces the headers of the very version the caller observed, and nothing else moves.
\<close>

locale http_cache =
  fixes ops :: "'w httpCache" and view :: "'w \<Rightarrow> CacheKey \<Rightarrow> stored option"
    and key_ok :: "CacheKey \<Rightarrow> bool" and inv :: "'w \<Rightarrow> bool"
  assumes head_view: "inv w \<Longrightarrow> key_ok k \<Longrightarrow> cacheHead ops k w = (Inr (Some e), w') \<Longrightarrow>
      \<exists>s. view w k = Some s \<and> sTag s = ObjectETag e \<and> Size e = int (length (sBody s)) \<and>
        wf_hdr (hdr_of (Headers e)) \<and> (\<forall>n. hdr_Values (hdr_of (Headers e)) n = sHeaders s n)"
    and head_pure: "inv w \<Longrightarrow> cacheHead ops k w = (r, w') \<Longrightarrow> inv w' \<and> view w' = view w"
    and presign_pure: "inv w \<Longrightarrow> cachePresign ops k w = (u, w') \<Longrightarrow> inv w' \<and> view w' = view w"
    and put_view: "inv w \<Longrightarrow> key_ok k \<Longrightarrow> wf_hdr h \<Longrightarrow> cachePut ops k h b w = (None, w') \<Longrightarrow>
      inv w' \<and> snd b = None \<and> (\<exists>tag. \<forall>k'. key_ok k' \<longrightarrow>
        view w' k' = (if k' = k then Some \<lparr>sHeaders = storable h, sBody = fst b, sTag = tag\<rparr> else view w k'))"
    and put_fail: "inv w \<Longrightarrow> cachePut ops k h b w = (Some err, w') \<Longrightarrow> inv w' \<and> view w' = view w"
    and touch_view: "inv w \<Longrightarrow> key_ok k \<Longrightarrow> wf_hdr h \<Longrightarrow> cacheTouch ops k e h w = (None, w') \<Longrightarrow>
      inv w' \<and> (view w' = view w \<or>
        (\<exists>s tag. view w k = Some s \<and> sTag s = ObjectETag e \<and> (\<forall>k'. key_ok k' \<longrightarrow>
          view w' k' = (if k' = k then Some (s\<lparr>sHeaders := storable h, sTag := tag\<rparr>) else view w k'))))"
    and touch_fail: "inv w \<Longrightarrow> cacheTouch ops k e h w = (Some err, w') \<Longrightarrow> inv w' \<and> view w' = view w"
begin

lemma touch_keeps_bodies:
  assumes "inv w" and "key_ok k" and "wf_hdr h" and "cacheTouch ops k e h w = (r, w')" and "key_ok k'"
  shows "map_option sBody (view w' k') = map_option sBody (view w k')"
proof (cases r)
  case None
  with touch_view [OF assms(1-3)] assms(4,5) show ?thesis by fastforce
next
  case (Some err)
  with touch_fail [OF assms(1)] assms(4) show ?thesis by simp
qed

lemma touch_lost_race:
  assumes "inv w" and "key_ok k" and "wf_hdr h" and "cacheTouch ops k e h w = (r, w')"
    and "view w k = None \<or> (\<exists>s. view w k = Some s \<and> sTag s \<noteq> ObjectETag e)"
  shows "view w' = view w"
proof (cases r)
  case None
  with touch_view [OF assms(1-3)] assms(4,5) show ?thesis by fastforce
next
  case (Some err)
  with touch_fail [OF assms(1)] assms(4) show ?thesis by simp
qed

lemma touch_inv:
  assumes "inv w" and "key_ok k" and "wf_hdr h" and "cacheTouch ops k e h w = (r, w')"
  shows "inv w'"
  using touch_view [OF assms(1-3)] touch_fail [OF assms(1)] assms(4) by (cases r) blast+

end

section \<open>What S3 promises\<close>

record s3_object =
  obj_body :: string
  obj_meta :: metadata
  obj_type :: "string option"
  obj_tag :: string
  obj_time :: time

text \<open>
  The documented behaviour of the S3 operations the code relies on. \<open>HeadObject\<close> describes the
  object, with the metadata in some order and spelling; \<open>UploadObject\<close> succeeds only when the
  body was read to its end and then replaces the object; \<open>CopyObject\<close> reads the object its
  URL-decoded source names, only if its tag matches, and replaces the metadata on request; calls that
  fail leave the objects alone.
\<close>

locale s3_service =
  fixes s3 :: "'w s3_client" and object :: "'w \<Rightarrow> string \<Rightarrow> string \<Rightarrow> s3_object option"
  assumes head_ok: "HeadObject s3 b k w = (Inr out, w') \<Longrightarrow> \<exists>obj f. object w b k = Some obj \<and>
      faithful_spelling f \<and> mset (ho_Metadata out) = mset (respell f (obj_meta obj)) \<and>
      ho_LastModified out = Some (obj_time obj) \<and> ho_ETag out = Some (obj_tag obj) \<and>
      ho_ContentLength out = Some (int (length (obj_body obj)))"
    and head_pure: "HeadObject s3 b k w = (r, w') \<Longrightarrow> object w' = object w"
    and presign_pure: "PresignGetObject s3 b k w = (u, w') \<Longrightarrow> object w' = object w"
    and upload_ok: "UploadObject s3 i w = (None, w') \<Longrightarrow> snd (up_Body i) = None \<and>
      (\<exists>tag t. object w' = (\<lambda>b k. if b = up_Bucket i \<and> k = up_Key i
         then Some \<lparr>obj_body = fst (up_Body i), obj_meta = up_Metadata i, obj_type = up_ContentType i,
           obj_tag = tag, obj_time = t\<rparr> else object w b k))"
    and upload_fail: "UploadObject s3 i w = (Some err, w') \<Longrightarrow> object w' = object w"
    and copy_ok: "CopyObject s3 j w = (None, w') \<Longrightarrow> \<exists>sb sk obj tag t.
      unescape True (co_Source j) = sb @ CHR ''/'' # sk \<and> CHR ''/'' \<notin> set sb \<and>
      object w sb sk = Some obj \<and> obj_tag obj = co_IfMatch j \<and>
      object w' = (\<lambda>b k. if b = co_Bucket j \<and> k = co_Key j
         then Some (obj\<lparr>obj_meta := (if co_Directive j = ''REPLACE'' then co_Metadata j else obj_meta obj),
           obj_type := (if co_Directive j = ''REPLACE'' then co_ContentType j else obj_type obj),
           obj_tag := tag, obj_time := t\<rparr>) else object w b k)"
    and copy_fail: "CopyObject s3 j w = (Some err, w') \<Longrightarrow> object w' = object w"

section \<open>The cache over S3\<close>

text \<open>The keys the server builds, and the values a stored object's metadata gives a header.\<close>

definition target_key :: "CacheKey \<Rightarrow> bool" where
  "target_key k \<longleftrightarrow> Scheme (KeyURL k) = ''https'' \<and> rooted (Path (KeyURL k))"

definition meta_values :: "metadata \<Rightarrow> string \<Rightarrow> string list" where
  "meta_values m n =
     (case map_of m (CanonicalHeaderKey n) of
        None \<Rightarrow> []
      | Some v \<Rightarrow> (case json_Unmarshal v of None \<Rightarrow> [] | Some vs \<Rightarrow> vs))"

lemma target_key_path: "target_key k \<Longrightarrow> target_key k' \<Longrightarrow> s3PathFor p k = s3PathFor p k' \<longleftrightarrow> k = k'"
  by (cases k; cases k'; cases "KeyURL k"; cases "KeyURL k'") (auto simp: target_key_def s3PathFor_inject)

lemma meta_values_stored:
  assumes "wf_hdr h" and "headerToMetadata h = Inr m"
  shows "meta_values m n = storable h n"
proof -
  have wf: "wf_map h" using assms(1) by (simp add: wf_hdr_def)
  let ?c = "CanonicalHeaderKey n"
  have "map_of (map (\<lambda>(k, vs). (k, json_Marshal vs)) m') c = map_option json_Marshal (map_of m' c)" for m' c
    by (induction m') auto
  then have "map_of m ?c = map_option json_Marshal (map_of (filter (\<lambda>(k, vs). allowed k) h) ?c)"
    using assms(2) wf by (auto simp: headerToMetadata_eq)
  also have "map_of (filter (\<lambda>(k, vs). allowed k) h) ?c =
      (case map_of h ?c of None \<Rightarrow> None | Some v \<Rightarrow> if allowed ?c then Some v else None)"
    using wf by (subst map_of_filter_pred) (auto split: option.splits)
  finally show ?thesis
    by (auto simp: meta_values_def storable_def hdr_Values_def allowed_def json_Unmarshal_Marshal
        split: option.splits)
qed

text \<open>What is cached, read off the bucket; and that every object under a key was written by the cache.\<close>

definition stored_view ::
    "('w \<Rightarrow> string \<Rightarrow> string \<Rightarrow> s3_object option) \<Rightarrow> string \<Rightarrow> string \<Rightarrow> 'w \<Rightarrow> CacheKey \<Rightarrow> stored option" where
  "stored_view object b p w k =
     map_option (\<lambda>obj. \<lparr>sHeaders = meta_values (obj_meta obj), sBody = obj_body obj, sTag = obj_tag obj\<rparr>)
       (object w b (s3PathFor p k))"

definition written_here ::
    "('w \<Rightarrow> string \<Rightarrow> string \<Rightarrow> s3_object option) \<Rightarrow> string \<Rightarrow> string \<Rightarrow> 'w \<Rightarrow> bool" where
  "written_here object b p w \<longleftrightarrow> (\<forall>k obj. target_key k \<longrightarrow> object w b (s3PathFor p k) = Some obj \<longrightarrow>
     (\<exists>h. wf_hdr h \<and> headerToMetadata h = Inr (obj_meta obj)))"

locale s3_cache = s3_service +
  fixes b :: string and p :: string
  assumes bucket_name: "CHR ''/'' \<notin> set b"
begin

abbreviation cache_config :: "'a s3HTTPCache" where
  "cache_config \<equiv> \<lparr>s3c = s3, bucket = b, prefix = p\<rparr>"

abbreviation s3_view :: "'a \<Rightarrow> CacheKey \<Rightarrow> stored option" where
  "s3_view \<equiv> stored_view object b p"

abbreviation s3_inv :: "'a \<Rightarrow> bool" where
  "s3_inv \<equiv> written_here object b p"

lemmas s3_view_def = stored_view_def [of object b p]
lemmas s3_inv_def = written_here_def [of object b p]

lemma same_objects: "object w' = object w \<Longrightarrow> s3_inv w' = s3_inv w \<and> s3_view w' = s3_view w"
  by (simp add: s3_inv_def s3_view_def fun_eq_iff)

lemma replace_object:
  assumes "s3_inv w" and "target_key k" and "wf_hdr h" and "headerToMetadata h = Inr (obj_meta obj)"
    and "object w' = (\<lambda>b' k'. if b' = b \<and> k' = s3PathFor p k then Some obj else object w b' k')"
  shows "s3_inv w'" and "target_key k' \<Longrightarrow> s3_view w' k' =
    (if k' = k then Some \<lparr>sHeaders = storable h, sBody = obj_body obj, sTag = obj_tag obj\<rparr> else s3_view w k')"
proof -
  show "s3_inv w'"
    using assms unfolding s3_inv_def by (metis option.inject target_key_path)
  show "target_key k' \<Longrightarrow> s3_view w' k' =
    (if k' = k then Some \<lparr>sHeaders = storable h, sBody = obj_body obj, sTag = obj_tag obj\<rparr> else s3_view w k')"
    using assms(2-5) by (auto simp: s3_view_def target_key_path meta_values_stored fun_eq_iff)
qed

lemma copy_source: "unescape True (escapeCopySource (b @ ''/'' @ path)) = sb @ CHR ''/'' # sk \<Longrightarrow>
    CHR ''/'' \<notin> set sb \<Longrightarrow> sb = b \<and> sk = path"
proof -
  have "unescape True (escapeCopySource x) = x" for x
    by (simp only: escapeCopySource_def copy_source.dec_encode)
  then show "unescape True (escapeCopySource (b @ ''/'' @ path)) = sb @ CHR ''/'' # sk \<Longrightarrow>
    CHR ''/'' \<notin> set sb \<Longrightarrow> sb = b \<and> sk = path"
    using bucket_name append_sep_inject [of "CHR ''/''" b sb path sk] by simp
qed

lemma head_reports:
  assumes "s3_inv w" and "target_key k" and "s3_Head cache_config k w = (Inr (Some e), w')"
  shows "\<exists>s. s3_view w k = Some s \<and> sTag s = ObjectETag e \<and> Size e = int (length (sBody s)) \<and>
    wf_hdr (hdr_of (Headers e)) \<and> (\<forall>n. hdr_Values (hdr_of (Headers e)) n = sHeaders s n)"
proof -
  from assms(3) obtain out hs where out: "HeadObject s3 b (s3PathFor p k) w = (Inr out, w')"
    and hs: "metadataToHeader (ho_Metadata out) = Inr hs"
    and e: "e = \<lparr>Headers = Some hs, StoredAt = ToValue 0 (ho_LastModified out),
      ObjectETag = ToValue [] (ho_ETag out), Size = ToValue 0 (ho_ContentLength out)\<rparr>"
    by (auto simp: s3_Head_def Let_def split: prod.splits sum.splits option.splits if_splits)
  from head_ok [OF out] obtain obj f where obj: "object w b (s3PathFor p k) = Some obj"
    and f: "faithful_spelling f" and ms: "mset (ho_Metadata out) = mset (respell f (obj_meta obj))"
    and rest: "ho_ETag out = Some (obj_tag obj)" "ho_ContentLength out = Some (int (length (obj_body obj)))"
    by blast
  from assms(1,2) obj obtain h where h: "wf_hdr h" "headerToMetadata h = Inr (obj_meta obj)"
    unfolding s3_inv_def by blast
  from metadata_roundtrip_Values [OF h(1) f h(2) ms] hs
  have "wf_hdr hs" and "hdr_Values hs n = storable h n" for n
    by (auto simp: storable_def)
  then show ?thesis
    by (simp add: s3_view_def obj e rest ToValue_def meta_values_stored [OF h])
qed

lemma put_stores:
  assumes "s3_inv w" and "target_key k" and "wf_hdr h" and "s3_Put cache_config k h body w = (None, w')"
  shows "s3_inv w' \<and> snd body = None \<and> (\<exists>tag. \<forall>k'. target_key k' \<longrightarrow>
    s3_view w' k' = (if k' = k then Some \<lparr>sHeaders = storable h, sBody = fst body, sTag = tag\<rparr> else s3_view w k'))"
proof -
  obtain m where m: "headerToMetadata h = Inr m" by (simp add: headerToMetadata_def)
  let ?i = "\<lparr>up_Bucket = b, up_Key = s3PathFor p k, up_Body = body, up_Metadata = m, up_ContentType = content_type h\<rparr>"
  from assms(4) m have "UploadObject s3 ?i w = (None, w')"
    by (auto simp: s3_Put_def Let_def split: prod.splits option.splits)
  from upload_ok [OF this] obtain tag t where eof: "snd body = None"
    and obj: "object w' = (\<lambda>b' k'. if b' = b \<and> k' = s3PathFor p k
      then Some \<lparr>obj_body = fst body, obj_meta = m, obj_type = content_type h, obj_tag = tag, obj_time = t\<rparr>
      else object w b' k')"
    by (auto cong del: if_weak_cong)
  from replace_object [OF assms(1-3) _ obj] m eof show ?thesis by auto
qed

lemma touch_copies:
  assumes "s3_Touch cache_config k e h w = (None, w')" and "Size e \<le> copyObjectSizeLimit"
  shows "\<exists>obj m tag t. headerToMetadata h = Inr m \<and> object w b (s3PathFor p k) = Some obj \<and>
    obj_tag obj = ObjectETag e \<and>
    object w' = (\<lambda>b' k'. if b' = b \<and> k' = s3PathFor p k
      then Some (obj\<lparr>obj_meta := m, obj_type := content_type h, obj_tag := tag, obj_time := t\<rparr>) else object w b' k')"
proof -
  obtain m where m: "headerToMetadata h = Inr m" by (simp add: headerToMetadata_def)
  let ?i = "\<lparr>co_Bucket = b, co_Key = s3PathFor p k, co_Source = escapeCopySource (b @ ''/'' @ s3PathFor p k),
    co_IfMatch = ObjectETag e, co_Directive = ''REPLACE'', co_Metadata = m, co_ContentType = content_type h\<rparr>"
  from assms m have "CopyObject s3 ?i w = (None, w')"
    by (auto simp: s3_Touch_def Let_def split: prod.splits option.splits)
  from copy_ok [OF this] obtain sb sk obj tag t
    where src: "unescape True (escapeCopySource (b @ ''/'' @ s3PathFor p k)) = sb @ CHR ''/'' # sk" "CHR ''/'' \<notin> set sb"
      and o1: "object w sb sk = Some obj" and tag: "obj_tag obj = ObjectETag e"
      and o2: "object w' = (\<lambda>b' k'. if b' = b \<and> k' = s3PathFor p k
        then Some (obj\<lparr>obj_meta := m, obj_type := content_type h, obj_tag := tag, obj_time := t\<rparr>) else object w b' k')"
    by (auto cong del: if_weak_cong)
  from copy_source [OF src] o1 have "object w b (s3PathFor p k) = Some obj" by simp
  with m tag o2 show ?thesis by blast
qed

lemma touch_replaces:
  assumes "s3_inv w" and "target_key k" and "wf_hdr h" and "s3_Touch cache_config k e h w = (None, w')"
  shows "s3_inv w' \<and> (s3_view w' = s3_view w \<or>
    (\<exists>s tag. s3_view w k = Some s \<and> sTag s = ObjectETag e \<and> (\<forall>k'. target_key k' \<longrightarrow>
      s3_view w' k' = (if k' = k then Some (s\<lparr>sHeaders := storable h, sTag := tag\<rparr>) else s3_view w k'))))"
proof (cases "copyObjectSizeLimit < Size e")
  case True
  with assms show ?thesis by (simp add: s3_Touch_def Let_def)
next
  case False
  then have "Size e \<le> copyObjectSizeLimit" by simp
  from touch_copies [OF assms(4) this] obtain obj m tag t where m: "headerToMetadata h = Inr m"
    and o1: "object w b (s3PathFor p k) = Some obj" and tag: "obj_tag obj = ObjectETag e"
    and o2: "object w' = (\<lambda>b' k'. if b' = b \<and> k' = s3PathFor p k
        then Some (obj\<lparr>obj_meta := m, obj_type := content_type h, obj_tag := tag, obj_time := t\<rparr>) else object w b' k')"
    by blast
  from o1 have view: "s3_view w k = Some \<lparr>sHeaders = meta_values (obj_meta obj), sBody = obj_body obj, sTag = ObjectETag e\<rparr>"
    by (simp add: s3_view_def tag)
  from replace_object [OF assms(1-3) _ o2] m have "s3_inv w'" and
    "\<forall>k'. target_key k' \<longrightarrow> s3_view w' k' =
      (if k' = k then Some \<lparr>sHeaders = storable h, sBody = obj_body obj, sTag = tag\<rparr> else s3_view w k')"
    by auto
  with view show ?thesis by auto
qed

end

sublocale s3_cache \<subseteq> cached: http_cache "s3_httpCache cache_config" s3_view target_key s3_inv
proof unfold_locales
  fix w k r w'
  assume "s3_inv w" and "cacheHead (s3_httpCache cache_config) k w = (r, w')"
  then have "object w' = object w"
    by (auto simp: s3_Head_def Let_def split: prod.splits dest: head_pure)
  with same_objects show "s3_inv w' \<and> s3_view w' = s3_view w" using \<open>s3_inv w\<close> by blast
next
  fix w k u w'
  assume "s3_inv w" and "cachePresign (s3_httpCache cache_config) k w = (u, w')"
  then have "object w' = object w"
    by (auto simp: s3_GetPresignedURL_def Let_def split: prod.splits sum.splits dest: presign_pure)
  with same_objects show "s3_inv w' \<and> s3_view w' = s3_view w" using \<open>s3_inv w\<close> by blast
next
  fix w k h bd err w'
  assume "s3_inv w" and "cachePut (s3_httpCache cache_config) k h bd w = (Some err, w')"
  then have "object w' = object w"
    by (auto simp: s3_Put_def Let_def split: prod.splits sum.splits option.splits dest: upload_fail)
  with same_objects show "s3_inv w' \<and> s3_view w' = s3_view w" using \<open>s3_inv w\<close> by blast
next
  fix w k e h err w'
  assume "s3_inv w" and "cacheTouch (s3_httpCache cache_config) k e h w = (Some err, w')"
  then have "object w' = object w"
    by (auto simp: s3_Touch_def Let_def split: prod.splits sum.splits option.splits if_splits dest: copy_fail)
  with same_objects show "s3_inv w' \<and> s3_view w' = s3_view w" using \<open>s3_inv w\<close> by blast
next
  fix w k e w'
  assume "s3_inv w" and "target_key k" and "cacheHead (s3_httpCache cache_config) k w = (Inr (Some e), w')"
  then show "\<exists>s. s3_view w k = Some s \<and> sTag s = ObjectETag e \<and> Size e = int (length (sBody s)) \<and>
      wf_hdr (hdr_of (Headers e)) \<and> (\<forall>n. hdr_Values (hdr_of (Headers e)) n = sHeaders s n)"
    unfolding s3_httpCache_simps by (rule head_reports)
next
  fix w k h body w'
  assume "s3_inv w" and "target_key k" and "wf_hdr h" and "cachePut (s3_httpCache cache_config) k h body w = (None, w')"
  then show "s3_inv w' \<and> snd body = None \<and> (\<exists>tag. \<forall>k'. target_key k' \<longrightarrow>
      s3_view w' k' = (if k' = k then Some \<lparr>sHeaders = storable h, sBody = fst body, sTag = tag\<rparr> else s3_view w k'))"
    unfolding s3_httpCache_simps by (rule put_stores)
next
  fix w k h e w'
  assume "s3_inv w" and "target_key k" and "wf_hdr h" and "cacheTouch (s3_httpCache cache_config) k e h w = (None, w')"
  then show "s3_inv w' \<and> (s3_view w' = s3_view w \<or>
      (\<exists>s tag. s3_view w k = Some s \<and> sTag s = ObjectETag e \<and> (\<forall>k'. target_key k' \<longrightarrow>
        s3_view w' k' = (if k' = k then Some (s\<lparr>sHeaders := storable h, sTag := tag\<rparr>) else s3_view w k'))))"
    unfolding s3_httpCache_simps by (rule touch_replaces)
qed

context s3_cache begin

lemma cache_contract: "http_cache (s3_httpCache cache_config) s3_view target_key s3_inv"
  by (rule cached.http_cache_axioms)

end

section \<open>An S3 to run against\<close>

text \<open>
  An in-memory bucket store that behaves as documented: objects under (bucket, key), a counter for
  tags and times. It makes the service's contract, and with it the cache's, instantiable.
\<close>

record mem_s3 =
  mem_objects :: "(string \<times> string, s3_object) go_map"
  mem_counter :: nat

definition mem_object :: "mem_s3 \<Rightarrow> string \<Rightarrow> string \<Rightarrow> s3_object option" where
  "mem_object w b k = map_of (mem_objects w) (b, k)"

definition mem_store :: "mem_s3 \<Rightarrow> string \<Rightarrow> string \<Rightarrow> s3_object \<Rightarrow> mem_s3" where
  "mem_store w b k obj =
     w\<lparr>mem_objects := AList.update (b, k) (obj\<lparr>obj_tag := Itoa (mem_counter w), obj_time := int (mem_counter w)\<rparr>) (mem_objects w),
       mem_counter := Suc (mem_counter w)\<rparr>"

definition mem_head :: "string \<Rightarrow> string \<Rightarrow> mem_s3 \<Rightarrow> (go_error + HeadObjectOutput) \<times> mem_s3" where
  "mem_head b k w =
     (case mem_object w b k of
        None \<Rightarrow> (Inl (ErrAPI ''NotFound'' []), w)
      | Some obj \<Rightarrow>
          (Inr \<lparr>ho_Metadata = obj_meta obj, ho_LastModified = Some (obj_time obj), ho_ETag = Some (obj_tag obj),
             ho_ContentLength = Some (int (length (obj_body obj)))\<rparr>, w))"

definition mem_upload :: "UploadObjectInput \<Rightarrow> mem_s3 \<Rightarrow> go_error option \<times> mem_s3" where
  "mem_upload i w =
     (case snd (up_Body i) of
        Some err \<Rightarrow> (Some err, w)
      | None \<Rightarrow> (None, mem_store w (up_Bucket i) (up_Key i)
          \<lparr>obj_body = fst (up_Body i), obj_meta = up_Metadata i, obj_type = up_ContentType i, obj_tag = [], obj_time = 0\<rparr>))"

definition mem_copy :: "CopyObjectInput \<Rightarrow> mem_s3 \<Rightarrow> go_error option \<times> mem_s3" where
  "mem_copy i w =
     (case Cut CHR ''/'' (unescape True (co_Source i)) of (sb, sk, found) \<Rightarrow>
        if \<not> found then (Some (ErrAPI ''InvalidArgument'' []), w)
        else case mem_object w sb sk of
            None \<Rightarrow> (Some (ErrAPI ''NoSuchKey'' []), w)
          | Some obj \<Rightarrow>
              if obj_tag obj \<noteq> co_IfMatch i then (Some (ErrAPI ''PreconditionFailed'' []), w)
              else (None, mem_store w (co_Bucket i) (co_Key i)
                (if co_Directive i = ''REPLACE'' then obj\<lparr>obj_meta := co_Metadata i, obj_type := co_ContentType i\<rparr> else obj)))"

definition mem_client :: "mem_s3 s3_client" where
  "mem_client =
     \<lparr>HeadObject = mem_head, CopyObject = mem_copy, UploadObject = mem_upload,
      PresignGetObject = (\<lambda>b k w. (Inr (''https://s3/'' @ b @ ''/'' @ k), w))\<rparr>"

lemma mem_store_object:
  "mem_object (mem_store w b k obj) = (\<lambda>b' k'. if b' = b \<and> k' = k
     then Some (obj\<lparr>obj_tag := Itoa (mem_counter w), obj_time := int (mem_counter w)\<rparr>) else mem_object w b' k')"
  by (auto simp: mem_object_def mem_store_def fun_eq_iff)

lemma faithful_id: "faithful_spelling (\<lambda>k. k)"
  by code_simp

interpretation mem: s3_cache mem_client mem_object "''bucket''" "''cache''"
proof unfold_locales
  fix b k out w w'
  assume "HeadObject mem_client b k w = (Inr out, w')"
  then show "\<exists>obj f. mem_object w b k = Some obj \<and> faithful_spelling f \<and>
      mset (ho_Metadata out) = mset (respell f (obj_meta obj)) \<and>
      ho_LastModified out = Some (obj_time obj) \<and> ho_ETag out = Some (obj_tag obj) \<and>
      ho_ContentLength out = Some (int (length (obj_body obj)))"
    using faithful_id by (force simp: mem_client_def mem_head_def respell_def split: option.splits)
next
  fix i w w'
  assume "UploadObject mem_client i w = (None, w')"
  then show "snd (up_Body i) = None \<and> (\<exists>tag t. mem_object w' = (\<lambda>b k. if b = up_Bucket i \<and> k = up_Key i
         then Some \<lparr>obj_body = fst (up_Body i), obj_meta = up_Metadata i, obj_type = up_ContentType i,
           obj_tag = tag, obj_time = t\<rparr> else mem_object w b k))"
    by (auto simp: mem_client_def mem_upload_def mem_store_object cong del: if_weak_cong split: option.splits)
      blast
next
  fix j w w'
  assume c: "CopyObject mem_client j w = (None, w')"
  then obtain sb sk obj where cut: "Cut CHR ''/'' (unescape True (co_Source j)) = (sb, sk, True)"
    and obj: "mem_object w sb sk = Some obj" "obj_tag obj = co_IfMatch j"
    by (auto simp: mem_client_def mem_copy_def split: prod.splits option.splits if_splits)
  from c obj cut have "mem_object w' = (\<lambda>b k. if b = co_Bucket j \<and> k = co_Key j
      then Some (obj\<lparr>obj_meta := (if co_Directive j = ''REPLACE'' then co_Metadata j else obj_meta obj),
        obj_type := (if co_Directive j = ''REPLACE'' then co_ContentType j else obj_type obj),
        obj_tag := Itoa (mem_counter w), obj_time := int (mem_counter w)\<rparr>) else mem_object w b k)"
    by (auto simp: mem_client_def mem_copy_def mem_store_object fun_eq_iff split: if_splits)
  with Cut_SomeD [OF cut] obj show "\<exists>sb sk obj tag t.
      unescape True (co_Source j) = sb @ CHR ''/'' # sk \<and> CHR ''/'' \<notin> set sb \<and>
      mem_object w sb sk = Some obj \<and> obj_tag obj = co_IfMatch j \<and>
      mem_object w' = (\<lambda>b k. if b = co_Bucket j \<and> k = co_Key j
         then Some (obj\<lparr>obj_meta := (if co_Directive j = ''REPLACE'' then co_Metadata j else obj_meta obj),
           obj_type := (if co_Directive j = ''REPLACE'' then co_ContentType j else obj_type obj),
           obj_tag := tag, obj_time := t\<rparr>) else mem_object w b k)"
    by blast
qed (auto simp: mem_client_def mem_head_def mem_upload_def mem_copy_def
    split: option.splits prod.splits if_splits)

end
