(* ===== verification/FetchProperties.thy ===== *)
theory FetchProperties
  imports Server
begin

text \<open>
  The properties of a fetch, over the model of \<open>src/server.go\<close> in \<open>Server\<close>. They
  quantify over every cache, client and clock: \<open>exec\<close> relates the world before a run to its
  result, its trace and the world after it. \<open>demo\<close> is one concrete middleware, for the
  concrete instances.
\<close>

section \<open>A concrete middleware\<close>

definition demo_key :: CacheKey where
  "demo_key = \<lparr>KeyURL = \<lparr>Scheme = ''https'', Host = ''h'', Path = ''/x'', RawQuery = []\<rparr>, Variant = []\<rparr>"

definition demo ::
    "cachedEntry option \<Rightarrow> go_error + Response \<Rightarrow> go_error option \<Rightarrow> bool \<Rightarrow> unit cacheMiddleware" where
  "demo entry answer put honor =
     \<lparr>cache = \<lparr>cacheHead = (\<lambda>k w. (Inr entry, w)), cachePresign = (\<lambda>k w. (Inr ''u'', w)),
        cachePut = (\<lambda>k h b w. (put, w)), cacheTouch = (\<lambda>k e h w. (None, w))\<rparr>,
      clientDo = (\<lambda>req w. (answer, w)), timeNow = (\<lambda>w. (5, w)), ip6 = (\<lambda>_. False),
      fallback = \<lparr>OnConnectionError = True, On5xx = True, OnAnyError = False\<rparr>,
      honorFreshness = honor, freshnessCap = 10\<rparr>"

lemma demo_simps [simp]:
  "cacheHead (cache (demo e a p h)) = (\<lambda>k w. (Inr e, w))"
  "cachePut (cache (demo e a p h)) = (\<lambda>k hd b w. (p, w))"
  "clientDo (demo e a p h) = (\<lambda>req w. (a, w))"
  "timeNow (demo e a p h) = (\<lambda>w. (5, w))"
  "honorFreshness (demo e a p h) = h" "freshnessCap (demo e a p h) = 10" "ip6 (demo e a p h) = (\<lambda>_. False)"
  "fallback (demo e a p h) = \<lparr>OnConnectionError = True, On5xx = True, OnAnyError = False\<rparr>"
  by (simp_all add: demo_def)

definition demo_entry :: "string \<Rightarrow> cachedEntry" where
  "demo_entry cc = \<lparr>Headers = Some [(''Cache-Control'', [cc]), (''Etag'', [[DQUOTE, CHR ''a'', DQUOTE]])],
     StoredAt = 1, ObjectETag = ''v1'', Size = 3\<rparr>"

definition demo_request :: "header \<Rightarrow> UpRequest" where
  "demo_request h =
     \<lparr>UpMethod = ''GET'', UpURL = \<lparr>Scheme = ''https'', Host = ''h'', Path = ''/x'', RawQuery = [],
      Opaque = [], User = None, RawPath = [], ForceQuery = False, OmitHost = False, Fragment = [],
      RawFragment = []\<rparr>, UpHeader = h\<rparr>"

lemma demo_builds:
  "buildUpstreamRequest (\<lambda>_. False) (KeyURL demo_key) [] None = Inr (demo_request [])"
  "buildUpstreamRequest (\<lambda>_. False) (KeyURL demo_key) [] (Headers (demo_entry cc)) =
     Inr (demo_request [(''If-None-Match'', [[DQUOTE, CHR ''a'', DQUOTE]])])"
proof -
  have u: "NewRequest_url (\<lambda>_. False) (URL_String (KeyURL demo_key)) = Inr (UpURL (demo_request []))"
    by code_simp
  show "buildUpstreamRequest (\<lambda>_. False) (KeyURL demo_key) [] None = Inr (demo_request [])"
    by (simp add: buildUpstreamRequest_def u demo_request_def Let_def)
  show "buildUpstreamRequest (\<lambda>_. False) (KeyURL demo_key) [] (Headers (demo_entry cc)) =
     Inr (demo_request [(''If-None-Match'', [[DQUOTE, CHR ''a'', DQUOTE]])])"
    by (simp add: buildUpstreamRequest_def u demo_request_def demo_entry_def Let_def
        injectCacheHeadersIntoRequest_def hdr_defs)
qed

lemma demo_seen [simp]: "seen_entry (demo e a p h) key w = e"
  by (simp add: seen_entry_def)

lemma demo_verdicts:
  "verdict_of (demo None (Inr \<lparr>StatusCode = 200, RespHeader = [], RespBody = (b, None)\<rparr>) (Some err) True)
     demo_key [] [] () = Fetched (demo_request []) (StoreFailed [])"
  "verdict_of (demo (Some (demo_entry ''no-cache'')) (Inr \<lparr>StatusCode = 503, RespHeader = [], RespBody = (b, None)\<rparr>) None False)
     demo_key [] [] () = Fetched (demo_request [(''If-None-Match'', [[DQUOTE, CHR ''a'', DQUOTE]])]) Stale"
  by (simp_all add: verdict_of_def fresh_hit_def fetch_request_def demo_builds aftermath_of_def
      upstreamUnchanged_def etagStrongMatch_def ShouldFallback_def)

lemma demo_fresh: "fresh_hit (demo (Some (demo_entry ''max-age=60'')) a p True) demo_key [] ()"
proof -
  have "Fresh (Evaluate (hdr_of (Headers (demo_entry ''max-age=60''))) 1 5 10 [])" by code_simp
  then show ?thesis by (simp add: fresh_hit_def demo_entry_def)
qed

lemma some_run:
  obtains r es w' where "exec p w r es w'"
  using exec_total [of p w] by blast

lemma verdict_fetched:
  "EvDo req \<in> set (verdict_calls key (verdict_of m key accept kh w)) \<Longrightarrow>
   verdict_of m key accept kh w = Fetched req
     (aftermath_of m key kh (seen_entry m key w) (fst (clientDo m req (fetch_world m key w)))
       (snd (clientDo m req (fetch_world m key w)))) \<and>
   fetch_request m key accept w = Inr req \<and> \<not> fresh_hit m key kh w"
proof -
  have tail: "EvDo q \<notin> set (aftermath_calls key a)" for a q
    by (induction key a rule: aftermath_calls.induct) auto
  assume "EvDo req \<in> set (verdict_calls key (verdict_of m key accept kh w))"
  then show ?thesis
    by (auto simp: verdict_of_def tail split: if_splits sum.splits prod.splits)
qed

lemma touch_in_aftermath:
  "EvTouch key' e h \<in> set (aftermath_calls key a) \<longleftrightarrow> key' = key \<and> a = Revalidated (Some (e, h))"
  by (induction key a rule: aftermath_calls.induct) auto

lemma aftermath_miss:
  "aftermath_of m key kh None answer w = Refused \<or>
   (\<exists>h. aftermath_of m key kh None answer w = Stored h \<or> aftermath_of m key kh None answer w = StoreFailed h)"
proof -
  have "\<not> snd (upstreamUnchanged resp None)" for resp
    using upstreamUnchanged_entry [of resp None] by auto
  then show ?thesis by (cases answer) (simp_all add: aftermath_of_def)
qed

lemma hdr_Get_Set: "hdr_Get (hdr_Set h k v) k' = (if CanonicalHeaderKey k' = CanonicalHeaderKey k then v else hdr_Get h k')"
  by (simp add: hdr_Get_def hdr_Values_Set)

lemma inject_headers:
  assumes "hdr_Get (UpHeader req) ''ETag'' = []" and "hdr_Get (UpHeader req) ''Last-Modified'' = []"
  shows "hdr_Values (UpHeader (injectCacheHeadersIntoRequest req ch)) k =
      (let c = CanonicalHeaderKey k
       in if c = ''If-None-Match'' \<and> hdr_Get ch ''ETag'' \<noteq> [] then [hdr_Get ch ''ETag'']
          else if c = ''If-Modified-Since'' \<and> hdr_Get ch ''Last-Modified'' \<noteq> [] then [hdr_Get ch ''Last-Modified'']
          else hdr_Values (UpHeader req) k)"
  using assms by (auto simp: injectCacheHeadersIntoRequest_def Let_def hdr_Get_Set hdr_Values_Set)

lemma build_headers:
  assumes "buildUpstreamRequest ip u accept cached = Inr req"
  shows "hdr_Values (UpHeader req) k =
      (let etag = hdr_Get (hdr_of cached) ''ETag''; modified = hdr_Get (hdr_of cached) ''Last-Modified'';
           c = CanonicalHeaderKey k
       in if c = ''Accept'' \<and> accept \<noteq> [] then [accept]
          else if c = ''If-None-Match'' \<and> etag \<noteq> [] then [etag]
          else if c = ''If-Modified-Since'' \<and> modified \<noteq> [] then [modified] else [])"
proof -
  define h0 where "h0 = (if accept \<noteq> [] then hdr_Set [] ''Accept'' accept else [])"
  have h0: "hdr_Get h0 ''ETag'' = []" "hdr_Get h0 ''Last-Modified'' = []"
    "hdr_Values h0 k = (if CanonicalHeaderKey k = ''Accept'' \<and> accept \<noteq> [] then [accept] else [])"
    by (auto simp: h0_def hdr_Get_Set hdr_Values_Set)
  from assms obtain v where
    "req = (case cached of None \<Rightarrow> \<lparr>UpMethod = ''GET'', UpURL = v, UpHeader = h0\<rparr>
       | Some h \<Rightarrow> injectCacheHeadersIntoRequest \<lparr>UpMethod = ''GET'', UpURL = v, UpHeader = h0\<rparr> h)"
    by (cases cached; cases "accept = []") (auto simp: buildUpstreamRequest_def h0_def Let_def split: sum.splits)
  then show ?thesis
    by (cases cached) (simp_all add: h0 inject_headers Let_def)
qed

lemma build_target:
  "buildUpstreamRequest ip u accept cached = Inr req \<Longrightarrow>
   UpMethod req = ''GET'' \<and> NewRequest_url ip (URL_String u) = Inr (UpURL req)"
  by (auto simp: buildUpstreamRequest_def injectCacheHeadersIntoRequest_def Let_def
      split: sum.splits option.splits)


section \<open>Properties\<close>

text \<open>
  C1. Refinement of the caching policy. Whatever the cache, upstream and the clock do, a fetch makes
  exactly the calls of the verdict the policy prescribes - fresh hit, stale, refusal, revalidation
  (with or without a touch), store, failed store - in that order, and logs exactly that verdict's
  action.
\<close>

theorem fetch_refines_policy:
  assumes "exec (fetchAndCache m lg key accept kh) w r es w'" and "line_actions lg = []"
  shows "calls es = verdict_calls key (verdict_of m key accept kh w) \<and>
    actions es = verdict_actions (seen_entry m key w \<noteq> None) (verdict_of m key accept kh w)"
  using exec_fetchAndCache [OF assms] by blast

theorem fetch_refines_policy_witness:
  "\<exists>r es w'. exec (fetchAndCache (demo (Some (demo_entry ''no-cache''))
      (Inr \<lparr>StatusCode = 503, RespHeader = [], RespBody = ([], None)\<rparr>) None False) [] demo_key [] []) () r es w' \<and>
    actions es = [''stale'']"
proof -
  let ?p = "fetchAndCache (demo (Some (demo_entry ''no-cache''))
      (Inr \<lparr>StatusCode = 503, RespHeader = [], RespBody = ([], None)\<rparr>) None False) [] demo_key [] []"
  obtain r es w' where "exec ?p () r es w'" by (rule some_run)
  moreover from fetch_refines_policy [OF this] have "actions es = [''stale'']"
    by (simp add: demo_verdicts)
  ultimately show ?thesis by blast
qed

text \<open>
  C5. A fresh entry is served without a word to upstream: when the flag is on and the gate finds the
  entry fresh, the run looks the entry up, presigns, and makes no request, upload or touch.
\<close>

theorem fresh_served_without_upstream:
  assumes "exec (fetchAndCache m lg key accept kh) w r es w'" and "line_actions lg = []"
    and "honorFreshness m" and "cacheHead (cache m) key w = (Inr (Some e), w1)"
    and "Fresh (Evaluate (hdr_of (Headers e)) (StoredAt e) (fst (timeNow m w1)) (freshnessCap m) kh)"
  shows "calls es = [EvHead key, EvPresign key] \<and> actions es = [''fresh'']"
proof -
  have "fresh_hit m key kh w" using assms(3-5) by (simp add: fresh_hit_def seen_entry_def)
  then have "verdict_of m key accept kh w = ServeFresh" by (simp add: verdict_of_def)
  with exec_fetchAndCache [OF assms(1,2)] show ?thesis by simp
qed

theorem fresh_served_without_upstream_witness:
  "\<exists>r es w'. exec (fetchAndCache (demo (Some (demo_entry ''max-age=60'')) (Inl (ErrNet ''down'')) None True)
      [] demo_key [] []) () r es w' \<and> EvPresign demo_key \<in> set es"
proof -
  let ?m = "demo (Some (demo_entry ''max-age=60'')) (Inl (ErrNet ''down'')) None True"
  obtain r es w' where r: "exec (fetchAndCache ?m [] demo_key [] []) () r es w'" by (rule some_run)
  have "Fresh (Evaluate (hdr_of (Headers (demo_entry ''max-age=60''))) (StoredAt (demo_entry ''max-age=60''))
      (fst (timeNow ?m ())) (freshnessCap ?m) [])"
    using demo_fresh by (simp add: fresh_hit_def)
  with fresh_served_without_upstream [OF r, of "demo_entry ''max-age=60''" "()"]
  have "calls es = [EvHead demo_key, EvPresign demo_key]" by simp
  then have "EvPresign demo_key \<in> set es" using calls_mem [of "EvPresign demo_key" es] by simp
  with r show ?thesis by blast
qed

text \<open>
  C6. Stale content only by policy. When upstream failed - no response, or a status other than 200
  and 304 - and the run still presigns, there was a cached entry and the fallback policy allows
  serving it for this very failure.
\<close>

theorem stale_only_by_policy:
  assumes "exec (fetchAndCache m lg key accept kh) w r es w'" and "line_actions lg = []"
    and "EvDo req \<in> set es" and "EvPresign key \<in> set es"
    and "clientDo m req (fetch_world m key w) = (answer, w1)"
    and "case answer of Inl _ \<Rightarrow> True | Inr resp \<Rightarrow> StatusCode resp \<noteq> 200 \<and> StatusCode resp \<noteq> 304"
  shows "seen_entry m key w \<noteq> None \<and>
    ShouldFallback (fallback m) (case answer of Inl e \<Rightarrow> Some e | Inr _ \<Rightarrow> None)
      (case answer of Inl _ \<Rightarrow> 0 | Inr resp \<Rightarrow> StatusCode resp)"
proof -
  have "EvDo req \<in> set (verdict_calls key (verdict_of m key accept kh w))"
    and presign: "EvPresign key \<in> set (verdict_calls key (verdict_of m key accept kh w))"
    using assms(3,4) calls_mem [of "EvDo req" es] calls_mem [of "EvPresign key" es]
      exec_fetchAndCache [OF assms(1,2)] by auto
  then have "verdict_of m key accept kh w = Fetched req (aftermath_of m key kh (seen_entry m key w) answer w1)"
    using verdict_fetched assms(5) by (metis fst_conv snd_conv)
  with presign assms(6) show ?thesis
    by (auto simp: aftermath_of_def upstreamUnchanged_def split: sum.splits if_splits)
qed

theorem stale_only_by_policy_witness:
  "\<exists>r es w'. exec (fetchAndCache (demo (Some (demo_entry ''no-cache''))
      (Inr \<lparr>StatusCode = 503, RespHeader = [], RespBody = ([], None)\<rparr>) None False) [] demo_key [] []) () r es w' \<and>
    ShouldFallback \<lparr>OnConnectionError = True, On5xx = True, OnAnyError = False\<rparr> None 503"
proof -
  let ?resp = "\<lparr>StatusCode = 503, RespHeader = [], RespBody = ([], None)\<rparr>"
  let ?m = "demo (Some (demo_entry ''no-cache'')) (Inr ?resp) None False"
  let ?req = "demo_request [(''If-None-Match'', [[DQUOTE, CHR ''a'', DQUOTE]])]"
  obtain r es w' where r: "exec (fetchAndCache ?m [] demo_key [] []) () r es w'" by (rule some_run)
  have c: "calls es = [EvHead demo_key, EvDo ?req, EvPresign demo_key]"
    using exec_fetchAndCache [OF r] by (simp add: demo_verdicts)
  then have "EvDo ?req \<in> set es" "EvPresign demo_key \<in> set es"
    using calls_mem [of "EvDo ?req" es] calls_mem [of "EvPresign demo_key" es] by auto
  from stale_only_by_policy [OF r _ this, of "Inr ?resp" "()"] r show ?thesis by auto
qed

text \<open>
  C7. A failed cache write is never masked: with a changed 200 from upstream and an upload that
  fails, the run ends in an error and presigns nothing, whatever the fallback policy says.
\<close>

theorem write_failure_never_masked:
  assumes "exec (fetchAndCache m lg key accept kh) w r es w'" and "line_actions lg = []"
    and "EvDo req \<in> set es"
    and "clientDo m req (fetch_world m key w) = (Inr resp, w1)" and "StatusCode resp = 200"
    and "\<not> snd (upstreamUnchanged resp (Option.bind (seen_entry m key w) Headers))"
    and "fst (cachePut (cache m) key (RespHeader resp) (RespBody resp) w1) = Some err"
  shows "isl r \<and> calls es = [EvHead key, EvDo req, EvPut key (RespHeader resp)] \<and> EvPresign key \<notin> set es"
proof -
  have "EvDo req \<in> set (verdict_calls key (verdict_of m key accept kh w))"
    using assms(3) calls_mem [of "EvDo req" es] exec_fetchAndCache [OF assms(1,2)] by auto
  then have "verdict_of m key accept kh w = Fetched req (aftermath_of m key kh (seen_entry m key w) (Inr resp) w1)"
    using verdict_fetched assms(4) by (metis fst_conv snd_conv)
  moreover have "aftermath_of m key kh (seen_entry m key w) (Inr resp) w1 = StoreFailed (RespHeader resp)"
    using assms(5-7) by (simp add: aftermath_of_def)
  ultimately have "verdict_of m key accept kh w = Fetched req (StoreFailed (RespHeader resp))" by simp
  with exec_fetchAndCache [OF assms(1,2)]
  have c: "calls es = [EvHead key, EvDo req, EvPut key (RespHeader resp)]" and "isl r" by auto
  moreover have "EvPresign key \<notin> set es" using calls_mem [of "EvPresign key" es] c by simp
  ultimately show ?thesis by simp
qed

theorem write_failure_never_masked_witness:
  "\<exists>r es w'. exec (fetchAndCache (demo None (Inr \<lparr>StatusCode = 200, RespHeader = [], RespBody = ([], None)\<rparr>)
      (Some (ErrPlain ''full'')) True) [] demo_key [] []) () r es w' \<and> isl r"
proof -
  let ?resp = "\<lparr>StatusCode = 200, RespHeader = [], RespBody = ([], None)\<rparr>"
  let ?m = "demo None (Inr ?resp) (Some (ErrPlain ''full'')) True"
  obtain r es w' where r: "exec (fetchAndCache ?m [] demo_key [] []) () r es w'" by (rule some_run)
  have "calls es = [EvHead demo_key, EvDo (demo_request []), EvPut demo_key []]"
    using exec_fetchAndCache [OF r] by (simp add: demo_verdicts)
  then have "EvDo (demo_request []) \<in> set es" using calls_mem [of "EvDo (demo_request [])" es] by auto
  from write_failure_never_masked [OF r _ this, of ?resp "()" "ErrPlain ''full''"] r show ?thesis
    by (auto simp: upstreamUnchanged_def etagStrongMatch_def HasPrefix_def)
qed

text \<open>
  C8. What upstream is asked. For a target read from a request path, the request is a GET for exactly
  the keyed host, path and query (up to a hash), and it carries three headers at most: the client's
  Accept set, and the validators of the cached entry - so no client header and no invented validator
  reaches upstream.
\<close>

theorem upstream_request_exact:
  assumes "parseTargetURL path q = Inr u" and "buildUpstreamRequest ip u accept cached = Inr req"
  shows "UpMethod req = ''GET'' \<and> Scheme (UpURL req) = ''https'' \<and>
    Host (UpURL req) = removeEmptyPort (Host u) \<and> Path (UpURL req) = Path u \<and>
    RawQuery (UpURL req) = before_hash q \<and> User (UpURL req) = None \<and>
    hdr_Values (UpHeader req) k =
      (let etag = hdr_Get (hdr_of cached) ''ETag''; modified = hdr_Get (hdr_of cached) ''Last-Modified'';
           c = CanonicalHeaderKey k
       in if c = ''Accept'' \<and> accept \<noteq> [] then [accept]
          else if c = ''If-None-Match'' \<and> etag \<noteq> [] then [etag]
          else if c = ''If-Modified-Since'' \<and> modified \<noteq> [] then [modified] else [])"
proof -
  from assms(1) have u: "Scheme u = ''https''" "rooted (Path u)" "RawQuery u = q"
    by (simp_all add: parseTargetURL_iff)
  from build_target [OF assms(2)] have m: "UpMethod req = ''GET''"
    and v: "NewRequest_url ip (URL_String u) = Inr (UpURL req)" by auto
  from NewRequest_of_target [OF u(1,2) v] build_headers [OF assms(2)] m u(3) show ?thesis
    by (simp only: simp_thms)
qed

theorem upstream_request_exact_witness:
  "hdr_Values (UpHeader (demo_request [(''If-None-Match'', [[DQUOTE, CHR ''a'', DQUOTE]])])) ''Cookie'' = []"
proof -
  have "parseTargetURL ''/h/x'' [] = Inr (KeyURL demo_key)" by code_simp
  from upstream_request_exact [OF this demo_builds(2) [of "''x''"], of "''Cookie''"] show ?thesis
    by (simp add: CanonicalHeaderKey_def Let_def del: canonical_names)
qed



text \<open>
  Flag off is legacy behaviour: neither the freshness cap nor the clock has any influence on a
  run - it is the same run with any other cap and clock - and nothing is ever touched.
\<close>

theorem flag_off_is_legacy:
  assumes "\<not> honorFreshness m" and "exec (fetchAndCache m lg key accept kh) w r es w'"
    and "line_actions lg = []"
  shows "exec (fetchAndCache (m\<lparr>freshnessCap := c, timeNow := clk\<rparr>) lg key accept kh) w r es w' \<and>
    EvTouch k e h \<notin> set es"
proof -
  have steps: "headEntry (m\<lparr>freshnessCap := c, timeNow := clk\<rparr>) = headEntry m" "presign (m\<lparr>freshnessCap := c, timeNow := clk\<rparr>) = presign m"
    "handleNon200 (m\<lparr>freshnessCap := c, timeNow := clk\<rparr>) = handleNon200 m"
    by (simp_all add: fun_eq_iff headEntry_def presign_def handleNon200_def)
  have off: "evaluateFreshness m entry kh = State_Monad.return None"
    "evaluateFreshness (m\<lparr>freshnessCap := c, timeNow := clk\<rparr>) entry kh = State_Monad.return None"
    "maybeTouch m lg key entry v kh = skip" "maybeTouch (m\<lparr>freshnessCap := c, timeNow := clk\<rparr>) lg key entry v kh = skip"
    for lg entry v
    using assms by (simp_all add: evaluateFreshness_def maybeTouch_def split: option.splits)
  have resp: "handleResponse (m\<lparr>freshnessCap := c, timeNow := clk\<rparr>) lg key entry kh resp = handleResponse m lg key entry kh resp"
    for lg entry resp
    by (simp add: handleResponse_def steps off Let_def cong del: sum.case_cong_weak option.case_cong_weak if_weak_cong)
  have "fetchUpstream (m\<lparr>freshnessCap := c, timeNow := clk\<rparr>) lg key entry accept kh = fetchUpstream m lg key entry accept kh"
    for lg entry
    by (simp add: fetchUpstream_def steps resp Let_def cong del: sum.case_cong_weak if_weak_cong)
  then have "fetchAndCache (m\<lparr>freshnessCap := c, timeNow := clk\<rparr>) lg key accept kh = fetchAndCache m lg key accept kh"
    by (simp add: fetchAndCache_def steps off)
  moreover have "EvTouch k e h \<notin> set es"
  proof
    assume "EvTouch k e h \<in> set es"
    then have "EvTouch k e h \<in> set (verdict_calls key (verdict_of m key accept kh w))"
      using calls_mem [of "EvTouch k e h" es] exec_fetchAndCache [OF assms(2,3)] by auto
    then show False
      using assms(1) by (auto simp: verdict_of_def touch_in_aftermath aftermath_of_def touchable_def
          split: if_splits sum.splits prod.splits option.splits)
  qed
  ultimately show ?thesis using assms(2) by simp
qed

theorem flag_off_is_legacy_witness:
  "\<exists>r es w'. exec (fetchAndCache (demo None (Inl (ErrNet ''down'')) None False) [] demo_key [] []) () r es w' \<and>
    EvTouch demo_key (demo_entry []) [] \<notin> set es"
proof -
  obtain r es w' where r: "exec (fetchAndCache (demo None (Inl (ErrNet ''down'')) None False) [] demo_key [] []) () r es w'"
    by (rule some_run)
  from flag_off_is_legacy [OF _ r, of "\<lambda>w. (5, w)" 0 demo_key "demo_entry []" "[]"] r show ?thesis by auto
qed

text \<open>
  C16. One action per decision. A run logs at most one \<open>action\<close>, and none only when the upstream
  request could not be built or the upload failed - so every run that returns a URL logs exactly one.
\<close>

theorem one_action_logged:
  assumes "exec (fetchAndCache m lg key accept kh) w r es w'" and "line_actions lg = []"
  shows "length (actions es) \<le> 1 \<and>
    (actions es = [] \<longleftrightarrow> verdict_of m key accept kh w = Unbuildable \<or>
      (\<exists>req h. verdict_of m key accept kh w = Fetched req (StoreFailed h))) \<and>
    (\<not> isl r \<longrightarrow> length (actions es) = 1)"
proof -
  have *: "length (verdict_actions c v) \<le> 1 \<and>
      (verdict_actions c v = [] \<longleftrightarrow> v = Unbuildable \<or> (\<exists>req h. v = Fetched req (StoreFailed h)))" for c v
    by (induction c v rule: verdict_actions.induct) auto
  have none: "v = Unbuildable \<or> (\<exists>req h. v = Fetched req (StoreFailed h)) \<Longrightarrow> v = verdict_of m key accept kh w \<Longrightarrow> isl r" for v
    using exec_fetchAndCache [OF assms] by auto
  have "length (actions es) \<noteq> 1 \<Longrightarrow> isl r"
    using exec_fetchAndCache [OF assms] * none
    by (metis (no_types, lifting) One_nat_def le_Suc_eq le_zero_eq length_0_conv)
  then show ?thesis using exec_fetchAndCache [OF assms] * by metis
qed

theorem one_action_logged_witness:
  "\<exists>r es w'. exec (fetchAndCache (demo None (Inr \<lparr>StatusCode = 200, RespHeader = [], RespBody = ([], None)\<rparr>)
      (Some (ErrPlain ''full'')) True) [] demo_key [] []) () r es w' \<and> actions es = []"
proof -
  let ?m = "demo None (Inr \<lparr>StatusCode = 200, RespHeader = [], RespBody = ([], None)\<rparr>) (Some (ErrPlain ''full'')) True"
  obtain r es w' where r: "exec (fetchAndCache ?m [] demo_key [] []) () r es w'" by (rule some_run)
  from one_action_logged [OF r] r show ?thesis by (auto simp: demo_verdicts)
qed

text \<open>
  A lookup that errors is a miss: the run serves nothing fresh and nothing stale, and what it asks
  upstream carries no validator.
\<close>

theorem head_error_is_miss:
  assumes "exec (fetchAndCache m lg key accept kh) w r es w'" and "line_actions lg = []"
    and "cacheHead (cache m) key w = (Inl err, w1)"
  shows "actions es \<in> {[''cached''], [''error''], []} \<and>
    (EvDo req \<in> set es \<longrightarrow>
      hdr_Get (UpHeader req) ''If-None-Match'' = [] \<and> hdr_Get (UpHeader req) ''If-Modified-Since'' = [])"
proof
  have none: "seen_entry m key w = None" using assms(3) by (simp add: seen_entry_def)
  then have "verdict_of m key accept kh w = Unbuildable \<or>
      (\<exists>req a. verdict_of m key accept kh w = Fetched req a \<and> (a = Refused \<or> (\<exists>h. a = Stored h \<or> a = StoreFailed h)))"
    by (auto simp: verdict_of_def fresh_hit_def split: sum.split prod.split) (metis aftermath_miss)
  then show "actions es \<in> {[''cached''], [''error''], []}"
    using exec_fetchAndCache [OF assms(1,2)] none by auto
  show "EvDo req \<in> set es \<longrightarrow>
      hdr_Get (UpHeader req) ''If-None-Match'' = [] \<and> hdr_Get (UpHeader req) ''If-Modified-Since'' = []"
  proof
    assume "EvDo req \<in> set es"
    then have "EvDo req \<in> set (verdict_calls key (verdict_of m key accept kh w))"
      using calls_mem [of "EvDo req" es] exec_fetchAndCache [OF assms(1,2)] by auto
    then have "buildUpstreamRequest (ip6 m) (KeyURL key) accept None = Inr req"
      using verdict_fetched none by (fastforce simp: fetch_request_def)
    then show "hdr_Get (UpHeader req) ''If-None-Match'' = [] \<and> hdr_Get (UpHeader req) ''If-Modified-Since'' = []"
      by (simp add: hdr_Get_def build_headers)
  qed
qed

theorem head_error_is_miss_witness:
  "\<exists>r es w'. exec (fetchAndCache (demo None (Inl (ErrNet ''down'')) None True
      \<lparr>cache := (cache (demo None (Inl (ErrNet ''down'')) None True))\<lparr>cacheHead := (\<lambda>k w. (Inl (ErrPlain ''s3''), w))\<rparr>\<rparr>)
      [] demo_key [] []) () r es w' \<and> actions es \<noteq> [''stale'']"
proof -
  let ?m = "demo None (Inl (ErrNet ''down'')) None True
      \<lparr>cache := (cache (demo None (Inl (ErrNet ''down'')) None True))\<lparr>cacheHead := (\<lambda>k w. (Inl (ErrPlain ''s3''), w))\<rparr>\<rparr>"
  obtain r es w' where r: "exec (fetchAndCache ?m [] demo_key [] []) () r es w'" by (rule some_run)
  from head_error_is_miss [OF r, of "ErrPlain ''s3''" "()"] have "actions es \<noteq> [''stale'']" by auto
  with r show ?thesis by blast
qed

section \<open>Serving\<close>

text \<open>
  Requests that are not admitted reach nothing: health checks, other methods and malformed paths
  are answered with 200, 405 and 400 before the cache, upstream or the clock is touched.
\<close>

theorem rejected_without_effect:
  assumes "admit r = Rejected reply" and "exec (ServeHTTP m slog ctx r) w answer es w'"
  shows "answer = reply \<and> es = [] \<and> w' = w \<and>
    (reply = ReplyHeader 200 \<and> Path (ReqURL r) = ''/health'' \<or>
     (\<exists>msg. reply = ReplyError msg 405) \<and> Method r \<noteq> ''GET'' \<or>
     (\<exists>msg. reply = ReplyError msg 400) \<and> isl (parseTargetURL (Path (ReqURL r)) (RawQuery (ReqURL r))))"
  using assms by (auto simp: ServeHTTP_def admit_def split: if_splits sum.splits prod.splits)

theorem rejected_without_effect_witness:
  "\<exists>answer es w'. exec (ServeHTTP (demo None (Inl (ErrNet ''down'')) None True) [] \<lparr>ctx_logger = None, ctx_cancelled = False\<rparr>
      \<lparr>Method = ''POST'', ReqURL = KeyURL demo_key, ReqHeader = []\<rparr>) () answer es w' \<and> es = []"
proof -
  let ?r = "\<lparr>Method = ''POST'', ReqURL = KeyURL demo_key, ReqHeader = []\<rparr>"
  let ?p = "ServeHTTP (demo None (Inl (ErrNet ''down'')) None True) [] \<lparr>ctx_logger = None, ctx_cancelled = False\<rparr> ?r"
  have a: "admit ?r = Rejected (ReplyError (Text ''Only GET requests are supported'') 405)"
    by (simp add: admit_def demo_key_def)
  obtain answer es w' where r: "exec ?p () answer es w'" by (rule some_run)
  from rejected_without_effect [OF a r] have "es = []" by (elim conjE)
  with r show ?thesis by blast
qed



end
