(* ===== verification/Mirror.thy ===== *)
theory Mirror
  imports S3Cache FetchProperties
begin

text \<open>
  The handler of \<open>src/server.go\<close> over a cache that keeps the \<open>httpCache\<close> contract: what
  a run leaves in the cache, and that every redirect points at an entry that exists. The properties
  of the S3 implementation of the contract, \<open>src/s3_cache.go\<close>, are here too.
\<close>

section \<open>The handler against the contract\<close>

text \<open>
  Fetching from upstream and reading the clock do not touch the cache, and the HTTP client delivers
  well formed headers.
\<close>

locale mirror = http_cache +
  fixes m :: "'a cacheMiddleware"
  assumes uses_cache: "cache m = ops"
    and client_pure: "inv w \<Longrightarrow> clientDo m req w = (a, w') \<Longrightarrow> inv w' \<and> view w' = view w"
    and client_headers: "clientDo m req w = (Inr resp, w') \<Longrightarrow> wf_hdr (RespHeader resp)"
    and clock_pure: "inv w \<Longrightarrow> timeNow m w = (t, w') \<Longrightarrow> inv w' \<and> view w' = view w"
begin

abbreviation entry_ok :: "CacheKey \<Rightarrow> cachedEntry option \<Rightarrow> 'a \<Rightarrow> bool" where
  "entry_ok key entry w \<equiv> (\<forall>e. entry = Some e \<longrightarrow> wf_hdr (hdr_of (Headers e)) \<and> view w key \<noteq> None)"

text \<open>Only the entry under the key may change, and not its body.\<close>

abbreviation body_kept :: "CacheKey \<Rightarrow> 'a \<Rightarrow> 'a \<Rightarrow> bool" where
  "body_kept key w w' \<equiv> inv w' \<and> map_option sBody (view w' key) = map_option sBody (view w key) \<and>
     (\<forall>k'. key_ok k' \<longrightarrow> k' \<noteq> key \<longrightarrow> view w' k' = view w k')"

lemma headEntry_ok:
  assumes "inv w" and "key_ok key" and "exec (headEntry m lg key) w entry es w'"
  shows "inv w' \<and> view w' = view w \<and> entry_ok key entry w"
proof -
  obtain r w1 where h: "cacheHead ops key w = (r, w1)" by fastforce
  with exec_headEntry [OF assms(3)] have "w' = w1" and e: "entry = (case r of Inl _ \<Rightarrow> None | Inr e \<Rightarrow> e)"
    by (auto simp: uses_cache)
  moreover have "entry_ok key entry w"
  proof (intro allI impI)
    fix e0 assume "entry = Some e0"
    with e h have "cacheHead ops key w = (Inr (Some e0), w1)" by (cases r) auto
    from head_view [OF assms(1,2) this] show "wf_hdr (hdr_of (Headers e0)) \<and> view w key \<noteq> None" by auto
  qed
  ultimately show ?thesis using head_pure [OF assms(1) h] by simp
qed

lemma presign_ok: "inv w \<Longrightarrow> exec (presign m key) w r es w' \<Longrightarrow> inv w' \<and> view w' = view w"
  by (drule exec_presign) (metis presign_pure prod.collapse uses_cache)

lemma evaluateFreshness_ok:
  "inv w \<Longrightarrow> exec (evaluateFreshness m entry kh) w g es w' \<Longrightarrow> inv w' \<and> view w' = view w"
  by (drule exec_evaluateFreshness) (metis clock_pure prod.collapse)

lemma handleNon200_ok: "inv w \<Longrightarrow> exec (handleNon200 m lg key s c) w r es w' \<Longrightarrow>
    inv w' \<and> view w' = view w \<and> (\<not> isl r \<longrightarrow> c)"
  by (auto simp: handleNon200_def exec_bind framed dest: presign_ok split: if_splits)

lemma maybeTouch_ok:
  assumes "inv w" and "key_ok key" and "wf_hdr v" and "entry_ok key entry w"
    and "exec (maybeTouch m lg key entry v kh) w u es w'"
  shows "body_kept key w w'"
proof -
  obtain t w1 where t: "timeNow m w = (t, w1)" by fastforce
  then have w1: "inv w1" "view w1 = view w" using clock_pure [OF assms(1)] by auto
  have touch: "body_kept key w w2"
    if "cacheTouch (cache m) key e (Merge (Headers e) v) w1 = (r, w2)" and "entry = Some e" for e r w2
  proof -
    from that assms(4) have wf: "wf_hdr (Merge (Headers e) v)" by simp
    from that have c: "cacheTouch ops key e (Merge (Headers e) v) w1 = (r, w2)" by (simp add: uses_cache)
    have "view w2 k' = view w1 k'" if "key_ok k'" "k' \<noteq> key" for k'
    proof (cases r)
      case None
      with touch_view [OF w1(1) assms(2) wf] c that show ?thesis by (metis (mono_tags))
    next
      case (Some err)
      with touch_fail [OF w1(1)] c show ?thesis by simp
    qed
    with touch_keeps_bodies [OF w1(1) assms(2) wf c assms(2)] touch_inv [OF w1(1) assms(2) wf c] w1(2)
    show ?thesis by simp
  qed
  from assms(5) t have "w' = w \<or> w' = w1 \<or>
      (\<exists>e r. entry = Some e \<and> cacheTouch (cache m) key e (Merge (Headers e) v) w1 = (r, w'))"
    by (auto simp: maybeTouch_def exec_bind framed Let_def split: option.splits if_splits)
  with touch w1 assms(1) show ?thesis by auto
qed

text \<open>
  The entry under the key after a run: the old body, or what upstream sent if the run stored it.
\<close>

abbreviation same_content :: "CacheKey \<Rightarrow> 'a \<Rightarrow> 'a \<Rightarrow> go_error + string \<Rightarrow> bool" where
  "same_content key w w' r \<equiv> body_kept key w w' \<and> (\<not> isl r \<longrightarrow> view w key \<noteq> None)"

abbreviation new_content :: "CacheKey \<Rightarrow> 'a \<Rightarrow> 'a \<Rightarrow> Response \<Rightarrow> bool" where
  "new_content key w w' resp \<equiv> inv w' \<and> snd (RespBody resp) = None \<and>
     (\<forall>k'. key_ok k' \<longrightarrow> k' \<noteq> key \<longrightarrow> view w' k' = view w k') \<and>
     (\<exists>s. view w' key = Some s \<and> sBody s = fst (RespBody resp) \<and> sHeaders s = storable (RespHeader resp))"

lemma handleResponse_ok:
  assumes "inv w" and "key_ok key" and "wf_hdr (RespHeader resp)" and "entry_ok key entry w"
    and "exec (handleResponse m lg key entry kh resp) w r es w'"
  shows "if \<exists>h. aftermath_of m key kh entry (Inr resp) w = Stored h then new_content key w w' resp
    else same_content key w w' r"
proof (cases "snd (upstreamUnchanged resp (Option.bind entry Headers))")
  case True
  then obtain reason where u: "upstreamUnchanged resp (Option.bind entry Headers) = (reason, True)"
    by (metis prod.collapse)
  from assms(5) obtain es1 w1 es2 where 1: "exec (maybeTouch m (lg @ [HeaderAttrs ''upstream_response_headers'' (RespHeader resp)])
      key entry (RespHeader resp) kh) w () es1 w1" and 2: "exec (presign m key) w1 r es2 w'"
    by (auto simp: handleResponse_def u Let_def exec_bind framed)
  from maybeTouch_ok [OF assms(1-4) 1] have "body_kept key w w1" .
  moreover from this presign_ok [OF _ 2] have "inv w'" "view w' = view w1" by auto
  moreover have "view w key \<noteq> None" using upstreamUnchanged_entry [OF True] assms(4) by auto
  ultimately show ?thesis using True by (simp add: aftermath_of_def)
next
  case False
  then obtain reason where u: "upstreamUnchanged resp (Option.bind entry Headers) = (reason, False)"
    by (metis prod.collapse)
  show ?thesis
  proof (cases "StatusCode resp = 200")
    case False
    with assms(5) u have "exec (handleNon200 m (lg @ [HeaderAttrs ''upstream_response_headers'' (RespHeader resp)])
        key (StatusCode resp) (entry \<noteq> None)) w r es w'"
      by (simp add: handleResponse_def Let_def)
    from handleNon200_ok [OF assms(1) this] assms(4) False u show ?thesis
      by (auto simp: aftermath_of_def)
  next
    case True
    obtain err w1 where p: "cachePut ops key (RespHeader resp) (RespBody resp) w = (err, w1)" by fastforce
    show ?thesis
    proof (cases err)
      case None
      from put_view [OF assms(1-3) p [unfolded None]] obtain tag where w1: "inv w1" "snd (RespBody resp) = None"
        and v: "\<forall>k'. key_ok k' \<longrightarrow> view w1 k' = (if k' = key
          then Some \<lparr>sHeaders = storable (RespHeader resp), sBody = fst (RespBody resp), sTag = tag\<rparr> else view w k')"
        by blast
      from assms(5) u True p None obtain es2 where "exec (presign m key) w1 r es2 w'"
        by (auto simp: handleResponse_def Let_def exec_bind framed uses_cache split: if_splits)
      from presign_ok [OF w1(1) this] w1 v assms(2) True u p None show ?thesis
        by (auto simp: aftermath_of_def uses_cache)
    next
      case (Some e)
      from assms(5) u True p Some have "w' = w1" "isl r"
        by (auto simp: handleResponse_def Let_def exec_bind framed uses_cache)
      with put_fail [OF assms(1) p [unfolded Some]] True u p Some show ?thesis
        by (simp add: aftermath_of_def uses_cache)
    qed
  qed
qed

lemma fetchUpstream_ok:
  assumes "inv w" and "key_ok key" and "entry_ok key entry w"
    and "exec (fetchUpstream m lg key entry accept kh) w r es w'"
  shows "case buildUpstreamRequest (ip6 m) (KeyURL key) accept (Option.bind entry Headers) of
      Inl _ \<Rightarrow> same_content key w w' r
    | Inr req \<Rightarrow> (case clientDo m req w of (answer, w1) \<Rightarrow>
        if \<exists>h. aftermath_of m key kh entry answer w1 = Stored h
        then \<exists>resp. answer = Inr resp \<and> new_content key w w' resp else same_content key w w' r)"
proof (cases "buildUpstreamRequest (ip6 m) (KeyURL key) accept (Option.bind entry Headers)")
  case (Inl e)
  with assms show ?thesis by (simp add: fetchUpstream_def Let_def)
next
  case (Inr req)
  obtain answer w1 where a: "clientDo m req w = (answer, w1)" by fastforce
  from client_pure [OF assms(1) a] have w1: "inv w1" "view w1 = view w" by auto
  show ?thesis
  proof (cases answer)
    case (Inl err)
    with assms(4) Inr a w1 have "inv w' \<and> view w' = view w \<and> (\<not> isl r \<longrightarrow> entry \<noteq> None)"
      by (auto simp: fetchUpstream_def exec_bind framed Let_def split: if_splits dest: presign_ok)
    with Inr a Inl assms(3) show ?thesis by (auto simp: aftermath_of_def)
  next
    case (Inr resp)
    note resp = this
    from assms(4) \<open>buildUpstreamRequest _ _ _ _ = Inr req\<close> a resp obtain lg' es2 where
      "exec (handleResponse m lg' key entry kh resp) w1 r es2 w'"
      by (auto simp: fetchUpstream_def exec_bind framed Let_def)
    from handleResponse_ok [OF w1(1) assms(2) client_headers [OF a [unfolded resp]] _ this] assms(3) w1(2)
      \<open>buildUpstreamRequest _ _ _ _ = Inr req\<close> a resp
    show ?thesis by (auto split: if_splits)
  qed
qed

lemma seen_entry_ok:
  assumes "inv w" and "key_ok key"
  shows "entry_ok key (seen_entry m key w) w"
proof (intro allI impI)
  fix e assume "seen_entry m key w = Some e"
  then obtain w1 where "cacheHead ops key w = (Inr (Some e), w1)"
    by (auto simp: seen_entry_def uses_cache split: sum.splits) (metis prod.collapse)
  from head_view [OF assms this] show "wf_hdr (hdr_of (Headers e)) \<and> view w key \<noteq> None" by auto
qed

lemma fetch_world_ok: "inv w \<Longrightarrow> inv (fetch_world m key w) \<and> view (fetch_world m key w) = view w"
proof -
  assume w: "inv w"
  obtain r w1 where h: "cacheHead ops key w = (r, w1)" by fastforce
  from head_pure [OF w h] have w1: "inv w1" "view w1 = view w" by auto
  obtain t w2 where t: "timeNow m w1 = (t, w2)" by fastforce
  from clock_pure [OF w1(1) t] w1 h t show ?thesis
    by (simp add: fetch_world_def uses_cache Let_def)
qed

lemma fetchAndCache_ok:
  assumes "inv w" and "key_ok key" and "exec (fetchAndCache m lg key accept kh) w r es w'" and "line_actions lg = []"
  shows "case verdict_of m key accept kh w of
      Fetched req (Stored h) \<Rightarrow>
        (\<exists>resp. fst (clientDo m req (fetch_world m key w)) = Inr resp \<and> new_content key w w' resp)
    | _ \<Rightarrow> same_content key w w' r"
proof -
  note entry = seen_entry_ok [OF assms(1,2)]
  from fetch_world_ok [OF assms(1), of key] have fw: "inv (fetch_world m key w)" "view (fetch_world m key w) = view w"
    by auto
  obtain es2 where step: "if fresh_hit m key kh w then \<exists>es3. exec (presign m key) (fetch_world m key w) r es3 w'
     else \<exists>lg'. exec (fetchUpstream m lg' key (seen_entry m key w) accept kh) (fetch_world m key w) r es2 w'"
    using exec_fetchAndCache_steps [OF assms(3,4)] by (metis (mono_tags, lifting))
  show ?thesis
  proof (cases "fresh_hit m key kh w")
    case True
    with step presign_ok [OF fw(1)] have "inv w' \<and> view w' = view w" using fw(2) by auto
    moreover have "view w key \<noteq> None" using True entry by (auto simp: fresh_hit_def split: option.splits)
    ultimately show ?thesis using True by (simp add: verdict_of_def)
  next
    case False
    with step obtain lg' where
      "exec (fetchUpstream m lg' key (seen_entry m key w) accept kh) (fetch_world m key w) r es2 w'" by auto
    from fetchUpstream_ok [OF fw(1) assms(2) _ this] entry fw(2) False show ?thesis
      by (auto simp: verdict_of_def fetch_request_def split: sum.splits prod.splits if_splits aftermath.splits)
  qed
qed

end

section \<open>The handler over S3\<close>

lemma s3_contract:
  assumes "s3_service s3 object" and "CHR ''/'' \<notin> set b"
  shows "http_cache (s3_httpCache \<lparr>s3c = s3, bucket = b, prefix = p\<rparr>) (stored_view object b p) target_key
    (written_here object b p)"
  by (rule s3_cache.cache_contract) (simp add: s3_cache_def s3_cache_axioms_def assms)

lemma s3_touch_observed:
  assumes "s3_service s3 object" and "CHR ''/'' \<notin> set b"
    and "s3_Touch \<lparr>s3c = s3, bucket = b, prefix = p\<rparr> k e h w = (None, w')" and "Size e \<le> copyObjectSizeLimit"
  shows "\<exists>s. stored_view object b p w k = Some s \<and> sTag s = ObjectETag e"
proof -
  have "s3_cache s3 object b" by (simp add: s3_cache_def s3_cache_axioms_def assms)
  from s3_cache.touch_copies [OF this assms(3,4)] show ?thesis by (auto simp: stored_view_def)
qed

definition outside_leaves_objects ::
    "'w cacheMiddleware \<Rightarrow> ('w \<Rightarrow> string \<Rightarrow> string \<Rightarrow> s3_object option) \<Rightarrow> bool" where
  "outside_leaves_objects m object \<longleftrightarrow>
     (\<forall>req w. object (snd (clientDo m req w)) = object w) \<and> (\<forall>w. object (snd (timeNow m w)) = object w)"

definition client_headers_wf :: "'w cacheMiddleware \<Rightarrow> bool" where
  "client_headers_wf m \<longleftrightarrow>
     (\<forall>req w resp. fst (clientDo m req w) = Inr resp \<longrightarrow> wf_hdr (RespHeader resp))"

lemma s3_mirror:
  assumes "s3_service s3 object" and "CHR ''/'' \<notin> set b"
    and "cache m = s3_httpCache \<lparr>s3c = s3, bucket = b, prefix = p\<rparr>"
    and "outside_leaves_objects m object" and "client_headers_wf m"
  shows "mirror (s3_httpCache \<lparr>s3c = s3, bucket = b, prefix = p\<rparr>) (stored_view object b p) target_key
    (written_here object b p) m"
proof (intro mirror.intro mirror_axioms.intro)
  have same: "object w' = object w \<Longrightarrow>
      written_here object b p w' = written_here object b p w \<and> stored_view object b p w' = stored_view object b p w" for w w'
    by (simp add: written_here_def stored_view_def fun_eq_iff)
  show "http_cache (s3_httpCache \<lparr>s3c = s3, bucket = b, prefix = p\<rparr>) (stored_view object b p) target_key
    (written_here object b p)"
    using assms(1,2) by (rule s3_contract)
  show "cache m = s3_httpCache \<lparr>s3c = s3, bucket = b, prefix = p\<rparr>" by (rule assms(3))
  fix w req a w'
  assume "written_here object b p w" "clientDo m req w = (a, w')"
  with same assms(4) show "written_here object b p w' \<and> stored_view object b p w' = stored_view object b p w"
    by (metis outside_leaves_objects_def snd_conv)
next
  fix w req resp w'
  assume "clientDo m req w = (Inr resp, w')"
  with assms(5) show "wf_hdr (RespHeader resp)" by (metis client_headers_wf_def fst_conv)
next
  have same: "object w' = object w \<Longrightarrow>
      written_here object b p w' = written_here object b p w \<and> stored_view object b p w' = stored_view object b p w" for w w'
    by (simp add: written_here_def stored_view_def fun_eq_iff)
  fix w t w'
  assume "written_here object b p w" "timeNow m w = (t, w')"
  with same assms(4) show "written_here object b p w' \<and> stored_view object b p w' = stored_view object b p w"
    by (metis outside_leaves_objects_def snd_conv)
qed

text \<open>A mirror in front of an upstream that always answers the same, over the in-memory S3.\<close>

definition mem_mirror :: "Response \<Rightarrow> mem_s3 cacheMiddleware" where
  "mem_mirror resp =
     \<lparr>cache = s3_httpCache \<lparr>s3c = mem_client, bucket = ''bucket'', prefix = ''cache''\<rparr>,
      clientDo = (\<lambda>req w. (Inr resp, w)), timeNow = (\<lambda>w. (int (mem_counter w), w)), ip6 = (\<lambda>_. False),
      fallback = \<lparr>OnConnectionError = True, On5xx = True, OnAnyError = False\<rparr>,
      honorFreshness = True, freshnessCap = 10\<rparr>"

definition mem_response :: Response where
  "mem_response = \<lparr>StatusCode = 200, RespHeader = [(''Etag'', [[DQUOTE, CHR ''a'', DQUOTE]])], RespBody = (''hello'', None)\<rparr>"

definition empty_s3 :: mem_s3 where
  "empty_s3 = \<lparr>mem_objects = [], mem_counter = 1\<rparr>"

lemma mem_mirror_ok:
  "cache (mem_mirror resp) = s3_httpCache \<lparr>s3c = mem_client, bucket = ''bucket'', prefix = ''cache''\<rparr>"
  "outside_leaves_objects (mem_mirror resp) mem_object"
  "wf_hdr (RespHeader resp) \<Longrightarrow> client_headers_wf (mem_mirror resp)"
  by (auto simp: mem_mirror_def outside_leaves_objects_def client_headers_wf_def)

lemma mem_response_wf: "wf_hdr (RespHeader mem_response)"
  by code_simp

lemma empty_s3_ok: "written_here mem_object b p empty_s3"
  by (simp add: written_here_def mem_object_def empty_s3_def)

lemma bucket_slash: "CHR ''/'' \<notin> set ''bucket''"
  by simp

interpretation run: mirror "s3_httpCache \<lparr>s3c = mem_client, bucket = ''bucket'', prefix = ''cache''\<rparr>"
    "stored_view mem_object ''bucket'' ''cache''" target_key "written_here mem_object ''bucket'' ''cache''"
    "mem_mirror mem_response"
  by (rule s3_mirror [OF mem.s3_service_axioms bucket_slash mem_mirror_ok(1,2) mem_mirror_ok(3) [OF mem_response_wf]])

lemma demo_target: "target_key demo_key"
  by (simp add: target_key_def demo_key_def rooted_def)



section \<open>Properties\<close>





text \<open>
  C14. A touch that lost the race is harmless. If between the lookup and the touch another instance
  replaced the object (its tag is no longer the one observed) or it is gone, the touch changes no
  entry, and one that S3 is asked for - the size is within the copy limit - reports an error.
\<close>

theorem touch_lost_race_harmless:
  assumes "s3_service s3 object" and "CHR ''/'' \<notin> set b" and "written_here object b p w"
    and "target_key k" and "wf_hdr h"
    and "s3_Touch \<lparr>s3c = s3, bucket = b, prefix = p\<rparr> k e h w = (r, w')"
    and "\<forall>s. stored_view object b p w k = Some s \<longrightarrow> sTag s \<noteq> ObjectETag e"
  shows "stored_view object b p w' = stored_view object b p w \<and> (Size e \<le> copyObjectSizeLimit \<longrightarrow> r \<noteq> None)"
proof
  from assms(7) have stale: "stored_view object b p w k = None \<or>
      (\<exists>s. stored_view object b p w k = Some s \<and> sTag s \<noteq> ObjectETag e)"
    by auto
  from http_cache.touch_lost_race [OF s3_contract [OF assms(1,2)] assms(3-5) _ stale] assms(6)
  show "stored_view object b p w' = stored_view object b p w" by simp
  show "Size e \<le> copyObjectSizeLimit \<longrightarrow> r \<noteq> None"
  proof (intro impI notI)
    assume "Size e \<le> copyObjectSizeLimit" and "r = None"
    with assms(6) have "\<exists>s. stored_view object b p w k = Some s \<and> sTag s = ObjectETag e"
      by (auto intro: s3_touch_observed [OF assms(1,2)])
    with assms(7) show False by blast
  qed
qed

definition replaced_s3 :: mem_s3 where
  "replaced_s3 = snd (s3_Put \<lparr>s3c = mem_client, bucket = ''bucket'', prefix = ''cache''\<rparr> demo_key [] (''new'', None) empty_s3)"

theorem touch_lost_race_harmless_witness:
  "fst (s3_Touch \<lparr>s3c = mem_client, bucket = ''bucket'', prefix = ''cache''\<rparr> demo_key
     (demo_entry ''no-cache'') [] replaced_s3) \<noteq> None"
proof -
  obtain err w1 where p: "s3_Put \<lparr>s3c = mem_client, bucket = ''bucket'', prefix = ''cache''\<rparr> demo_key [] (''new'', None) empty_s3
      = (err, w1)" by fastforce
  then have "err = None" by (simp add: s3_Put_def headerToMetadata_def mem_client_def mem_upload_def)
  have "wf_hdr []" by simp
  from mem.cached.put_view [OF empty_s3_ok demo_target this] p \<open>err = None\<close>
  have w1: "written_here mem_object ''bucket'' ''cache'' w1" by simp
  have w1': "w1 = replaced_s3" using p by (simp add: replaced_s3_def)
  have "\<forall>s. stored_view mem_object ''bucket'' ''cache'' replaced_s3 demo_key = Some s \<longrightarrow> sTag s = Itoa 1"
    by (simp add: stored_view_def replaced_s3_def s3_Put_def headerToMetadata_def mem_client_def mem_upload_def
        mem_store_object empty_s3_def)
  moreover have "Itoa 1 = ''1''" by code_simp
  ultimately have tag: "\<forall>s. stored_view mem_object ''bucket'' ''cache'' replaced_s3 demo_key = Some s \<longrightarrow>
      sTag s \<noteq> ObjectETag (demo_entry ''no-cache'')"
    by (auto simp: demo_entry_def)
  obtain r w' where t: "s3_Touch \<lparr>s3c = mem_client, bucket = ''bucket'', prefix = ''cache''\<rparr> demo_key
      (demo_entry ''no-cache'') [] replaced_s3 = (r, w')" by fastforce
  have "Size (demo_entry ''no-cache'') \<le> copyObjectSizeLimit" by (simp add: demo_entry_def copyObjectSizeLimit_def)
  with touch_lost_race_harmless [OF mem.s3_service_axioms bucket_slash w1 [unfolded w1'] demo_target \<open>wf_hdr []\<close> t tag] t
  show ?thesis by simp
qed

text \<open>
  Lookup outcomes. NotFound and Forbidden - what S3 answers for an absent key with and without
  permission to list - are a miss; every other failure is an error that keeps its cause; and an object
  whose metadata does not decode is an error, not a miss.
\<close>

theorem head_outcomes:
  assumes "s3_Head c k w = (r, w')" and "HeadObject (s3c c) (bucket c) (s3PathFor (prefix c) k) w = (a, w')"
  shows "case a of
      Inl err \<Rightarrow> if as_api err \<in> {Some ''NotFound'', Some ''Forbidden''} then r = Inr None
        else \<exists>e. r = Inl e \<and> as_api e = as_api err \<and> as_net_error e = as_net_error err
    | Inr out \<Rightarrow> (case metadataToHeader (ho_Metadata out) of
        Inl err \<Rightarrow> r = Inl err
      | Inr hs \<Rightarrow> \<exists>e. r = Inr (Some e) \<and> Headers e = Some hs)"
  using assms by (auto simp: s3_Head_def Let_def split: sum.splits option.splits if_splits)

theorem head_outcomes_witness:
  "fst (s3_Head \<lparr>s3c = mem_client, bucket = ''bucket'', prefix = ''cache''\<rparr> demo_key empty_s3) = Inr None"
proof -
  let ?c = "\<lparr>s3c = mem_client, bucket = ''bucket'', prefix = ''cache''\<rparr>"
  have a: "HeadObject (s3c ?c) (bucket ?c) (s3PathFor (prefix ?c) demo_key) empty_s3 =
      (Inl (ErrAPI ''NotFound'' []), empty_s3)"
    by (simp add: mem_client_def mem_head_def mem_object_def empty_s3_def)
  obtain r where r: "s3_Head ?c demo_key empty_s3 = (r, empty_s3)"
    by (simp add: s3_Head_def a [simplified] Let_def)
  from head_outcomes [OF r a] r show ?thesis by simp
qed

end
