(* ===== verification/Sharing.thy ===== *)
theory Sharing
  imports Mirror
begin

text \<open>
  Many mirrors on one bucket. A run of the handler of \<open>src/server.go\<close> is not alone: between any two of
  its calls other runs, of this mirror or of others, make calls of their own. What a run relies on is that the
  others make only calls a mirror makes, and it makes only such calls itself.
\<close>

section \<open>Calls\<close>

text \<open>A complete body that upstream gave, with status 200, for the resource and the accepted types of a key.\<close>

definition genuine :: "'w cacheMiddleware \<Rightarrow> CacheKey \<Rightarrow> string \<Rightarrow> bool" where
  "genuine m key body \<longleftrightarrow> (\<exists>cached req w resp w'.
     buildUpstreamRequest (ip6 m) (KeyURL key) (Variant key) cached = Inr req \<and>
     clientDo m req w = (Inr resp, w') \<and> StatusCode resp = 200 \<and> RespBody resp = (body, None))"

inductive mirror_call :: "(CacheKey \<Rightarrow> bool) \<Rightarrow> 'w cacheMiddleware \<Rightarrow> 'w \<Rightarrow> 'w \<Rightarrow> bool" for ok m where
  looks_up: "cacheHead (cache m) k w = (r, w') \<Longrightarrow> mirror_call ok m w w'"
| presigns: "cachePresign (cache m) k w = (u, w') \<Longrightarrow> mirror_call ok m w w'"
| uploads: "ok k \<Longrightarrow> wf_hdr h \<Longrightarrow> (snd b = None \<Longrightarrow> genuine m k (fst b)) \<Longrightarrow> cachePut (cache m) k h b w = (e, w') \<Longrightarrow>
    mirror_call ok m w w'"
| touches: "ok k \<Longrightarrow> wf_hdr h \<Longrightarrow> cacheTouch (cache m) k entry h w = (e, w') \<Longrightarrow> mirror_call ok m w w'"
| asks: "clientDo m req w = (a, w') \<Longrightarrow> mirror_call ok m w w'"
| reads_clock: "timeNow m w = (t, w') \<Longrightarrow> mirror_call ok m w w'"

text \<open>A cache, seen through a view, that holds nothing but genuine bodies.\<close>

definition genuine_cache ::
    "('w \<Rightarrow> bool) \<Rightarrow> ('w \<Rightarrow> CacheKey \<Rightarrow> stored option) \<Rightarrow> (CacheKey \<Rightarrow> bool) \<Rightarrow> 'w cacheMiddleware \<Rightarrow> 'w \<Rightarrow> bool" where
  "genuine_cache good view ok m w \<longleftrightarrow> good w \<and>
     (\<forall>k s. ok k \<longrightarrow> view w k = Some s \<longrightarrow> genuine m k (sBody s))"

definition cached_in :: "('w \<Rightarrow> CacheKey \<Rightarrow> stored option) \<Rightarrow> CacheKey \<Rightarrow> 'w \<Rightarrow> bool" where
  "cached_in view k w \<longleftrightarrow> view w k \<noteq> None"

abbreviation mirror_calls :: "(CacheKey \<Rightarrow> bool) \<Rightarrow> 'w cacheMiddleware \<Rightarrow> 'w \<Rightarrow> 'w \<Rightarrow> bool" where
  "mirror_calls ok m \<equiv> (mirror_call ok m)\<^sup>*\<^sup>*"

text \<open>The same mirror when others act before each of its calls.\<close>

definition interleaved :: "('w \<Rightarrow> 'w) \<Rightarrow> 'w cacheMiddleware \<Rightarrow> 'w cacheMiddleware" where
  "interleaved others m = m\<lparr>
     cache := \<lparr>cacheHead = (\<lambda>k w. cacheHead (cache m) k (others w)),
               cachePresign = (\<lambda>k w. cachePresign (cache m) k (others w)),
               cachePut = (\<lambda>k h b w. cachePut (cache m) k h b (others w)),
               cacheTouch = (\<lambda>k e h w. cacheTouch (cache m) k e h (others w))\<rparr>,
     clientDo := (\<lambda>req w. clientDo m req (others w)),
     timeNow := (\<lambda>w. timeNow m (others w))\<rparr>"

lemma interleaved_simps [simp]:
  "cacheHead (cache (interleaved others m)) k w = cacheHead (cache m) k (others w)"
  "cachePresign (cache (interleaved others m)) k w = cachePresign (cache m) k (others w)"
  "cachePut (cache (interleaved others m)) k h b w = cachePut (cache m) k h b (others w)"
  "cacheTouch (cache (interleaved others m)) k e h w = cacheTouch (cache m) k e h (others w)"
  "clientDo (interleaved others m) req w = clientDo m req (others w)"
  "timeNow (interleaved others m) w = timeNow m (others w)"
  "ip6 (interleaved others m) = ip6 m" "fallback (interleaved others m) = fallback m"
  "honorFreshness (interleaved others m) = honorFreshness m" "freshnessCap (interleaved others m) = freshnessCap m"
  by (simp_all add: interleaved_def)

section \<open>A logic of runs\<close>

text \<open>
  From a sound world in which \<open>P\<close> holds, \<open>p\<close> moves the world only by steps and ends in
  \<open>Q\<close>.
\<close>

definition triple ::
    "('w \<Rightarrow> bool) \<Rightarrow> ('w \<Rightarrow> 'w \<Rightarrow> bool) \<Rightarrow> ('w \<Rightarrow> bool) \<Rightarrow> ('w sys, 'a) state \<Rightarrow> ('a \<Rightarrow> 'w \<Rightarrow> bool) \<Rightarrow> bool" where
  "triple S G P p Q \<longleftrightarrow> framed p \<and>
     (\<forall>w r es w'. exec p w r es w' \<longrightarrow> S w \<longrightarrow> P w \<longrightarrow> S w' \<and> G w w' \<and> Q r w')"

lemma tripleD: "triple S G P p Q \<Longrightarrow> exec p w r es w' \<Longrightarrow> S w \<Longrightarrow> P w \<Longrightarrow> S w' \<and> G w w' \<and> Q r w'"
  by (simp add: triple_def)

lemma triple_framed: "triple S G P p Q \<Longrightarrow> framed p"
  by (simp add: triple_def)

lemma triple_bind:
  assumes "transp G" and "triple S G P p Q" and "\<And>a. triple S G (Q a) (f a) R"
  shows "triple S G P (State_Monad.bind p f) R"
  unfolding triple_def
proof (intro conjI allI impI)
  have fr: "framed p" "\<And>a. framed (f a)" using assms(2,3) by (auto dest: triple_framed)
  then show "framed (State_Monad.bind p f)" by (intro framed)
  fix w r es w'
  assume e: "exec (State_Monad.bind p f) w r es w'" and w: "S w" "P w"
  obtain a es1 w1 es2 where 1: "exec p w a es1 w1" and 2: "exec (f a) w1 r es2 w'"
    by (rule exec_bindE [OF e fr])
  from tripleD [OF assms(2) 1 w] have m: "S w1" "G w w1" "Q a w1" by auto
  from tripleD [OF assms(3) 2 m(1,3)] m(2) assms(1)
  show "S w'" "G w w'" "R r w'" by (auto dest: transpD)
qed

lemma triple_return: "reflp G \<Longrightarrow> (\<And>w. P w \<Longrightarrow> Q a w) \<Longrightarrow> triple S G P (State_Monad.return a) Q"
  by (simp add: triple_def framed_prims reflpD)

lemma triple_emit: "reflp G \<Longrightarrow> triple S G P (emit l) (\<lambda>_. P)"
  by (simp add: triple_def framed_prims reflpD)

lemma triple_perform:
  "(\<And>w r w'. f w = (r, w') \<Longrightarrow> S w \<Longrightarrow> P w \<Longrightarrow> S w' \<and> G w w' \<and> Q r w') \<Longrightarrow> triple S G P (perform ev f) Q"
  by (auto simp: triple_def framed_prims)

lemma triple_clock:
  "(\<And>w t w'. timeNow m w = (t, w') \<Longrightarrow> S w \<Longrightarrow> P w \<Longrightarrow> S w' \<and> G w w' \<and> P w') \<Longrightarrow> triple S G P (clock m) (\<lambda>_. P)"
  by (auto simp: triple_def framed_prims)

lemma triple_pre: "triple S G P' p Q \<Longrightarrow> (\<And>w. P w \<Longrightarrow> P' w) \<Longrightarrow> triple S G P p Q"
  and triple_post: "triple S G P p Q' \<Longrightarrow> (\<And>r w. Q' r w \<Longrightarrow> Q r w) \<Longrightarrow> triple S G P p Q"
  by (auto simp: triple_def)

lemma triple_if: "triple S G P p Q \<Longrightarrow> triple S G P q Q \<Longrightarrow> triple S G P (if c then p else q) Q"
  by simp

lemma triple_sum:
  "(\<And>x. triple S G (P (Inl x)) (f x) Q) \<Longrightarrow> (\<And>y. triple S G (P (Inr y)) (g y) Q) \<Longrightarrow>
   triple S G (P a) (case a of Inl x \<Rightarrow> f x | Inr y \<Rightarrow> g y) Q"
  by (cases a) simp_all

lemma triple_option:
  "triple S G (P None) p Q \<Longrightarrow> (\<And>y. triple S G (P (Some y)) (g y) Q) \<Longrightarrow>
   triple S G (P a) (case a of None \<Rightarrow> p | Some y \<Rightarrow> g y) Q"
  by (cases a) simp_all

lemma triple_fact: "framed p \<Longrightarrow> (A \<Longrightarrow> triple S G P p Q) \<Longrightarrow> triple S G (\<lambda>w. A \<and> P w) p Q"
  by (auto simp: triple_def)

section \<open>The handler among others\<close>

context mirror
begin

abbreviation sound :: "'a \<Rightarrow> bool" where
  "sound \<equiv> genuine_cache inv view key_ok m"

abbreviation present :: "CacheKey \<Rightarrow> 'a \<Rightarrow> bool" where
  "present \<equiv> cached_in view"

lemma call_sound:
  assumes "mirror_call key_ok m w w'" and s: "sound w"
  shows "sound w' \<and> (\<forall>k. key_ok k \<longrightarrow> present k w \<longrightarrow> present k w')"
proof -
  have was: "inv w \<and> (\<forall>k s. key_ok k \<longrightarrow> view w k = Some s \<longrightarrow> genuine m k (sBody s))"
    using s unfolding genuine_cache_def .
  from assms(1) show ?thesis
  proof cases
  case (looks_up k r)
  with head_pure [of w k r w'] was show ?thesis by (simp add: uses_cache genuine_cache_def cached_in_def)
next
  case (presigns k u)
  with presign_pure [of w k u w'] was show ?thesis by (simp add: uses_cache genuine_cache_def cached_in_def)
next
  case (uploads k h b e)
  have inv: "inv w" using was by blast
  have put: "cachePut ops k h b w = (e, w')" using uploads(4) by (simp add: uses_cache)
  show ?thesis
  proof (cases e)
    case None
    from put_view [OF inv uploads(1,2) put [unfolded None]] obtain tag where "inv w'" and full: "snd b = None"
      and v: "\<And>k'. key_ok k' \<Longrightarrow>
        view w' k' = (if k' = k then Some \<lparr>sHeaders = storable h, sBody = fst b, sTag = tag\<rparr> else view w k')" by blast
    moreover have "genuine m k' (sBody s)" if "key_ok k'" "view w' k' = Some s" for k' s
      using v [OF that(1)] that uploads(3) [OF full] was by (cases "k' = k") auto
    moreover have "view w' k' \<noteq> None" if "key_ok k'" "view w k' \<noteq> None" for k'
      using v [OF that(1)] that(2) by simp
    ultimately show ?thesis unfolding genuine_cache_def cached_in_def by blast
  next
    case (Some err)
    from put_fail [OF inv put [unfolded Some]] was show ?thesis by (simp add: genuine_cache_def cached_in_def)
  qed
next
  case (touches k h entry e)
  have inv: "inv w" using was by blast
  have touch: "cacheTouch ops k entry h w = (e, w')" using touches(3) by (simp add: uses_cache genuine_cache_def cached_in_def)
  have same: "map_option sBody (view w' k') = map_option sBody (view w k')" if "key_ok k'" for k'
    using touch_keeps_bodies [OF inv touches(1,2) touch that] .
  have "genuine m k' (sBody s)" if "key_ok k'" "view w' k' = Some s" for k' s
    using same [OF that(1)] that was by (cases "view w k'") auto
  moreover have "view w' k' \<noteq> None" if "key_ok k'" "view w k' \<noteq> None" for k'
    using same [OF that(1)] that(2) by (cases "view w' k'") auto
  ultimately show ?thesis using touch_inv [OF inv touches(1,2) touch] unfolding genuine_cache_def cached_in_def by blast
next
  case (asks req a)
  with client_pure [of w req a w'] was show ?thesis by (simp add: genuine_cache_def cached_in_def)
next
  case (reads_clock t)
  with clock_pure [of w t w'] was show ?thesis by (simp add: genuine_cache_def cached_in_def)
qed
qed

lemma calls_sound:
  "mirror_calls key_ok m w w' \<Longrightarrow> sound w \<Longrightarrow>
   sound w' \<and> (\<forall>k. key_ok k \<longrightarrow> present k w \<longrightarrow> present k w')"
proof (induction rule: rtranclp_induct)
  case (step w1 w2)
  from step.IH [OF step.prems] call_sound [OF step.hyps(2)] show ?case by blast
qed simp

end

locale shared_mirror = mirror +
  fixes others :: "'a \<Rightarrow> 'a"
  assumes others_call: "mirror_calls key_ok m w (others w)"
begin

abbreviation runs :: "('a \<Rightarrow> bool) \<Rightarrow> ('a sys, 'b) state \<Rightarrow> ('b \<Rightarrow> 'a \<Rightarrow> bool) \<Rightarrow> bool" where
  "runs \<equiv> triple sound (mirror_calls key_ok m)"

lemma reach: "transp (mirror_calls key_ok m)" "reflp (mirror_calls key_ok m)"
  by (auto simp: transp_def reflp_def)

lemma one_call:
  assumes "mirror_call key_ok m (others w) w'" and "sound w"
  shows "sound w' \<and> mirror_calls key_ok m w w'" and "sound (others w)"
    and "key_ok k \<Longrightarrow> present k w \<Longrightarrow> present k w'"
proof -
  have calls: "mirror_calls key_ok m w w'" using others_call assms(1) by (rule rtranclp.rtrancl_into_rtrancl)
  from calls_sound [OF this assms(2)] calls
  show "sound w' \<and> mirror_calls key_ok m w w'" "key_ok k \<Longrightarrow> present k w \<Longrightarrow> present k w'" by blast+
  from calls_sound [OF others_call assms(2)] show "sound (others w)" by blast
qed

lemmas run_bind = triple_bind [OF reach(1)]
lemmas run_return = triple_return [OF reach(2)]
lemmas run_emit = triple_emit [OF reach(2)]

abbreviation M :: "'a cacheMiddleware" where
  "M \<equiv> interleaved others m"

lemma run_perform:
  "(\<And>w r w'. f w = (r, w') \<Longrightarrow> sound w \<Longrightarrow> mirror_call key_ok m (others w) w') \<Longrightarrow> key_ok k \<Longrightarrow>
   runs (\<lambda>w. c \<longrightarrow> present k w) (perform ev f) (\<lambda>_ w. c \<longrightarrow> present k w)"
  by (rule triple_perform) (meson one_call)

lemma run_clock: "key_ok k \<Longrightarrow> runs (\<lambda>w. c \<longrightarrow> present k w) (clock M) (\<lambda>_ w. c \<longrightarrow> present k w)"
  by (rule triple_clock) (auto dest: one_call [OF reads_clock])

lemma run_presign: "key_ok k \<Longrightarrow> runs (\<lambda>w. c \<longrightarrow> present k w) (presign M key) (\<lambda>_ w. c \<longrightarrow> present k w)"
  unfolding presign_def
  by (rule run_bind [OF run_perform]) (auto intro: run_return presigns)

lemma run_served: "key_ok key \<Longrightarrow> runs (present key) (presign M key) (\<lambda>r w. \<not> isl r \<longrightarrow> present key w)"
  using triple_post [OF run_presign [of key True key]] by simp

lemma run_headEntry:
  assumes "key_ok key"
  shows "runs (\<lambda>_. True) (headEntry M lg key)
    (\<lambda>entry w. (\<forall>e. entry = Some e \<longrightarrow> wf_hdr (hdr_of (Headers e))) \<and> (entry \<noteq> None \<longrightarrow> present key w))"
  unfolding headEntry_def
proof (rule run_bind)
  show "runs (\<lambda>_. True) (perform (EvHead key) (cacheHead (cache M) key))
    (\<lambda>r w. \<forall>e. r = Inr (Some e) \<longrightarrow> wf_hdr (hdr_of (Headers e)) \<and> present key w)"
  proof (rule triple_perform)
    fix w r w' assume "cacheHead (cache M) key w = (r, w')" and w: "sound w"
    then have h: "cacheHead (cache m) key (others w) = (r, w')" by simp
    note call = one_call [OF looks_up [OF h] w]
    from call(2) have inv: "inv (others w)" by (simp add: genuine_cache_def)
    have "wf_hdr (hdr_of (Headers e)) \<and> present key w'" if "r = Inr (Some e)" for e
      using head_view [OF inv assms h [unfolded uses_cache that]] head_pure [OF inv h [unfolded uses_cache]]
      by (auto simp: cached_in_def)
    with call(1) show "sound w' \<and> mirror_calls key_ok m w w' \<and>
        (\<forall>e. r = Inr (Some e) \<longrightarrow> wf_hdr (hdr_of (Headers e)) \<and> present key w')" by blast
  qed
next
  fix a :: "go_error + cachedEntry option"
  show "runs (\<lambda>w. \<forall>e. a = Inr (Some e) \<longrightarrow> wf_hdr (hdr_of (Headers e)) \<and> present key w)
    (case a of
       Inl err \<Rightarrow> do {
         emit (log_at LevelWarn lg ''cache head error''
           [AStr ''target'' (URL_String (KeyURL key)), AErr ''error'' err]);
         State_Monad.return None }
     | Inr entry \<Rightarrow> State_Monad.return entry)
    (\<lambda>entry w. (\<forall>e. entry = Some e \<longrightarrow> wf_hdr (hdr_of (Headers e))) \<and> (entry \<noteq> None \<longrightarrow> present key w))"
  proof (cases a)
    case (Inl e)
    show ?thesis unfolding Inl sum.case by (rule run_bind [OF run_emit], rule run_return) simp
  next
    case (Inr entry)
    show ?thesis unfolding Inr sum.case by (rule run_return) auto
  qed
qed

lemma run_evaluateFreshness:
  assumes "key_ok key"
  shows "runs (\<lambda>w. entry \<noteq> None \<longrightarrow> present key w) (evaluateFreshness M entry kh)
    (\<lambda>gate w. (gate \<noteq> None \<longrightarrow> entry \<noteq> None) \<and> (entry \<noteq> None \<longrightarrow> present key w))"
  unfolding evaluateFreshness_def
  by (cases entry) (auto intro!: run_return triple_if run_bind [OF run_clock [OF assms, where c = True, simplified]])

lemma run_maybeTouch:
  assumes "key_ok key" and "wf_hdr v" and "\<forall>e. entry = Some e \<longrightarrow> wf_hdr (hdr_of (Headers e))" and "key_ok k"
  shows "runs (\<lambda>w. c \<longrightarrow> present k w) (maybeTouch M lg key entry v kh) (\<lambda>_ w. c \<longrightarrow> present k w)"
proof (cases entry)
  case None
  then show ?thesis by (auto simp: maybeTouch_def intro: run_return)
next
  case (Some e)
  with assms(2,3) have wf: "wf_hdr (Merge (Headers e) v)" by simp
  have touch: "runs (\<lambda>w. c \<longrightarrow> present k w) (perform (EvTouch key e (Merge (Headers e) v))
      (cacheTouch (cache M) key e (Merge (Headers e) v))) (\<lambda>_ w. c \<longrightarrow> present k w)"
    by (rule run_perform) (auto intro: touches assms(1,4) wf)
  show ?thesis
    unfolding maybeTouch_def Some Let_def option.case
    by (intro triple_if run_return run_bind [OF run_clock [OF assms(4)]] run_bind [OF touch])
      (auto split: option.split intro!: run_return run_emit)
qed

lemma run_handleNon200:
  "key_ok key \<Longrightarrow> runs (\<lambda>w. c \<longrightarrow> present key w) (handleNon200 M lg key status c) (\<lambda>r w. \<not> isl r \<longrightarrow> present key w)"
  unfolding handleNon200_def
  by (split if_split) (auto intro!: run_bind [OF run_emit] run_return run_served)

lemma run_put:
  assumes "key_ok key" and "wf_hdr h" and "snd b = None \<Longrightarrow> genuine m key (fst b)"
  shows "runs P (perform (EvPut key h) (cachePut (cache M) key h b)) (\<lambda>err w. err = None \<longrightarrow> present key w)"
proof (rule triple_perform)
  fix w r w' assume "cachePut (cache M) key h b w = (r, w')" and w: "sound w"
  then have p: "cachePut (cache m) key h b (others w) = (r, w')" by simp
  note call = one_call [OF uploads [where ok = key_ok and m = m, OF assms p] w]
  have inv: "inv (others w)" using call(2) by (simp add: genuine_cache_def)
  have "present key w'" if "r = None"
    using put_view [OF inv assms(1,2) p [unfolded uses_cache that]] assms(1) by (auto simp: cached_in_def)
  with call(1) show "sound w' \<and> mirror_calls key_ok m w w' \<and> (r = None \<longrightarrow> present key w')" by blast
qed

lemma run_handleResponse:
  assumes "key_ok key" and "wf_hdr (RespHeader resp)" and "\<forall>e. entry = Some e \<longrightarrow> wf_hdr (hdr_of (Headers e))"
    and "StatusCode resp = 200 \<Longrightarrow> snd (RespBody resp) = None \<Longrightarrow> genuine m key (fst (RespBody resp))"
  shows "runs (\<lambda>w. entry \<noteq> None \<longrightarrow> present key w) (handleResponse M lg key entry kh resp)
    (\<lambda>r w. \<not> isl r \<longrightarrow> present key w)"
proof -
  obtain reason same where u: "upstreamUnchanged resp (Option.bind entry Headers) = (reason, same)" by fastforce
  show ?thesis
  proof (cases same)
    case True
    have "entry \<noteq> None" using upstreamUnchanged_entry [of resp entry] u True by auto
    then have served: "runs (\<lambda>w. entry \<noteq> None \<longrightarrow> present key w) (presign M key) (\<lambda>r w. \<not> isl r \<longrightarrow> present key w)"
      using run_served [OF assms(1)] by simp
    show ?thesis
      unfolding handleResponse_def Let_def u prod.case eqTrueI [OF True] if_True
      by (intro run_bind [OF run_emit] run_bind [OF run_maybeTouch [OF assms(1,2,3,1)]] served)
  next
    case same: False
    show ?thesis
    proof (cases "StatusCode resp = 200")
      case False
      with same show ?thesis
        by (simp add: handleResponse_def Let_def u run_handleNon200 [OF assms(1)])
    next
      case True
      have put: "runs P (perform (EvPut key (RespHeader resp)) (cachePut (cache M) key (RespHeader resp) (RespBody resp)))
          (\<lambda>err w. err = None \<longrightarrow> present key w)" for P
        by (rule run_put [OF assms(1,2) assms(4) [OF True]])
      have failed: "runs (\<lambda>w. Some e = None \<longrightarrow> present key w)
          (State_Monad.return (Inl (Wrapf e ''cache %s'' [URL_String (KeyURL key)]) :: go_error + string))
          (\<lambda>r w. \<not> isl r \<longrightarrow> present key w)" for e
        by (rule run_return) simp
      have stored: "runs (present key) (do { emit l; presign M key }) (\<lambda>r w. \<not> isl r \<longrightarrow> present key w)" for l
        by (rule run_bind [OF run_emit run_served [OF assms(1)]])
      show ?thesis
        unfolding handleResponse_def Let_def u prod.case
        by (simp only: same True if_False simp_thms, rule run_bind [OF put], case_tac a)
          (simp_all only: option.case failed simp_thms, split if_split, use stored in blast)
    qed
  qed
qed

lemma run_fetchUpstream:
  assumes "key_ok key" and "\<forall>e. entry = Some e \<longrightarrow> wf_hdr (hdr_of (Headers e))"
  shows "runs (\<lambda>w. entry \<noteq> None \<longrightarrow> present key w) (fetchUpstream M lg key entry (Variant key) kh)
    (\<lambda>r w. \<not> isl r \<longrightarrow> present key w)"
proof (cases "buildUpstreamRequest (ip6 m) (KeyURL key) (Variant key) (Option.bind entry Headers)")
  case (Inl e)
  then show ?thesis by (auto simp: fetchUpstream_def Let_def intro: run_return)
next
  case (Inr req)
  let ?good = "\<lambda>resp. wf_hdr (RespHeader resp) \<and>
    (StatusCode resp = 200 \<longrightarrow> snd (RespBody resp) = None \<longrightarrow> genuine m key (fst (RespBody resp)))"
  have do: "runs (\<lambda>w. entry \<noteq> None \<longrightarrow> present key w) (perform (EvDo req) (clientDo M req))
     (\<lambda>r w. (\<forall>resp. r = Inr resp \<longrightarrow> ?good resp) \<and> (entry \<noteq> None \<longrightarrow> present key w))"
  proof (rule triple_perform)
    fix w r w' assume "clientDo M req w = (r, w')" and w: "sound w" and p: "entry \<noteq> None \<longrightarrow> present key w"
    then have d: "clientDo m req (others w) = (r, w')" by simp
    note call = one_call [OF asks [OF d] w]
    have "?good resp" if "r = Inr resp" for resp
    proof (intro conjI impI)
      show "wf_hdr (RespHeader resp)" using client_headers d that by blast
      assume "StatusCode resp = 200" "snd (RespBody resp) = None"
      with Inr d that show "genuine m key (fst (RespBody resp))" unfolding genuine_def by (metis prod.collapse)
    qed
    with call(1,3) p assms(1) show "sound w' \<and> mirror_calls key_ok m w w' \<and>
        (\<forall>resp. r = Inr resp \<longrightarrow> ?good resp) \<and> (entry \<noteq> None \<longrightarrow> present key w')" by blast
  qed
  have failed: "runs (\<lambda>w. entry \<noteq> None \<longrightarrow> present key w) (if entry \<noteq> None \<and> ShouldFallback (fallback m) (Some err) 0
      then do { emit l; presign M key } else do { emit l'; State_Monad.return (Inl e') })
      (\<lambda>r w. \<not> isl r \<longrightarrow> present key w)" for err l l' e'
    using run_served [OF assms(1)]
    by (split if_split) (auto intro!: run_bind [OF run_emit] run_return)
  show ?thesis
    unfolding fetchUpstream_def Let_def interleaved_simps(7,8) Inr sum.case
    by (rule run_bind [OF run_emit], rule run_bind [OF do], rule triple_sum, rule triple_pre [OF failed], simp,
        rule triple_fact [OF framed_handleResponse run_handleResponse [OF assms(1) _ assms(2)]]) simp_all
qed

lemma run_fetchAndCache:
  assumes "key_ok key"
  shows "runs (\<lambda>_. True) (fetchAndCache M lg key (Variant key) kh) (\<lambda>r w. \<not> isl r \<longrightarrow> present key w)"
proof -
  have hit: "runs (\<lambda>w. (Some d \<noteq> None \<longrightarrow> entry \<noteq> None) \<and> (entry \<noteq> None \<longrightarrow> present key w))
      (do { emit l; presign M key }) (\<lambda>r w. \<not> isl r \<longrightarrow> present key w)"
    for entry :: "cachedEntry option" and d :: Decision and l
    by (rule triple_pre [OF run_bind [OF run_emit run_served [OF assms]]]) simp
  have upstream: "runs (\<lambda>w. (g \<noteq> None \<longrightarrow> entry \<noteq> None) \<and> (entry \<noteq> None \<longrightarrow> present key w))
      (fetchUpstream M lg key entry (Variant key) kh) (\<lambda>r w. \<not> isl r \<longrightarrow> present key w)"
    if "\<forall>e. entry = Some e \<longrightarrow> wf_hdr (hdr_of (Headers e))" for entry lg and g :: "Decision option"
    by (rule triple_pre [OF run_fetchUpstream [OF assms that]]) simp
  show ?thesis
    unfolding fetchAndCache_def
    by (rule run_bind [OF run_headEntry [OF assms]], rule triple_fact, intro framed,
        rule run_bind [OF run_evaluateFreshness [OF assms]], rule triple_option, erule upstream,
        rule triple_if, rule hit, erule upstream)
qed

end

section \<open>Mirrors over S3\<close>

lemma s3_shared:
  assumes "s3_service s3 object" and "CHR ''/'' \<notin> set b"
    and "cache m = s3_httpCache \<lparr>s3c = s3, bucket = b, prefix = p\<rparr>"
    and "outside_leaves_objects m object" and "client_headers_wf m"
    and "\<And>w. mirror_calls target_key m w (others w)"
  shows "shared_mirror (s3_httpCache \<lparr>s3c = s3, bucket = b, prefix = p\<rparr>) (stored_view object b p) target_key
    (written_here object b p) m others"
  using s3_mirror [OF assms(1-5)] assms(6) by (simp add: shared_mirror_def shared_mirror_axioms_def)

text \<open>A second mirror that keeps storing what upstream sends.\<close>

definition busy_neighbour :: "mem_s3 \<Rightarrow> mem_s3" where
  "busy_neighbour w =
     snd (cachePut (cache (mem_mirror mem_response)) demo_key (RespHeader mem_response) (RespBody mem_response) w)"

lemma mem_genuine: "genuine (mem_mirror mem_response) demo_key ''hello''"
  unfolding genuine_def
  by (rule exI [where x = None], rule exI [where x = "demo_request []"], rule exI [where x = empty_s3],
      rule exI [where x = mem_response], rule exI [where x = empty_s3])
    (use demo_builds(1) in \<open>simp add: mem_mirror_def mem_response_def demo_key_def\<close>)

lemma busy_neighbour_call: "mirror_calls target_key (mem_mirror mem_response) w (busy_neighbour w)"
proof -
  have "cachePut (cache (mem_mirror mem_response)) demo_key (RespHeader mem_response) (RespBody mem_response) w =
      (fst (cachePut (cache (mem_mirror mem_response)) demo_key (RespHeader mem_response) (RespBody mem_response) w),
       busy_neighbour w)"
    by (simp add: busy_neighbour_def)
  moreover have "snd (RespBody mem_response) = None \<Longrightarrow>
      genuine (mem_mirror mem_response) demo_key (fst (RespBody mem_response))"
    using mem_genuine by (simp add: mem_response_def)
  ultimately have "mirror_call target_key (mem_mirror mem_response) w (busy_neighbour w)"
    using demo_target mem_response_wf by (intro mirror_call.uploads)
  then show ?thesis by (rule r_into_rtranclp)
qed

interpretation neighbours: shared_mirror "s3_httpCache \<lparr>s3c = mem_client, bucket = ''bucket'', prefix = ''cache''\<rparr>"
    "stored_view mem_object ''bucket'' ''cache''" target_key "written_here mem_object ''bucket'' ''cache''"
    "mem_mirror mem_response" busy_neighbour
  by (rule s3_shared [OF mem.s3_service_axioms bucket_slash mem_mirror_ok(1,2) mem_mirror_ok(3) [OF mem_response_wf]
        busy_neighbour_call])



end
