(* ===== verification/OciChallenge.thy ===== *)
theory OciChallenge
  imports Server
begin

text \<open>
  Bearer challenges, the first part of \<open>src/oci_auth.go\<close>: splitting authentication
  parameters at the commas that are not quoted, reading them into a map, and finding the challenge in
  a 401 response; and which repository a request path names. The main result prints a challenge and
  parses it back, whatever other challenges stand before and after it.
\<close>

section \<open>The data\<close>

record ociAuthChallenge =
  Realm :: string
  Service :: string
  Scope :: string

section \<open>Splitting\<close>

text \<open>
  The loop of \<open>splitAuthParams\<close>: inside quotes, after a backslash, the piece being built, what
  is left. Quotes and backslashes stay in the pieces.
\<close>

fun splitAuthParams_loop :: "bool \<Rightarrow> bool \<Rightarrow> string \<Rightarrow> string \<Rightarrow> string list" where
  "splitAuthParams_loop inQuotes esc current [] = (if 0 < length current then [current] else [])"
| "splitAuthParams_loop inQuotes esc current (ch # params) =
     (if esc then splitAuthParams_loop inQuotes False (current @ [ch]) params
      else if ch = BACKSLASH then splitAuthParams_loop inQuotes True (current @ [ch]) params
      else if ch = DQUOTE then splitAuthParams_loop (\<not> inQuotes) False (current @ [ch]) params
      else if ch = COMMA then
        (if \<not> inQuotes then current # splitAuthParams_loop inQuotes False [] params
         else splitAuthParams_loop inQuotes False (current @ [ch]) params)
      else splitAuthParams_loop inQuotes False (current @ [ch]) params)"

definition splitAuthParams :: "string \<Rightarrow> string list" where
  "splitAuthParams params = splitAuthParams_loop False False [] params"

section \<open>Parameters\<close>

text \<open>A value in quotes loses them, and its escaped quotes become quotes.\<close>

definition param_value :: "string \<Rightarrow> string" where
  "param_value value =
     (if 2 \<le> length value \<and> hd value = DQUOTE \<and> value ! (length value - 1) = DQUOTE
      then ReplaceAll2 BACKSLASH DQUOTE DQUOTE (drop 1 (take (length value - 1) value))
      else value)"

fun parseAuthChallengeParams_loop ::
    "(string, string) go_map \<Rightarrow> string list \<Rightarrow> (string, string) go_map" where
  "parseAuthChallengeParams_loop result [] = result"
| "parseAuthChallengeParams_loop result (part # parts) =
     (let part = TrimSpace part in
      if part = [] then parseAuthChallengeParams_loop result parts
      else case Cut CHR ''='' part of (before, after, ok) \<Rightarrow>
        if \<not> ok then parseAuthChallengeParams_loop result parts
        else parseAuthChallengeParams_loop
          (AList.update (ToLower (TrimSpace before)) (param_value (TrimSpace after)) result) parts)"

definition parseAuthChallengeParams :: "string \<Rightarrow> (string, string) go_map" where
  "parseAuthChallengeParams params = parseAuthChallengeParams_loop [] (splitAuthParams params)"

section \<open>Challenges\<close>

definition challenge_of :: "(string, string) go_map \<Rightarrow> ociAuthChallenge option" where
  "challenge_of challenge =
     (case map_of challenge ''realm'' of
        None \<Rightarrow> None
      | Some realm \<Rightarrow>
          Some \<lparr>Realm = realm,
            Service = (case map_of challenge ''service'' of None \<Rightarrow> [] | Some s \<Rightarrow> s),
            Scope = (case map_of challenge ''scope'' of None \<Rightarrow> [] | Some s \<Rightarrow> s)\<rparr>)"

text \<open>The guards of the loop over the headers: is this one of the Bearer scheme?\<close>

definition is_bearer :: "string \<Rightarrow> bool" where
  "is_bearer h \<longleftrightarrow>
     \<not> length h < 6 \<and> EqualFold (take 6 h) ''Bearer'' \<and>
     \<not> (6 < length h \<and> h ! 6 \<noteq> CHR '' '' \<and> h ! 6 \<noteq> CHR 0x09)"

fun parseOCIAuthChallenge_loop :: "string list \<Rightarrow> ociAuthChallenge option" where
  "parseOCIAuthChallenge_loop [] = None"
| "parseOCIAuthChallenge_loop (h # headers) =
     (let header = TrimSpace h in
      if \<not> is_bearer header then parseOCIAuthChallenge_loop headers
      else challenge_of (parseAuthChallengeParams (TrimSpace (drop 6 header))))"

definition parseOCIAuthChallenge :: "Response \<Rightarrow> ociAuthChallenge option" where
  "parseOCIAuthChallenge resp =
     (if StatusCode resp \<noteq> 401 then None
      else parseOCIAuthChallenge_loop (hdr_Values (RespHeader resp) ''WWW-Authenticate''))"

section \<open>Repositories\<close>

fun last_action :: "string \<Rightarrow> int \<Rightarrow> string list \<Rightarrow> int" where
  "last_action remainder best [] = best"
| "last_action remainder best (action # acts) =
     (let idx = LastIndex remainder action
      in last_action remainder (if best < idx then idx else best) acts)"

definition ociActions :: "string list" where
  "ociActions = [''/manifests/'', ''/blobs/'', ''/tags/'']"

definition extractOCIRepository :: "ParsedURL \<Rightarrow> (string \<times> string) option" where
  "extractOCIRepository u =
     (let path = Path u in
      if \<not> HasPrefix path ''/v2/'' then None
      else let remainder = drop 4 path in
        if remainder = [] then None
        else let lastActionIdx = last_action remainder (-1) ociActions in
          if lastActionIdx < 0 then None
          else let repo = take (nat lastActionIdx) remainder in
            if repo = [] then None else Some (Host u, repo))"

definition challengeKey :: "string \<Rightarrow> string \<Rightarrow> string" where
  "challengeKey host repo = host @ ''/'' @ repo"

lemma challengeKey_inject:
  "CHR ''/'' \<notin> set h \<Longrightarrow> CHR ''/'' \<notin> set h' \<Longrightarrow>
   challengeKey h r = challengeKey h' r' \<longleftrightarrow> h = h' \<and> r = r'"
  by (simp add: challengeKey_def append_sep_inject)

section \<open>Printing parameters\<close>

text \<open>
  What a registry sends: names of letters, dashes and underscores in any case, every value quoted, quotes
  inside a value escaped.
\<close>

definition quote_byte :: "char \<Rightarrow> string" where
  "quote_byte c = (if c = DQUOTE then [BACKSLASH, DQUOTE] else [c])"

definition quoted :: "string \<Rightarrow> string" where
  "quoted v = DQUOTE # concat (map quote_byte v) @ [DQUOTE]"

definition print_param :: "string \<times> string \<Rightarrow> string" where
  "print_param p = fst p @ CHR ''='' # quoted (snd p)"

definition print_params :: "(string \<times> string) list \<Rightarrow> string" where
  "print_params ps = Join [COMMA] (map print_param ps)"

definition name_byte :: "char \<Rightarrow> bool" where
  "name_byte c \<longleftrightarrow> is_lower c \<or> is_upper c \<or> c = CHR ''_'' \<or> c = CHR ''-''"

definition param_ok :: "string \<times> string \<Rightarrow> bool" where
  "param_ok p \<longleftrightarrow> fst p \<noteq> [] \<and> list_all name_byte (fst p) \<and> BACKSLASH \<notin> set (snd p)"

definition lower_keys :: "(string \<times> string) list \<Rightarrow> (string \<times> string) list" where
  "lower_keys ps = map (\<lambda>(k, v). (map ascii_lower k, v)) ps"

lemma name_byte_plain:
  "name_byte c \<Longrightarrow> c \<noteq> BACKSLASH \<and> c \<noteq> DQUOTE \<and> c \<noteq> COMMA \<and> c \<noteq> CHR ''='' \<and> is_ascii c \<and> edge_byte c"
  by (auto simp: name_byte_def edge_byte_def char_class_defs)

lemma split_name:
  "list_all name_byte k \<Longrightarrow>
   splitAuthParams_loop q False current (k @ rest) = splitAuthParams_loop q False (current @ k) rest"
  by (induction k arbitrary: current) (auto dest: name_byte_plain)

lemma split_quoted_bytes:
  "BACKSLASH \<notin> set v \<Longrightarrow>
   splitAuthParams_loop True False current (concat (map quote_byte v) @ rest) =
     splitAuthParams_loop True False (current @ concat (map quote_byte v)) rest"
  by (induction v arbitrary: current) (auto simp: quote_byte_def)

lemma split_param:
  assumes "param_ok p"
  shows "splitAuthParams_loop False False current (print_param p @ rest) =
    splitAuthParams_loop False False (current @ print_param p) rest"
  using assms split_quoted_bytes [of "snd p" "current @ fst p @ [CHR ''='', DQUOTE]" "DQUOTE # rest"]
  by (simp add: print_param_def quoted_def param_ok_def split_name)

lemma split_param_more:
  assumes "param_ok p"
  shows "splitAuthParams_loop False False [] (print_param p @ COMMA # rest) =
      print_param p # splitAuthParams_loop False False [] rest"
    and "splitAuthParams_loop False False [] (print_param p) = [print_param p]"
proof -
  have "print_param p \<noteq> []" by (simp add: print_param_def)
  then show "splitAuthParams_loop False False [] (print_param p @ COMMA # rest) =
      print_param p # splitAuthParams_loop False False [] rest"
    and "splitAuthParams_loop False False [] (print_param p) = [print_param p]"
    using split_param [OF assms, of "[]" "COMMA # rest"] split_param [OF assms, of "[]" "[]"] by simp_all
qed

lemma split_params:
  assumes "list_all param_ok ps"
  shows "splitAuthParams (print_params ps) = map print_param ps"
  using assms unfolding splitAuthParams_def print_params_def
proof (induction ps)
  case (Cons p ps)
  from Cons.prems have p: "param_ok p" and ps: "list_all param_ok ps" by simp_all
  note ih = Cons.IH [OF ps]
  show ?case
  proof (cases "map print_param ps")
    case Nil
    then show ?thesis by (simp only: list.map Join.simps split_param_more [OF p])
  next
    case (Cons y ys)
    then have "Join [COMMA] (map print_param (p # ps)) = print_param p @ COMMA # Join [COMMA] (map print_param ps)"
      by (simp only: list.map Join.simps append_Cons append_Nil)
    then show ?thesis by (simp only: split_param_more [OF p] ih list.map)
  qed
qed simp

section \<open>Reading them back\<close>

lemma edge_quote: "edge_byte DQUOTE"
  by (simp add: edge_byte_def is_ascii_def)

lemma last_quoted: "last (quoted v) = DQUOTE" and hd_quoted: "hd (quoted v) = DQUOTE"
  by (simp_all add: quoted_def)

lemma ReplaceAll2_plain: "c \<noteq> x \<Longrightarrow> ReplaceAll2 x y z (c # cs) = c # ReplaceAll2 x y z cs"
  by (cases cs) simp_all

lemma unescape_quoted:
  "BACKSLASH \<notin> set v \<Longrightarrow> ReplaceAll2 BACKSLASH DQUOTE DQUOTE (concat (map quote_byte v)) = v"
proof (induction v)
  case (Cons c v)
  then have "c \<noteq> BACKSLASH" and ih: "ReplaceAll2 BACKSLASH DQUOTE DQUOTE (concat (map quote_byte v)) = v"
    by auto
  show ?case
  proof (cases "c = DQUOTE")
    case True
    then have "concat (map quote_byte (c # v)) = BACKSLASH # DQUOTE # concat (map quote_byte v)"
      by (simp add: quote_byte_def)
    with ih True show ?thesis by (simp only: ReplaceAll2.simps if_True simp_thms)
  next
    case False
    then have "concat (map quote_byte (c # v)) = c # concat (map quote_byte v)" by (simp add: quote_byte_def)
    with ih show ?thesis by (simp only: ReplaceAll2_plain [OF \<open>c \<noteq> BACKSLASH\<close>])
  qed
qed simp

lemma param_value_quoted: "BACKSLASH \<notin> set v \<Longrightarrow> param_value (quoted v) = v"
  by (simp add: param_value_def quoted_def nth_append unescape_quoted)

lemma TrimSpace_quoted: "TrimSpace (quoted v) = quoted v"
  by (rule TrimSpace_edges) (simp_all add: quoted_def edge_quote)

lemma TrimSpace_name: "k \<noteq> [] \<Longrightarrow> list_all name_byte k \<Longrightarrow> TrimSpace k = k"
  by (rule TrimSpace_edges) (auto simp: list_all_iff name_byte_plain)

lemma TrimSpace_param: "param_ok p \<Longrightarrow> TrimSpace (print_param p) = print_param p"
  by (rule TrimSpace_edges)
    (auto simp: print_param_def param_ok_def quoted_def edge_quote list_all_iff name_byte_plain hd_append)

lemma parse_param:
  assumes "param_ok p"
  shows "parseAuthChallengeParams_loop result (print_param p # parts) =
    parseAuthChallengeParams_loop (AList.update (map ascii_lower (fst p)) (snd p) result) parts"
proof -
  from assms have "CHR ''='' \<notin> set (fst p)" and "list_all is_ascii (fst p)"
    by (auto simp: param_ok_def list_all_iff dest!: name_byte_plain)
  then show ?thesis
    using assms TrimSpace_param [OF assms]
    by (simp add: Let_def print_param_def Cut_found TrimSpace_quoted TrimSpace_name ToLower_ascii
        param_value_quoted param_ok_def)
qed

lemma parse_params:
  "list_all param_ok ps \<Longrightarrow>
   map_of (parseAuthChallengeParams_loop result (map print_param ps)) k =
     (case map_of (rev (lower_keys ps)) k of Some v \<Rightarrow> Some v | None \<Rightarrow> map_of result k)"
  by (induction ps arbitrary: result)
    (auto simp: parse_param lower_keys_def map_of_append map_add_def simp del: parseAuthChallengeParams_loop.simps(2)
      split: option.splits)

lemma challenge_of_cong: "map_of m = map_of m' \<Longrightarrow> challenge_of m = challenge_of m'"
  by (simp add: challenge_of_def split: option.split)

lemma parseAuthChallengeParams_print:
  assumes "list_all param_ok ps" and "distinct (map fst (lower_keys ps))"
  shows "challenge_of (parseAuthChallengeParams (print_params ps)) = challenge_of (lower_keys ps)"
proof (rule challenge_of_cong)
  from assms(2) have "map_of (rev (lower_keys ps)) = map_of (lower_keys ps)"
    by (subst map_of_inject_set) (simp_all add: rev_map [symmetric])
  then show "map_of (parseAuthChallengeParams (print_params ps)) = map_of (lower_keys ps)"
    using assms(1) by (auto simp: parseAuthChallengeParams_def split_params parse_params fun_eq_iff
        split: option.splits)
qed

lemma TrimSpace_blank: "TrimSpace (CHR '' '' # s) = TrimSpace s"
proof -
  have "find (\<lambda>p. p \<noteq> [] \<and> HasPrefix (CHR '' '' # s) p) utf8_spaces = Some '' ''"
    by (simp add: utf8_spaces_def HasPrefix_def)
  then have "strip_front utf8_spaces (CHR '' '' # s) = strip_front utf8_spaces s"
    by (subst strip_front.simps) simp
  then show ?thesis by (simp add: TrimSpace_def)
qed

lemma print_params_edges:
  assumes "ps \<noteq> []" and "list_all param_ok ps"
  shows "print_params ps \<noteq> [] \<and> edge_byte (hd (print_params ps)) \<and> last (print_params ps) = DQUOTE"
proof -
  obtain p qs where ps: "ps = p # qs" using assms(1) by (cases ps) auto
  have h: "print_param p \<noteq> [] \<and> edge_byte (hd (print_param p))"
    using assms(2) ps by (auto simp: print_param_def param_ok_def hd_append list_all_iff name_byte_plain)
  then have "hd (Join [COMMA] (map print_param ps)) = hd (print_param p)"
    by (cases qs) (auto simp: ps hd_append)
  moreover have "xs \<noteq> [] \<Longrightarrow> last (Join [COMMA] (map print_param xs)) = DQUOTE" for xs
  proof (induction xs)
    case (Cons x xs)
    have "print_param x \<noteq> [] \<and> last (print_param x) = DQUOTE" for x
      by (simp add: print_param_def quoted_def)
    moreover have "xs \<noteq> [] \<Longrightarrow> Join [COMMA] (map print_param xs) \<noteq> []"
      using calculation by (simp add: Join_Nil_iff) (metis list.map_disc_iff map_eq_Cons_conv list.inject)
    ultimately show ?case using Cons by (cases "xs = []") (simp_all add: Join_Cons)
  qed simp
  moreover have "Join [COMMA] (map print_param ps) \<noteq> []"
    using h by (cases qs) (auto simp: ps)
  ultimately show ?thesis using h assms(1) by (simp add: print_params_def)
qed

lemma bearer_line:
  assumes "ps \<noteq> []" and "list_all param_ok ps"
  shows "is_bearer (TrimSpace (''Bearer '' @ print_params ps)) \<and>
    TrimSpace (drop 6 (TrimSpace (''Bearer '' @ print_params ps))) = print_params ps"
proof -
  note e = print_params_edges [OF assms]
  have "TrimSpace (''Bearer '' @ print_params ps) = ''Bearer '' @ print_params ps"
    using e by (intro TrimSpace_edges) (auto simp: edge_quote edge_byte_def is_ascii_def)
  moreover have "TrimSpace (print_params ps) = print_params ps"
    using e by (intro TrimSpace_edges) (auto simp: edge_quote)
  ultimately show ?thesis by (simp add: is_bearer_def TrimSpace_blank)
qed

lemma parse_skips:
  "\<forall>h \<in> set hs. \<not> is_bearer (TrimSpace h) \<Longrightarrow>
   parseOCIAuthChallenge_loop (hs @ rest) = parseOCIAuthChallenge_loop rest"
  by (induction hs) (auto simp: Let_def)

section \<open>Repositories in paths\<close>

lemma LastIndex_ge:
  assumes "HasPrefix (drop i s) sub" and "i \<le> length s"
  shows "int i \<le> LastIndex s sub"
proof -
  let ?xs = "filter (\<lambda>i. HasPrefix (drop i s) sub) (rev [0..<Suc (length s)])"
  have i: "i \<in> set ?xs" using assms by (auto simp del: upt_Suc)
  have "sorted_wrt (\<ge>) ?xs"
    by (intro sorted_wrt_filter) (simp add: sorted_wrt_rev del: upt_Suc)
  with i have "i \<le> hd ?xs" by (cases ?xs) auto
  with i show ?thesis unfolding LastIndex_def by (cases ?xs) (auto simp del: upt_Suc)
qed

lemma last_action_max:
  "last_action s best acts = Max (insert best (LastIndex s ` set acts))"
proof (induction acts arbitrary: best)
  case (Cons a acts)
  have fin: "finite (LastIndex s ` set acts)" by simp
  have "last_action s best (a # acts) = Max (insert (max best (LastIndex s a)) (LastIndex s ` set acts))"
    using Cons by (simp add: Let_def max_def)
  also have "\<dots> = Max (insert best (insert (LastIndex s a) (LastIndex s ` set acts)))"
    using fin by (cases "LastIndex s ` set acts = {}") (simp_all add: max.assoc)
  finally show ?case by simp
qed simp

lemma last_action_sound:
  assumes "0 \<le> last_action s (-1) acts"
  shows "\<exists>a \<in> set acts. last_action s (-1) acts = LastIndex s a"
proof -
  have "last_action s (-1) acts \<in> insert (-1) (LastIndex s ` set acts)"
    unfolding last_action_max by (rule Max_in) simp_all
  with assms show ?thesis by auto
qed

lemma last_action_ge: "a \<in> set acts \<Longrightarrow> LastIndex s a \<le> last_action s b acts"
  unfolding last_action_max by (rule Max_ge) simp_all

lemma LastIndex_bound: "LastIndex s sub \<le> int (length s)"
proof (cases "filter (\<lambda>i. HasPrefix (drop i s) sub) (rev [0..<Suc (length s)])")
  case Nil
  then show ?thesis by (simp add: LastIndex_def del: upt_Suc)
next
  case (Cons i js)
  then have "i \<in> set [0..<Suc (length s)]" by (metis filter_is_subset list.set_intros(1) set_rev subsetD)
  with Cons show ?thesis by (simp add: LastIndex_def del: upt_Suc)
qed

section \<open>Properties\<close>

text \<open>
  C26. Bearer challenges round-trip. Whatever a registry prints - realm, service and scope in any order,
  names in any case, any further parameters, commas, equals signs and escaped quotes inside the values -
  is read back, value by value, from the first Bearer line of a 401, whatever lines of other schemes stand
  before it and whatever follows it.
\<close>

theorem challenge_roundtrip:
  assumes "StatusCode resp = 401"
    and "hdr_Values (RespHeader resp) ''WWW-Authenticate'' = before @ (''Bearer '' @ print_params ps) # after"
    and "\<forall>h \<in> set before. \<not> is_bearer (TrimSpace h)"
    and "ps \<noteq> []" and "list_all param_ok ps" and "distinct (map fst (lower_keys ps))"
  shows "parseOCIAuthChallenge resp =
    (case map_of (lower_keys ps) ''realm'' of
       None \<Rightarrow> None
     | Some realm \<Rightarrow> Some \<lparr>Realm = realm,
         Service = (case map_of (lower_keys ps) ''service'' of None \<Rightarrow> [] | Some s \<Rightarrow> s),
         Scope = (case map_of (lower_keys ps) ''scope'' of None \<Rightarrow> [] | Some s \<Rightarrow> s)\<rparr>)"
proof -
  have "parseOCIAuthChallenge resp = parseOCIAuthChallenge_loop ((''Bearer '' @ print_params ps) # after)"
    using parse_skips [OF assms(3)] by (simp add: parseOCIAuthChallenge_def assms(1,2))
  also have "\<dots> = challenge_of (parseAuthChallengeParams (print_params ps))"
    using bearer_line [OF assms(4,5)] by (simp only: parseOCIAuthChallenge_loop.simps Let_def if_False not_True_eq_False)
  also have "\<dots> = challenge_of (lower_keys ps)" by (rule parseAuthChallengeParams_print [OF assms(5,6)])
  finally show ?thesis by (simp only: challenge_of_def)
qed

theorem challenge_roundtrip_witness:
  "parseOCIAuthChallenge \<lparr>StatusCode = 401,
     RespHeader = [(''Www-Authenticate'',
       [''Basic'', ''Bearer '' @ print_params [(''Realm'', ''https://a/t''), (''service'', ''a,b'')]])],
     RespBody = ([], None)\<rparr> = Some \<lparr>Realm = ''https://a/t'', Service = ''a,b'', Scope = []\<rparr>"
proof -
  let ?ps = "[(''Realm'', ''https://a/t''), (''service'', ''a,b'')]"
  have l: "lower_keys ?ps = [(''realm'', ''https://a/t''), (''service'', ''a,b'')]" by code_simp
  have ok: "list_all param_ok ?ps" by code_simp
  have b: "\<forall>h \<in> set [''Basic'']. \<not> is_bearer (TrimSpace h)" by code_simp
  have v: "hdr_Values (RespHeader \<lparr>StatusCode = 401, RespHeader = [(''Www-Authenticate'',
      [''Basic'', ''Bearer '' @ print_params ?ps])], RespBody = ([], None)\<rparr>) ''WWW-Authenticate'' =
      [''Basic''] @ (''Bearer '' @ print_params ?ps) # []"
    by (simp add: hdr_Values_def)
  show ?thesis
    using challenge_roundtrip [OF _ v b _ ok] by (simp add: l del: append_Cons append.simps(2))
qed

text \<open>
  The repository of a request is what stands between \<open>/v2/\<close> and the last action of its path:
  it is found exactly when there is such a split, and no later action is skipped.
\<close>

theorem repository_characterised:
  "extractOCIRepository u = Some (host, repo) \<longleftrightarrow>
     host = Host u \<and> repo \<noteq> [] \<and>
     (\<exists>action rest. action \<in> set ociActions \<and> Path u = ''/v2/'' @ repo @ action @ rest) \<and>
     (\<forall>repo' action rest. action \<in> set ociActions \<longrightarrow>
        Path u = ''/v2/'' @ repo' @ action @ rest \<longrightarrow> length repo' \<le> length repo)"
proof -
  define s where "s = drop 4 (Path u)"
  define m where "m = last_action s (-1) ociActions"
  have path: "HasPrefix (Path u) ''/v2/'' \<Longrightarrow> Path u = ''/v2/'' @ s"
    by (auto simp: HasPrefix_iff s_def)
  have later: "Path u = ''/v2/'' @ r @ a @ t \<Longrightarrow> a \<in> set ociActions \<Longrightarrow> int (length r) \<le> m" for r a t
    using LastIndex_ge [of "length r" s a] last_action_ge [of a ociActions s "-1"] by (simp add: s_def m_def)
  have bound: "m \<le> int (length s)"
    using LastIndex_bound unfolding m_def last_action_max by (subst Max_le_iff) auto
  show ?thesis
  proof
    assume e: "extractOCIRepository u = Some (host, repo)"
    then have p: "HasPrefix (Path u) ''/v2/''" and m0: "0 \<le> m" and h: "host = Host u"
      and r: "repo = take (nat m) s" "repo \<noteq> []"
      by (auto simp: extractOCIRepository_def Let_def s_def m_def split: if_splits)
    from m0 obtain a where a: "a \<in> set ociActions" "m = LastIndex s a"
      using last_action_sound [of s ociActions] unfolding m_def by blast
    with m0 obtain t where t: "drop (nat m) s = a @ t"
      using LastIndex_prefix [of s a] by (auto simp: HasPrefix_iff)
    then have "s = repo @ a @ t" using r(1) by (metis append_take_drop_id)
    moreover have "int (length repo) = m" using r(1) m0 bound by simp
    ultimately show "host = Host u \<and> repo \<noteq> [] \<and>
     (\<exists>action rest. action \<in> set ociActions \<and> Path u = ''/v2/'' @ repo @ action @ rest) \<and>
     (\<forall>repo' action rest. action \<in> set ociActions \<longrightarrow>
        Path u = ''/v2/'' @ repo' @ action @ rest \<longrightarrow> length repo' \<le> length repo)"
      using path [OF p] h r(2) a(1) later by (metis of_nat_le_iff)
  next
    assume R: "host = Host u \<and> repo \<noteq> [] \<and>
     (\<exists>action rest. action \<in> set ociActions \<and> Path u = ''/v2/'' @ repo @ action @ rest) \<and>
     (\<forall>repo' action rest. action \<in> set ociActions \<longrightarrow>
        Path u = ''/v2/'' @ repo' @ action @ rest \<longrightarrow> length repo' \<le> length repo)"
    then obtain a t where a: "a \<in> set ociActions" and p: "Path u = ''/v2/'' @ repo @ a @ t" by blast
    have s: "s = repo @ a @ t" by (simp add: s_def p)
    have pre: "HasPrefix (Path u) ''/v2/''" unfolding p by (rule HasPrefix_append)
    have m0: "int (length repo) \<le> m" by (rule later [OF p a])
    then obtain b where b: "b \<in> set ociActions" "m = LastIndex s b"
      using last_action_sound [of s ociActions] unfolding m_def by fastforce
    with m0 obtain t' where "drop (nat m) s = b @ t'"
      using LastIndex_prefix [of s b] by (auto simp: HasPrefix_iff)
    then have "s = take (nat m) s @ b @ t'" by (metis append_take_drop_id)
    then have "Path u = ''/v2/'' @ take (nat m) s @ b @ t'" using path [OF pre] by metis
    with R b(1) have "length (take (nat m) s) \<le> length repo" by blast
    with m0 bound have "m = int (length repo)" by simp
    then show "extractOCIRepository u = Some (host, repo)"
      using R pre s m_def [unfolded s] unfolding extractOCIRepository_def Let_def s_def [symmetric] by simp
  qed
qed

end
