(* ===== verification/TokenCache.thy ===== *)
theory TokenCache
  imports OciChallenge
begin

text \<open>
  The two expiring maps of \<open>src/oci_auth.go\<close>: tokens by challenge (\<open>tokenCache\<close>) and
  challenges by repository (the \<open>challenges\<close> field of the transport). Both satisfy one contract,
  \<open>ttl_store\<close>, under which the sweeps in the background cannot be observed. Each operation
  holds the map's lock from start to end, so an operation is one step; the clock's reading is an
  argument.
\<close>

section \<open>Token cache\<close>

record tokenEntry =
  token :: string
  token_expiry :: time

record tokenCache =
  entries :: "(ociAuthChallenge, tokenEntry) go_map"

definition newTokenCache :: tokenCache where
  "newTokenCache = \<lparr>entries = []\<rparr>"

definition token_get :: "time \<Rightarrow> tokenCache \<Rightarrow> ociAuthChallenge \<Rightarrow> string option" where
  "token_get now c challenge =
     (case map_of (entries c) challenge of
        None \<Rightarrow> None
      | Some entry \<Rightarrow> if After now (token_expiry entry) then None else Some (token entry))"

definition token_set :: "ociAuthChallenge \<Rightarrow> string \<Rightarrow> time \<Rightarrow> tokenCache \<Rightarrow> tokenCache" where
  "token_set challenge tok exp c =
     c\<lparr>entries := AList.update challenge \<lparr>token = tok, token_expiry = exp\<rparr> (entries c)\<rparr>"

definition token_evict :: "ociAuthChallenge \<Rightarrow> tokenCache \<Rightarrow> tokenCache" where
  "token_evict challenge c = c\<lparr>entries := AList.delete challenge (entries c)\<rparr>"

text \<open>The range over a map that deletes what has expired, shared by both sweeps.\<close>

fun sweep_loop :: "('v \<Rightarrow> time) \<Rightarrow> time \<Rightarrow> ('k \<times> 'v) list \<Rightarrow> ('k, 'v) go_map \<Rightarrow> ('k, 'v) go_map" where
  "sweep_loop exp now [] m = m"
| "sweep_loop exp now ((k, e) # es) m =
     sweep_loop exp now es (if After now (exp e) then AList.delete k m else m)"

definition token_sweep :: "time \<Rightarrow> tokenCache \<Rightarrow> tokenCache" where
  "token_sweep now c = c\<lparr>entries := sweep_loop token_expiry now (entries c) (entries c)\<rparr>"

section \<open>Challenges\<close>

record challengeEntry =
  challenge :: ociAuthChallenge
  challenge_expiry :: time

type_synonym challenge_map = "(string, challengeEntry) go_map"

definition challengeTTL :: duration where
  "challengeTTL = 1 * Hour"

definition challenge_get :: "time \<Rightarrow> challenge_map \<Rightarrow> string \<Rightarrow> ociAuthChallenge option" where
  "challenge_get now m key =
     (case map_of m key of
        None \<Rightarrow> None
      | Some entry \<Rightarrow> if Before now (challenge_expiry entry) then Some (challenge entry) else None)"

definition challenge_set :: "string \<Rightarrow> ociAuthChallenge \<Rightarrow> time \<Rightarrow> challenge_map \<Rightarrow> challenge_map" where
  "challenge_set key ch exp m = AList.update key \<lparr>challenge = ch, challenge_expiry = exp\<rparr> m"

definition challenge_delete :: "string \<Rightarrow> challenge_map \<Rightarrow> challenge_map" where
  "challenge_delete key m = AList.delete key m"

definition sweepChallenges :: "time \<Rightarrow> challenge_map \<Rightarrow> challenge_map" where
  "sweepChallenges now m = sweep_loop challenge_expiry now m m"

section \<open>The contract\<close>

text \<open>
  A store whose entries expire: a lookup finds what was last set for the key unless it was deleted or
  has expired; a sweep takes nothing away that a later lookup would have found.
\<close>

locale ttl_store =
  fixes lookup :: "time \<Rightarrow> 's \<Rightarrow> 'k \<Rightarrow> 'v option"
    and ins :: "'k \<Rightarrow> 'v \<Rightarrow> time \<Rightarrow> 's \<Rightarrow> 's"
    and del :: "'k \<Rightarrow> 's \<Rightarrow> 's"
    and sweep :: "time \<Rightarrow> 's \<Rightarrow> 's"
    and valid :: "time \<Rightarrow> time \<Rightarrow> bool"
    and inv :: "'s \<Rightarrow> bool"
  assumes inv_ins: "inv s \<Longrightarrow> inv (ins k v e s)"
    and inv_del: "inv s \<Longrightarrow> inv (del k s)"
    and inv_sweep: "inv s \<Longrightarrow> inv (sweep t s)"
    and lookup_ins: "inv s \<Longrightarrow> lookup t (ins k v e s) k' =
      (if k' = k then (if valid t e then Some v else None) else lookup t s k')"
    and lookup_del: "inv s \<Longrightarrow> lookup t (del k s) k' = (if k' = k then None else lookup t s k')"
    and lookup_sweep: "inv s \<Longrightarrow> now \<le> t \<Longrightarrow> lookup t (sweep now s) k = lookup t s k"
    and lookup_expires: "inv s \<Longrightarrow> t \<le> t' \<Longrightarrow> lookup t s k = None \<Longrightarrow> lookup t' s k = None"

text \<open>Histories of a store: every operation happens at an instant, and instants do not go back.\<close>

datatype ('k, 'v) store_op =
    OpSet 'k 'v time
  | OpDelete 'k
  | OpSweep time
  | OpGet time 'k

fun answers ::
    "(time \<Rightarrow> 's \<Rightarrow> 'k \<Rightarrow> 'v option) \<Rightarrow> ('k \<Rightarrow> 'v \<Rightarrow> time \<Rightarrow> 's \<Rightarrow> 's) \<Rightarrow> ('k \<Rightarrow> 's \<Rightarrow> 's) \<Rightarrow>
     (time \<Rightarrow> 's \<Rightarrow> 's) \<Rightarrow> ('k, 'v) store_op list \<Rightarrow> 's \<Rightarrow> 'v option list" where
  "answers lookup ins del sweep [] s = []"
| "answers lookup ins del sweep (OpSet k v e # ops) s = answers lookup ins del sweep ops (ins k v e s)"
| "answers lookup ins del sweep (OpDelete k # ops) s = answers lookup ins del sweep ops (del k s)"
| "answers lookup ins del sweep (OpSweep t # ops) s = answers lookup ins del sweep ops (sweep t s)"
| "answers lookup ins del sweep (OpGet t k # ops) s = lookup t s k # answers lookup ins del sweep ops s"

fun op_times :: "('k, 'v) store_op list \<Rightarrow> time list" where
  "op_times [] = []"
| "op_times (OpSweep t # ops) = t # op_times ops"
| "op_times (OpGet t k # ops) = t # op_times ops"
| "op_times (op # ops) = op_times ops"

fun is_sweep :: "('k, 'v) store_op \<Rightarrow> bool" where
  "is_sweep (OpSweep t) = True"
| "is_sweep _ = False"

context ttl_store
begin

lemma sweeps_unobservable_from:
  assumes "inv s" and "inv s'" and "sorted (op_times ops)" and "\<forall>u \<in> set (op_times ops). start \<le> u"
    and "\<And>t k. start \<le> t \<Longrightarrow> lookup t s k = lookup t s' k"
  shows "answers lookup ins del sweep ops s = answers lookup ins del sweep (filter (\<lambda>op. \<not> is_sweep op) ops) s'"
  using assms
proof (induction ops arbitrary: s s' start)
  case (Cons op ops)
  show ?case
  proof (cases op)
    case (OpSet k v e)
    have "answers lookup ins del sweep ops (ins k v e s) =
        answers lookup ins del sweep (filter (\<lambda>op. \<not> is_sweep op) ops) (ins k v e s')"
      by (rule Cons.IH [where start = start]) (use Cons.prems OpSet in \<open>simp_all add: inv_ins lookup_ins\<close>)
    with OpSet show ?thesis by simp
  next
    case (OpDelete k)
    have "answers lookup ins del sweep ops (del k s) =
        answers lookup ins del sweep (filter (\<lambda>op. \<not> is_sweep op) ops) (del k s')"
      by (rule Cons.IH [where start = start]) (use Cons.prems OpDelete in \<open>simp_all add: inv_del lookup_del\<close>)
    with OpDelete show ?thesis by simp
  next
    case (OpSweep now)
    have "answers lookup ins del sweep ops (sweep now s) =
        answers lookup ins del sweep (filter (\<lambda>op. \<not> is_sweep op) ops) s'"
      by (rule Cons.IH [where start = now]) (use Cons.prems OpSweep in \<open>simp_all add: inv_sweep lookup_sweep\<close>)
    with OpSweep show ?thesis by simp
  next
    case (OpGet t k)
    have "answers lookup ins del sweep ops s = answers lookup ins del sweep (filter (\<lambda>op. \<not> is_sweep op) ops) s'"
      by (rule Cons.IH [where start = t]) (use Cons.prems OpGet in simp_all)
    with OpGet Cons.prems show ?thesis by simp
  qed
qed simp

lemma sweeps_unobservable:
  assumes "inv s" and "sorted (op_times ops)"
  shows "answers lookup ins del sweep ops s = answers lookup ins del sweep (filter (\<lambda>op. \<not> is_sweep op) ops) s"
proof -
  obtain start where "\<forall>u \<in> set (op_times ops). start \<le> u"
    using assms(2) by (cases "op_times ops") auto
  with assms show ?thesis by (intro sweeps_unobservable_from [where start = start]) simp_all
qed

end

section \<open>Both maps satisfy it\<close>

lemma sweep_loop_lookup:
  "map_of (sweep_loop exp now es m) k =
     (case map_of m k of
        None \<Rightarrow> None
      | Some e \<Rightarrow> if \<exists>e'. (k, e') \<in> set es \<and> After now (exp e') then None else Some e)"
  by (induction es arbitrary: m) (auto split: option.splits)

lemma wf_map_sweep_loop [simp]: "wf_map m \<Longrightarrow> wf_map (sweep_loop exp now es m)"
  by (induction exp now es m rule: sweep_loop.induct) auto

lemma sweep_lookup:
  "wf_map m \<Longrightarrow> map_of (sweep_loop exp now m m) k =
     (case map_of m k of None \<Rightarrow> None | Some e \<Rightarrow> if After now (exp e) then None else Some e)"
  by (auto simp: sweep_loop_lookup wf_map_def split: option.splits dest: map_of_SomeD)
    (metis map_of_eq_Some_iff option.inject)

definition wf_tokens :: "tokenCache \<Rightarrow> bool" where
  "wf_tokens c \<longleftrightarrow> wf_map (entries c)"

lemmas token_defs = token_get_def token_set_def token_evict_def token_sweep_def wf_tokens_def
lemmas challenge_defs = challenge_get_def challenge_set_def challenge_delete_def sweepChallenges_def

interpretation tokens: ttl_store token_get token_set token_evict token_sweep "\<lambda>now exp. \<not> After now exp" wf_tokens
  by unfold_locales (auto simp: token_defs sweep_lookup After_def split: option.splits if_splits)

interpretation challenges: ttl_store challenge_get challenge_set challenge_delete sweepChallenges Before wf_map
  by unfold_locales (auto simp: challenge_defs sweep_lookup After_def Before_def split: option.splits if_splits)

section \<open>Properties\<close>

text \<open>
  C27. The background sweeps cannot be observed. In every history of either map - sets, evictions, sweeps
  and lookups in any order, at instants that do not go back - each lookup answers what it would answer
  had no sweep ever run.
\<close>

theorem sweeps_are_invisible:
  assumes "wf_tokens c" and "sorted (op_times ops)" and "wf_map m" and "sorted (op_times ops')"
  shows "answers token_get token_set token_evict token_sweep ops c =
      answers token_get token_set token_evict token_sweep (filter (\<lambda>op. \<not> is_sweep op) ops) c \<and>
    answers challenge_get challenge_set challenge_delete sweepChallenges ops' m =
      answers challenge_get challenge_set challenge_delete sweepChallenges (filter (\<lambda>op. \<not> is_sweep op) ops') m"
  using tokens.sweeps_unobservable [OF assms(1,2)] challenges.sweeps_unobservable [OF assms(3,4)] by blast

definition demo_challenge :: ociAuthChallenge where
  "demo_challenge = \<lparr>Realm = ''https://auth.example/token'', Service = ''registry'', Scope = ''pull''\<rparr>"

theorem sweeps_are_invisible_witness:
  "answers token_get token_set token_evict token_sweep
     [OpSet demo_challenge ''abc'' 10, OpSweep 5, OpGet 10 demo_challenge, OpSweep 11, OpGet 12 demo_challenge]
     newTokenCache = [Some ''abc'', None]"
proof -
  let ?ops = "[OpSet demo_challenge ''abc'' 10, OpSweep 5, OpGet 10 demo_challenge, OpSweep 11, OpGet 12 demo_challenge]"
  have "sorted (op_times ?ops)" "wf_tokens newTokenCache" by (simp_all add: wf_tokens_def newTokenCache_def)
  from sweeps_are_invisible [OF this(2,1) wf_map_Nil, of "[]"]
  show ?thesis by (simp add: token_defs newTokenCache_def After_def)
qed

lemma set_update_other: "p \<in> set (AList.delete k m) \<longleftrightarrow> p \<in> set m \<and> fst p \<noteq> k"
  by (auto simp: AList.delete_eq)

lemma set_sweep_loop:
  "p \<in> set (sweep_loop exp now es m) \<longleftrightarrow>
     p \<in> set m \<and> \<not> (\<exists>e. (fst p, e) \<in> set es \<and> After now (exp e))"
proof (induction exp now es m rule: sweep_loop.induct)
  case (2 exp now k e es m)
  then show ?case by (cases "After now (exp e)") (auto simp: set_update_other)
qed simp

lemma set_sweep_all: "wf_map l \<Longrightarrow> set (sweep_loop exp now l l) = {p \<in> set l. now \<le> exp (snd p)}"
  by (auto simp: set_sweep_loop After_def wf_map_def not_less dest: eq_key_imp_eq_value)

text \<open>
  A sweep reclaims exactly what has expired: of both maps the entries that remain are those whose
  expiry the clock has not passed.
\<close>

theorem sweep_reclaims_expired:
  assumes "wf_tokens c" and "wf_map m"
  shows "set (entries (token_sweep now c)) = {p \<in> set (entries c). now \<le> token_expiry (snd p)} \<and>
    set (sweepChallenges now m) = {p \<in> set m. now \<le> challenge_expiry (snd p)}"
  using assms by (simp add: token_sweep_def sweepChallenges_def wf_tokens_def set_sweep_all)

theorem sweep_reclaims_expired_witness:
  "entries (token_sweep 11 (token_set demo_challenge ''abc'' 10 newTokenCache)) = []"
proof -
  have "wf_tokens (token_set demo_challenge ''abc'' 10 newTokenCache)"
    by (intro tokens.inv_ins) (simp add: wf_tokens_def newTokenCache_def)
  from sweep_reclaims_expired [OF this wf_map_Nil, of 11]
  have "set (entries (token_sweep 11 (token_set demo_challenge ''abc'' 10 newTokenCache))) = {}"
    by (auto simp: token_set_def newTokenCache_def)
  then show ?thesis by simp
qed

end
