(* ===== verification/JsonValue.thy ===== *)
theory JsonValue
  imports Json
begin

text \<open>
  \<open>encoding/json\<close> on arbitrary values, as far as decoding needs it: the grammar of the
  package's scanner with its greedy numbers and its nesting limit of 10000, and reading the first value
  of a stream. The recursion is on fuel; \<open>json_value_enough\<close> shows that the fuel given, twice
  the length of the input, is always enough.
\<close>

datatype json =
    JNull
  | JBool bool
  | JNum string \<comment> \<open>the literal\<close>
  | JStr string
  | JArr "json list"
  | JObj "(string \<times> json) list"

section \<open>Numbers\<close>

definition number_frac :: "string \<Rightarrow> (string \<times> string) option" where
  "number_frac s =
     (case s of
        c # cs \<Rightarrow>
          if c = CHR ''.'' then
            (let ds = takeWhile is_digit cs in
             if ds = [] then None else Some (c # ds, drop (length ds) cs))
          else Some ([], s)
      | [] \<Rightarrow> Some ([], s))"

definition number_exp :: "string \<Rightarrow> (string \<times> string) option" where
  "number_exp s =
     (case s of
        c # cs \<Rightarrow>
          if c = CHR ''e'' \<or> c = CHR ''E'' then
            (let sgn = (case cs of d # _ \<Rightarrow> if d = CHR ''+'' \<or> d = CHR ''-'' then [d] else [] | [] \<Rightarrow> []);
                 t = drop (length sgn) cs; ds = takeWhile is_digit t
             in if ds = [] then None else Some (c # sgn @ ds, drop (length ds) t))
          else Some ([], s)
      | [] \<Rightarrow> Some ([], s))"

definition json_number :: "string \<Rightarrow> (string \<times> string) option" where
  "json_number s =
     (let neg = (if HasPrefix s ''-'' then ''-'' else []); t = drop (length neg) s in
      case t of
        [] \<Rightarrow> None
      | c # cs \<Rightarrow>
          if \<not> is_digit c then None
          else let ip = (if c = CHR ''0'' then [c] else takeWhile is_digit t) in
            (case number_frac (drop (length ip) t) of
               None \<Rightarrow> None
             | Some (f, t') \<Rightarrow>
                 (case number_exp t' of
                    None \<Rightarrow> None
                  | Some (e, t'') \<Rightarrow> Some (neg @ ip @ f @ e, t''))))"

lemma takeWhile_drop: "takeWhile P xs @ drop (length (takeWhile P xs)) xs = xs"
  by (metis dropWhile_eq_drop takeWhile_dropWhile_id)

lemma number_frac_split: "number_frac s = Some (f, t) \<Longrightarrow> s = f @ t"
  by (auto simp: number_frac_def Let_def takeWhile_drop split: list.splits if_splits)

lemma number_exp_split: "number_exp s = Some (f, t) \<Longrightarrow> s = f @ t"
  by (auto simp: number_exp_def Let_def takeWhile_drop split: list.splits if_splits)

lemma json_number_split: "json_number s = Some (l, t) \<Longrightarrow> s = l @ t \<and> l \<noteq> []"
proof -
  assume n: "json_number s = Some (l, t)"
  define neg where "neg = (if HasPrefix s ''-'' then ''-'' else [])"
  have s: "s = neg @ drop (length neg) s" by (auto simp: neg_def HasPrefix_iff)
  from n obtain c cs ip f t' e where c: "drop (length neg) s = c # cs" and "is_digit c"
    and ip: "ip = (if c = CHR ''0'' then [c] else takeWhile is_digit (c # cs))"
    and f: "number_frac (drop (length ip) (c # cs)) = Some (f, t')" and e: "number_exp t' = Some (e, t)"
    and l: "l = neg @ ip @ f @ e"
    by (auto simp: json_number_def Let_def neg_def [symmetric] split: list.splits if_splits option.splits)
  have "c # cs = ip @ drop (length ip) (c # cs)"
    unfolding ip by (simp add: takeWhile_drop del: takeWhile.simps)
  with s c number_frac_split [OF f] number_exp_split [OF e] have "s = l @ t" by (simp add: l)
  moreover have "ip \<noteq> []" using \<open>is_digit c\<close> by (simp add: ip)
  ultimately show ?thesis by (simp add: l)
qed

section \<open>Values\<close>

fun json_value :: "nat \<Rightarrow> int \<Rightarrow> string \<Rightarrow> (json \<times> string) option"
  and json_items :: "nat \<Rightarrow> int \<Rightarrow> string \<Rightarrow> (json list \<times> string) option"
  and json_members :: "nat \<Rightarrow> int \<Rightarrow> string \<Rightarrow> ((string \<times> json) list \<times> string) option"
where
  "json_value 0 d s = None"
| "json_value (Suc n) d s =
     (case skip_ws s of
        [] \<Rightarrow> None
      | c # cs \<Rightarrow>
          if c = DQUOTE then map_option (\<lambda>(v, t). (JStr v, t)) (json_unquote cs)
          else if c = CHR ''['' then
            (if d = 0 then None
             else case skip_ws cs of
               [] \<Rightarrow> None
             | e # es \<Rightarrow>
                 if e = CHR '']'' then Some (JArr [], es)
                 else map_option (\<lambda>(vs, t). (JArr vs, t)) (json_items n (d - 1) cs))
          else if c = CHR ''{'' then
            (if d = 0 then None
             else case skip_ws cs of
               [] \<Rightarrow> None
             | e # es \<Rightarrow>
                 if e = CHR ''}'' then Some (JObj [], es)
                 else map_option (\<lambda>(ms, t). (JObj ms, t)) (json_members n (d - 1) cs))
          else if HasPrefix (c # cs) ''null'' then Some (JNull, drop 3 cs)
          else if HasPrefix (c # cs) ''true'' then Some (JBool True, drop 3 cs)
          else if HasPrefix (c # cs) ''false'' then Some (JBool False, drop 4 cs)
          else map_option (\<lambda>(l, t). (JNum l, t)) (json_number (c # cs)))"
| "json_items 0 d s = None"
| "json_items (Suc n) d s =
     (case json_value n d s of
        None \<Rightarrow> None
      | Some (v, t) \<Rightarrow>
          (case skip_ws t of
             [] \<Rightarrow> None
           | c # cs \<Rightarrow>
               if c = CHR '']'' then Some ([v], cs)
               else if c = COMMA then map_option (\<lambda>(vs, r). (v # vs, r)) (json_items n d cs)
               else None))"
| "json_members 0 d s = None"
| "json_members (Suc n) d s =
     (case skip_ws s of
        [] \<Rightarrow> None
      | q # qs \<Rightarrow>
          if q \<noteq> DQUOTE then None
          else case json_unquote qs of
            None \<Rightarrow> None
          | Some (k, t) \<Rightarrow>
              (case skip_ws t of
                 [] \<Rightarrow> None
               | c # cs \<Rightarrow>
                   if c \<noteq> CHR '':'' then None
                   else case json_value n d cs of
                     None \<Rightarrow> None
                   | Some (v, t') \<Rightarrow>
                       (case skip_ws t' of
                          [] \<Rightarrow> None
                        | e # es \<Rightarrow>
                            if e = CHR ''}'' then Some ([(k, v)], es)
                            else if e = COMMA then map_option (\<lambda>(ms, r). ((k, v) # ms, r)) (json_members n d es)
                            else None)))"

definition maxNestingDepth :: int where "maxNestingDepth = 10000"

definition json_first :: "string \<Rightarrow> (json \<times> string) option" where
  "json_first s = json_value (2 * length s + 1) maxNestingDepth s"

section \<open>The fuel is enough\<close>

lemma skip_ws_Cons_length: "skip_ws s = c # cs \<Longrightarrow> length cs < length s"
  using skip_ws_length [of s] by simp

lemma json_length:
  "json_value n d s = Some (v, t) \<Longrightarrow> length t < length s"
  "json_items n d s = Some (vs, t) \<Longrightarrow> length t < length s"
  "json_members n d s = Some (ms, t) \<Longrightarrow> length t < length s"
proof (induction n d s and n d s and n d s arbitrary: v t and vs t and ms t
    rule: json_value_json_items_json_members.induct)
  case (2 n d s)
  then obtain c cs where c: "skip_ws s = c # cs" by (auto split: list.splits)
  have "length t \<le> length cs"
  proof -
    have "json_number (c # cs) = Some (l, t) \<Longrightarrow> length t \<le> length cs" for l
      using json_number_split [of "c # cs" l t] by (cases l) auto
    then show ?thesis
      using 2 c
      by (auto split: if_splits list.splits
          dest!: json_unquote_length skip_ws_Cons_length) fastforce+
  qed
  with skip_ws_Cons_length [OF c] show ?case by simp
next
  case (4 n d s)
  then show ?case by (fastforce split: option.splits list.splits if_splits dest!: skip_ws_Cons_length)
next
  case (6 n d s)
  then show ?case
    by (fastforce split: option.splits list.splits if_splits dest!: skip_ws_Cons_length json_unquote_length)
qed simp_all

declare json_value.simps [simp del] json_items.simps [simp del] json_members.simps [simp del]

lemma json_fuel:
  "2 * length s + 1 \<le> n \<Longrightarrow> json_value (Suc n) d s = json_value n d s"
  "2 * length s + 2 \<le> n \<Longrightarrow> json_items (Suc n) d s = json_items n d s"
  "2 * length s + 2 \<le> n \<Longrightarrow> json_members (Suc n) d s = json_members n d s"
proof (induction n arbitrary: d s)
  case (Suc n)
  {
    case 1
    have "skip_ws s = c # cs \<Longrightarrow> json_items (Suc n) (d - 1) cs = json_items n (d - 1) cs \<and>
        json_members (Suc n) (d - 1) cs = json_members n (d - 1) cs" for c cs
      using Suc.IH(2,3) [of cs "d - 1"] 1 skip_ws_Cons_length [of s c cs] by simp
    then show ?case
      unfolding json_value.simps(2) [of n d s] json_value.simps(2) [of "Suc n" d s]
      by (simp split: list.split)
  next
    case 2
    have v: "json_value (Suc n) d s = json_value n d s" using Suc.IH(1) [of s d] 2 by simp
    have "json_value n d s = Some (v, t) \<Longrightarrow> skip_ws t = c # cs \<Longrightarrow>
        json_items (Suc n) d cs = json_items n d cs" for v t c cs
      using Suc.IH(2) [of cs d] 2 json_length(1) [of n d s v t] skip_ws_Cons_length [of t c cs] by simp
    with v show ?case
      unfolding json_items.simps(2) [of n d s] json_items.simps(2) [of "Suc n" d s]
      by (simp split: option.split list.split)
  next
    case 3
    have v: "skip_ws s = q # qs \<Longrightarrow> json_unquote qs = Some (k, t) \<Longrightarrow> skip_ws t = c # cs \<Longrightarrow>
        length cs < length s \<and> json_value (Suc n) d cs = json_value n d cs" for q qs k t c cs
      using Suc.IH(1) [of cs d] 3 skip_ws_Cons_length [of s q qs] json_unquote_length [of qs k t]
        skip_ws_Cons_length [of t c cs] by simp
    have "skip_ws s = q # qs \<Longrightarrow> json_unquote qs = Some (k, t) \<Longrightarrow> skip_ws t = c # cs \<Longrightarrow>
        json_value n d cs = Some (v, t') \<Longrightarrow> skip_ws t' = e # es \<Longrightarrow>
        json_members (Suc n) d es = json_members n d es" for q qs k t c cs v t' e es
      using Suc.IH(3) [of es d] 3 v [of q qs k t c cs] json_length(1) [of n d cs v t']
        skip_ws_Cons_length [of t' e es] by simp
    with v show ?case
      unfolding json_members.simps(2) [of n d s] json_members.simps(2) [of "Suc n" d s]
      by (simp split: option.split list.split)
  }
qed simp_all

lemma json_value_enough: "json_value (2 * length s + 1 + n) d s = json_value (2 * length s + 1) d s"
proof (induction n)
  case (Suc n)
  then show ?case using json_fuel(1) [of s "2 * length s + 1 + n" d] by simp
qed simp

end
