(* ===== verification/GoUrlString.thy ===== *)
theory GoUrlString
  imports GoUrlParse "HOL-Library.List_Lexorder"
begin

text \<open>
  The other half of \<open>net/url\<close>: rendering a parsed URL with all its parts (\<open>URL.String\<close>),
  and query strings as maps (\<open>ParseQuery\<close>, \<open>Values.Set\<close>, \<open>Values.Encode\<close>). The results
  of main interest: an encoded query reads back, and rendering then parsing a parsed URL keeps its host
  and its query.
\<close>

section \<open>Rendering\<close>

definition shouldEscapeUser :: "char \<Rightarrow> bool" where
  "shouldEscapeUser c \<longleftrightarrow> \<not> unreserved c \<and> c \<notin> set ''$&+,;=''"

definition escapeUser :: "string \<Rightarrow> string" where
  "escapeUser s = concat (map (\<lambda>c. if shouldEscapeUser c then percent c else [c]) s)"

definition Userinfo_String :: "string \<times> string option \<Rightarrow> string" where
  "Userinfo_String ui =
     escapeUser (fst ui) @ (case snd ui of None \<Rightarrow> [] | Some p \<Rightarrow> CHR '':'' # escapeUser p)"

text \<open>\<open>validEncoded\<close>: a raw text that may be used as it stands.\<close>

definition validEncoded :: "(char \<Rightarrow> bool) \<Rightarrow> string \<Rightarrow> bool" where
  "validEncoded esc s \<longleftrightarrow>
     list_all (\<lambda>c. c \<in> set ''!$&()*+,;=:@[]%'' \<or> c = CHR 0x27 \<or> \<not> esc c) s"

definition full_EscapedPath :: "ParsedURL \<Rightarrow> string" where
  "full_EscapedPath u =
     (if RawPath u \<noteq> [] \<and> validEncoded (shouldEscape encodePath) (RawPath u) \<and>
         url_unescape decPlain (RawPath u) = Some (Path u) then RawPath u
      else if Path u = ''*'' then ''*'' else escape encodePath (Path u))"

definition EscapedFragment :: "ParsedURL \<Rightarrow> string" where
  "EscapedFragment u =
     (if RawFragment u \<noteq> [] \<and> validEncoded shouldEscapeFragment (RawFragment u) \<and>
         url_unescape decPlain (RawFragment u) = Some (Fragment u) then RawFragment u
      else escapeFragment (Fragment u))"

text \<open>What \<open>String\<close> writes between the scheme and the query.\<close>

definition url_body :: "ParsedURL \<Rightarrow> string" where
  "url_body u =
     (if Opaque u \<noteq> [] then Opaque u
      else
        let authority =
              (if Scheme u \<noteq> [] \<or> Host u \<noteq> [] \<or> User u \<noteq> None then
                 (if OmitHost u \<and> Host u = [] \<and> User u = None then []
                  else (if Host u \<noteq> [] \<or> Path u \<noteq> [] \<or> User u \<noteq> None then ''//'' else []) @
                    (case User u of None \<Rightarrow> [] | Some ui \<Rightarrow> Userinfo_String ui @ ''@'') @
                    escape encodeHost (Host u))
               else []);
            path = full_EscapedPath u
        in authority @ (if path \<noteq> [] \<and> hd path \<noteq> CHR ''/'' \<and> Host u \<noteq> [] then ''/'' else []) @
           (if Scheme u = [] \<and> authority = [] \<and> CHR '':'' \<in> set (fst (Cut CHR ''/'' path)) \<and>
              \<not> (path \<noteq> [] \<and> hd path \<noteq> CHR ''/'' \<and> Host u \<noteq> []) then ''./'' else []) @ path)"

definition full_String :: "ParsedURL \<Rightarrow> string" where
  "full_String u =
     (if Scheme u \<noteq> [] then Scheme u @ '':'' else []) @ url_body u @
     (if ForceQuery u \<or> RawQuery u \<noteq> [] then CHR ''?'' # RawQuery u else []) @
     (if Fragment u \<noteq> [] then CHR ''#'' # EscapedFragment u else [])"

section \<open>Query strings\<close>

type_synonym values_map = "(string, string list) go_map"

definition QueryUnescape :: "string \<Rightarrow> string option" where
  "QueryUnescape s = url_unescape decQuery s"

fun parseQuery_loop :: "values_map \<Rightarrow> string list \<Rightarrow> values_map" where
  "parseQuery_loop m [] = m"
| "parseQuery_loop m (part # parts) =
     (if CHR '';'' \<in> set part \<or> part = [] then parseQuery_loop m parts
      else case Cut CHR ''='' part of (k, v, _) \<Rightarrow>
        (case (QueryUnescape k, QueryUnescape v) of
           (Some key, Some val) \<Rightarrow>
             parseQuery_loop (AList.update key ((case map_of m key of None \<Rightarrow> [] | Some vs \<Rightarrow> vs) @ [val]) m) parts
         | _ \<Rightarrow> parseQuery_loop m parts))"

text \<open>
  \<open>URL.Query\<close>: malformed pairs are dropped, and a query of more than 10000 pairs is dropped whole.
\<close>

definition Query :: "string \<Rightarrow> values_map" where
  "Query q =
     (if 10000 \<le> count_list q CHR ''&'' then [] else parseQuery_loop [] (Split CHR ''&'' q))"

definition Values_Set :: "string \<Rightarrow> string \<Rightarrow> values_map \<Rightarrow> values_map" where
  "Values_Set k v m = AList.update k [v] m"

definition encode_pairs :: "string \<Rightarrow> string list \<Rightarrow> string list" where
  "encode_pairs k vs = map (\<lambda>v. QueryEscape k @ CHR ''='' # QueryEscape v) vs"

definition Encode :: "values_map \<Rightarrow> string" where
  "Encode m =
     Join ''&'' (concat (map (\<lambda>k. encode_pairs k (case map_of m k of None \<Rightarrow> [] | Some vs \<Rightarrow> vs))
       (sort (map fst m))))"

section \<open>Encoded queries read back\<close>

definition values_of :: "values_map \<Rightarrow> string \<Rightarrow> string list" where
  "values_of m k = (case map_of m k of None \<Rightarrow> [] | Some vs \<Rightarrow> vs)"

lemma values_of_Set [simp]: "values_of (Values_Set k v m) k' = (if k' = k then [v] else values_of m k')"
  by (simp add: values_of_def Values_Set_def)

lemma escape_query_avoids:
  "CHR ''&'' \<notin> set (QueryEscape s)" "CHR ''='' \<notin> set (QueryEscape s)" "CHR '';'' \<notin> set (QueryEscape s)"
  "CHR ''#'' \<notin> set (QueryEscape s)"
proof -
  have "shouldEscape encodeQueryComponent CHR ''&''" "shouldEscape encodeQueryComponent CHR ''=''"
    "shouldEscape encodeQueryComponent CHR '';''" "shouldEscape encodeQueryComponent CHR ''#''"
    "\<not> is_digit CHR ''&''" "\<not> is_digit CHR ''=''" "\<not> is_digit CHR '';''" "\<not> is_digit CHR ''#''"
    "\<not> is_upper CHR ''&''" "\<not> is_upper CHR ''=''" "\<not> is_upper CHR '';''" "\<not> is_upper CHR ''#''"
    by code_simp+
  then show "CHR ''&'' \<notin> set (QueryEscape s)" "CHR ''='' \<notin> set (QueryEscape s)"
    "CHR '';'' \<notin> set (QueryEscape s)" "CHR ''#'' \<notin> set (QueryEscape s)"
    using joiner_escape_byte [of encodeQueryComponent "CHR ''&''"] joiner_escape_byte [of encodeQueryComponent "CHR ''=''"]
      joiner_escape_byte [of encodeQueryComponent "CHR '';''"] joiner_escape_byte [of encodeQueryComponent "CHR ''#''"]
    by (auto simp: escape_def)
qed

lemma ishex_upperhex: "n < 16 \<Longrightarrow> ishex (upperhex n)"
proof -
  assume "n < 16"
  then have "n \<in> set [0..<16]" by simp
  moreover have "list_all (\<lambda>n. ishex (upperhex n)) [0..<16]" by code_simp
  ultimately show ?thesis unfolding list_all_iff by blast
qed

lemma escapes_ok_percent: "mode = decPlain \<or> mode = decQuery \<Longrightarrow> escapes_ok mode (percent c @ s) = escapes_ok mode s"
  by (auto simp: percent_def escape_ok_def ishex_upperhex hex_digits)

lemma escapes_ok_escape: "escapes_ok decQuery (QueryEscape s)"
proof (induction s)
  case (Cons c s)
  have "\<not> shouldEscape encodeQueryComponent c \<Longrightarrow> c \<noteq> CHR ''%''" by auto
  then show ?case
    using Cons by (cases "shouldEscape encodeQueryComponent c")
      (simp_all add: escape_def escape_byte_def escapes_ok_percent escapes_ok_plain plain_ok_def)
qed (simp add: escape_def)

lemma QueryUnescape_escape [simp]: "QueryUnescape (QueryEscape s) = Some s"
  using escapes_ok_escape [of s] query_encoder.dec_encode [of s]
  by (simp add: QueryUnescape_def url_unescape_def escape_def)

definition print_pair :: "string \<times> string \<Rightarrow> string" where
  "print_pair p = QueryEscape (fst p) @ CHR ''='' # QueryEscape (snd p)"

definition pairs_of :: "values_map \<Rightarrow> (string \<times> string) list" where
  "pairs_of m = concat (map (\<lambda>k. map (Pair k) (values_of m k)) (sort (map fst m)))"

lemma Encode_pairs: "Encode m = Join ''&'' (map print_pair (pairs_of m))"
  by (simp add: Encode_def pairs_of_def encode_pairs_def values_of_def [symmetric] map_concat comp_def print_pair_def)

lemma Split_Join:
  "xs \<noteq> [] \<Longrightarrow> \<forall>x \<in> set xs. sep \<notin> set x \<Longrightarrow> Split sep (Join [sep] xs) = xs"
proof (induction xs)
  case (Cons x xs)
  have step: "sep \<notin> set y \<Longrightarrow> Split sep (y @ sep # t) = y # Split sep t" for y t
    by (induction y) (auto split: list.splits)
  show ?case
  proof (cases "xs = []")
    case True
    with Cons show ?thesis by (simp add: Split_absent)
  next
    case False
    with Cons show ?thesis by (simp add: Join_Cons step)
  qed
qed simp

lemma print_pair_amp: "CHR ''&'' \<notin> set (print_pair p)"
  by (simp add: print_pair_def escape_query_avoids)

lemma parseQuery_pairs:
  "values_of (parseQuery_loop m (map print_pair ps)) k = values_of m k @ map snd (filter (\<lambda>p. fst p = k) ps)"
proof (induction ps arbitrary: m)
  case (Cons p ps)
  have "print_pair p \<noteq> []" "CHR '';'' \<notin> set (print_pair p)"
    by (simp_all add: print_pair_def escape_query_avoids)
  moreover have "Cut CHR ''='' (print_pair p) = (QueryEscape (fst p), QueryEscape (snd p), True)"
    by (simp add: print_pair_def Cut_found escape_query_avoids)
  ultimately have eq: "parseQuery_loop m (map print_pair (p # ps)) =
      parseQuery_loop (AList.update (fst p) (values_of m (fst p) @ [snd p]) m) (map print_pair ps)"
    by (simp add: values_of_def)
  show ?case by (subst eq, subst Cons.IH) (simp add: values_of_def)
qed simp

lemma pairs_of_filter:
  assumes "wf_map m"
  shows "map snd (filter (\<lambda>p. fst p = k) (pairs_of m)) = values_of m k"
proof -
  have one: "distinct ks \<Longrightarrow> map snd (filter (\<lambda>p. fst p = k) (concat (map (\<lambda>k. map (Pair k) (f k)) ks))) =
      (if k \<in> set ks then f k else [])" for ks and f :: "string \<Rightarrow> string list"
    by (induction ks) (auto simp: filter_map comp_def filter_empty_conv)
  have "k \<notin> keys_of m \<Longrightarrow> values_of m k = []"
    by (simp add: values_of_def map_of_None_keys [symmetric])
  moreover have "distinct (sort (map fst m))" using assms by (simp add: wf_map_def)
  ultimately show ?thesis by (auto simp: pairs_of_def one)
qed

lemma count_Join:
  "\<forall>x \<in> set xs. c \<notin> set x \<Longrightarrow> count_list (Join [c] xs) c = length xs - 1"
proof (induction xs)
  case (Cons x xs)
  then show ?case by (cases xs) (simp_all add: count_list_append count_list_0_iff)
qed simp

text \<open>An encoded map of at most 10000 pairs is read back value by value.\<close>

lemma Query_Encode:
  assumes "wf_map m" and "length (pairs_of m) \<le> 10000"
  shows "values_of (Query (Encode m)) k = values_of m k"
proof (cases "pairs_of m = []")
  case True
  then show ?thesis
    using pairs_of_filter [OF assms(1), of k] by (simp add: Encode_pairs Query_def values_of_def)
next
  case False
  have "count_list (Encode m) CHR ''&'' = length (pairs_of m) - 1"
    unfolding Encode_pairs by (subst count_Join) (simp_all add: print_pair_amp)
  with assms(2) False have "count_list (Encode m) CHR ''&'' < 10000" by (cases "pairs_of m") auto
  moreover have "Split CHR ''&'' (Encode m) = map print_pair (pairs_of m)"
    unfolding Encode_pairs using False by (intro Split_Join) (auto simp: print_pair_amp)
  ultimately show ?thesis
    using pairs_of_filter [OF assms(1), of k] by (simp add: Query_def parseQuery_pairs) (simp add: values_of_def)
qed

lemma Encode_hash: "CHR ''#'' \<notin> set (Encode m)"
proof -
  have "c \<noteq> sep \<Longrightarrow> \<forall>x \<in> set xs. c \<notin> set x \<Longrightarrow> c \<notin> set (Join [sep] xs)" for c sep xs
    by (induction "[sep]" xs rule: Join.induct) auto
  then show ?thesis
    unfolding Encode_pairs by (simp add: print_pair_def escape_query_avoids)
qed

section \<open>Rendering and parsing again\<close>

lemma escapeUser_avoids:
  "c \<in> {CHR ''/'', CHR ''?'', CHR ''#'', CHR ''@''} \<Longrightarrow> c \<notin> set (Userinfo_String ui)"
proof -
  assume c: "c \<in> {CHR ''/'', CHR ''?'', CHR ''#'', CHR ''@''}"
  have "list_all (\<lambda>c. shouldEscapeUser c \<and> \<not> is_digit c \<and> \<not> is_upper c \<and> c \<noteq> CHR ''%'' \<and> c \<noteq> CHR '':'') ''/?#@''"
    by code_simp
  with c have "shouldEscapeUser c" "\<not> is_digit c" "\<not> is_upper c" "c \<noteq> CHR ''%''" "c \<noteq> CHR '':''" by auto
  then show ?thesis
    by (auto simp: Userinfo_String_def escapeUser_def dest: set_percent split: option.splits if_splits)
qed

lemma escaped_path_avoids:
  "c \<in> {CHR ''?'', CHR ''#''} \<Longrightarrow> c \<notin> set (full_EscapedPath u)"
proof -
  assume c: "c \<in> {CHR ''?'', CHR ''#''}"
  have "list_all (\<lambda>c. shouldEscape encodePath c \<and> c \<notin> set ''!$&()*+,;=:@[]%'' \<and> c \<noteq> CHR 0x27) ''?#''"
    by code_simp
  then have "shouldEscape encodePath c" "c \<notin> set ''!$&()*+,;=:@[]%''" "c \<noteq> CHR 0x27"
    using c by (auto simp only: list_all_iff list.set insert_iff empty_iff)
  then have "\<not> validEncoded (shouldEscape encodePath) s" if "c \<in> set s" for s
    using that unfolding validEncoded_def list_all_iff by blast
  then show ?thesis
    using c escape_question [of encodePath] escape_hash [of encodePath]
    by (auto simp: full_EscapedPath_def)
qed

text \<open>The text of a URL with a host, up to its query.\<close>

definition authority_text :: "ParsedURL \<Rightarrow> string" where
  "authority_text u = (case User u of None \<Rightarrow> [] | Some ui \<Rightarrow> Userinfo_String ui @ ''@'') @ escape encodeHost (Host u)"

definition path_text :: "ParsedURL \<Rightarrow> string" where
  "path_text u =
     (let path = full_EscapedPath u in if path \<noteq> [] \<and> hd path \<noteq> CHR ''/'' then CHR ''/'' # path else path)"

lemma url_body_host:
  "Scheme u \<noteq> [] \<Longrightarrow> Host u \<noteq> [] \<Longrightarrow> Opaque u = [] \<Longrightarrow> url_body u = ''//'' @ authority_text u @ path_text u"
  by (simp add: url_body_def authority_text_def path_text_def Let_def)

lemma text_avoids:
  "CHR ''/'' \<notin> set (authority_text u)"
  "c \<in> {CHR ''?'', CHR ''#''} \<Longrightarrow> c \<notin> set (authority_text u) \<union> set (path_text u)"
  using escapeUser_avoids escaped_path_avoids [of c u] escape_hash [of encodeHost] escape_question [of encodeHost]
  by (auto simp: authority_text_def path_text_def Let_def split: option.splits)

lemma path_text_rooted: "path_text u = [] \<or> rooted (path_text u)"
  by (auto simp: path_text_def Let_def rooted_def)

lemma authority_split:
  "takeWhile (\<lambda>c. c \<noteq> CHR ''/'') (authority_text u @ path_text u) = authority_text u"
  "dropWhile (\<lambda>c. c \<noteq> CHR ''/'') (authority_text u @ path_text u) = path_text u"
proof -
  have "c \<notin> set xs \<Longrightarrow> ys = [] \<or> (\<exists>zs. ys = c # zs) \<Longrightarrow>
      takeWhile (\<lambda>d. d \<noteq> c) (xs @ ys) = xs \<and> dropWhile (\<lambda>d. d \<noteq> c) (xs @ ys) = ys" for c :: char and xs ys
    by (induction xs) auto
  moreover have "path_text u = [] \<or> (\<exists>zs. path_text u = CHR ''/'' # zs)"
    using path_text_rooted [of u] unfolding rooted_def by (metis list.collapse)
  ultimately show "takeWhile (\<lambda>c. c \<noteq> CHR ''/'') (authority_text u @ path_text u) = authority_text u"
    "dropWhile (\<lambda>c. c \<noteq> CHR ''/'') (authority_text u @ path_text u) = path_text u"
    using text_avoids(1) by blast+
qed

lemma LastIndex_last:
  assumes "c \<notin> set b"
  shows "LastIndex (a @ c # b) [c] = int (length a)"
proof -
  have p: "HasPrefix (drop (length a) (a @ c # b)) [c]" by (simp add: HasPrefix_def)
  let ?late = "[length a + 1..<Suc (length (a @ c # b))]"
  have none: "filter (\<lambda>i. HasPrefix (drop i (a @ c # b)) [c]) ?late = []"
  proof (rule filter_False, rule ballI, rule notI)
    fix i assume i: "i \<in> set [length a + 1..<Suc (length (a @ c # b))]" "HasPrefix (drop i (a @ c # b)) [c]"
    then have "drop i (a @ c # b) = drop (i - length a - 1) b" by (simp add: drop_Cons' del: upt_Suc)
    with i(2) have "c \<in> set b" by (auto simp: HasPrefix_iff) (metis in_set_dropD list.set_intros(1))
    with assms show False by simp
  qed
  have all: "[0..<Suc (length (a @ c # b))] = [0..<length a] @ length a # ?late"
    using upt_add_eq_append [of 0 "length a" "Suc (length b) + 1"] upt_conv_Cons [of "length a"]
    by (simp del: upt_Suc)
  have "filter (\<lambda>i. HasPrefix (drop i (a @ c # b)) [c]) (rev ?late) = []"
    unfolding rev_filter [symmetric] none by simp
  then show ?thesis
    unfolding LastIndex_def all using p by (simp only: rev_append rev.simps filter_append filter.simps append_Nil
        if_True list.case append_assoc append_Cons)
qed

lemma parse_authority_text:
  assumes "parseAuthority ip6 (authority_text u) = Inr (user, host)"
  shows "host = Host u"
proof -
  have "parseHost ip6 (escape encodeHost (Host u)) = Inr host"
  proof (cases "User u")
    case None
    then show ?thesis
      using assms LastIndex_absent [OF escape_at]
      by (auto simp: authority_text_def parseAuthority_def Let_def split: sum.splits)
  next
    case (Some ui)
    then have "LastIndex (authority_text u) ''@'' = int (length (Userinfo_String ui))"
      using LastIndex_last [OF escape_at] by (simp add: authority_text_def)
    with Some show ?thesis
      using assms by (auto simp: authority_text_def parseAuthority_def Let_def split: sum.splits)
  qed
  from parseHost_sound [OF this] show ?thesis by (simp add: escape_def host_encoder.dec_encode)
qed

lemma setPath_keeps:
  "setPath u p = Inr v \<Longrightarrow> Scheme v = Scheme u \<and> Host v = Host u \<and> RawQuery v = RawQuery u \<and> Opaque v = Opaque u"
  by (auto simp: setPath_def url_error_def split: option.splits)

lemma parse_rest_scheme:
  "parse_rest ip6 scheme rest query force = Inr v \<Longrightarrow> Scheme v = scheme \<and> RawQuery v = query"
  by (auto simp: parse_rest_def Let_def url_error_def blank_url_def split: if_splits sum.splits prod.splits
      dest!: setPath_keeps)

text \<open>
  A URL with a host, rendered and parsed into a request, keeps scheme, host and query; without a host it
  keeps the scheme.
\<close>

lemma NewRequest_full_String:
  assumes "Scheme u = ''https''" and "CHR ''#'' \<notin> set (RawQuery u)"
    and "NewRequest_url ip6 (full_String u) = Inr r"
  shows "Scheme r = ''https'' \<and>
    (Host u \<noteq> [] \<longrightarrow> Opaque u = [] \<longrightarrow> Host r = removeEmptyPort (Host u) \<and> RawQuery r = RawQuery u)"
proof -
  let ?frag = "if Fragment u \<noteq> [] then CHR ''#'' # EscapedFragment u else []"
  let ?q = "if ForceQuery u \<or> RawQuery u \<noteq> [] then CHR ''?'' # RawQuery u else []"
  let ?raw = "fst (Cut CHR ''#'' (full_String u))"
  from assms(3) obtain v where v: "parse_raw ip6 ?raw = Inr v"
    and r: "Scheme r = Scheme v \<and> Host r = removeEmptyPort (Host v) \<and> RawQuery r = RawQuery v"
    by (auto simp: NewRequest_url_def url_Parse_def split: sum.splits prod.splits option.splits if_splits)
  obtain s where s: "?raw = ''https:'' @ s"
    using Cut_before [of "CHR ''#''" "''https:''" "url_body u @ ?q @ ?frag"] assms(1)
    by (simp add: full_String_def)
  note p = parse_raw_https [OF v [unfolded s]]
  then have https: "Scheme r = ''https''"
    using r by (auto split: prod.splits dest: parse_rest_scheme)
  show ?thesis
  proof (intro conjI impI https)
    assume "Host u \<noteq> []" and "Opaque u = []"
    then have body: "url_body u = ''//'' @ authority_text u @ path_text u"
      using assms(1) by (intro url_body_host) simp_all
    let ?x = "''//'' @ authority_text u @ path_text u"
    have hash: "CHR ''#'' \<notin> set (''https:'' @ ?x @ ?q)" and ques: "CHR ''?'' \<notin> set ?x"
      using text_avoids(2) [of "CHR ''#''" u] text_avoids(2) [of "CHR ''?''" u] assms(2) by auto
    have "full_String u = (''https:'' @ ?x @ ?q) @ ?frag" using assms(1) body by (simp add: full_String_def)
    then have "?raw = (''https:'' @ ?x @ ?q) @ fst (Cut CHR ''#'' ?frag)"
      by (simp only: Cut_before [OF hash] fst_conv)
    also have "fst (Cut CHR ''#'' ?frag) = []" by simp
    finally have "s = ?x @ ?q" using s by simp
    then have "\<exists>force. parse_rest ip6 ''https'' ?x (RawQuery u) force = Inr v"
      using p split_query_none [OF ques] split_query_some [OF ques, of "RawQuery u"] by (auto split: if_splits)
    then obtain force where pr: "parse_rest ip6 ''https'' ?x (RawQuery u) force = Inr v" by blast
    have "HasPrefix ?x ''/''" "HasPrefix ?x ''//''" "drop 2 ?x = authority_text u @ path_text u"
      by (simp_all add: HasPrefix_def)
    with pr obtain user host w where a: "parseAuthority ip6 (authority_text u) = Inr (user, host)"
      and "setPath w (path_text u) = Inr v" and "Host w = host"
      by (auto simp: parse_rest_def Let_def authority_split split: sum.splits)
    then have "Host v = Host u" using setPath_keeps parse_authority_text [OF a] by metis
    with r parse_rest_scheme [OF pr]
    show "Host r = removeEmptyPort (Host u)" and "RawQuery r = RawQuery u" by simp_all
  qed
qed

lemma parsed_host_not_opaque: "url_Parse ip6 raw = Inr u \<Longrightarrow> Host u \<noteq> [] \<Longrightarrow> Opaque u = []"
  by (auto simp: url_Parse_def parse_raw_def parse_rest_def Let_def url_error_def blank_url_def
      split: sum.splits prod.splits option.splits if_splits dest!: setPath_keeps)

end
