(* ===== verification/OciToken.thy ===== *)
theory OciToken
  imports TokenCache JsonValue GoUrlString
begin

text \<open>
  Fetching an anonymous token, \<open>fetchToken\<close> of \<open>src/oci_auth.go\<close>: the request a
  challenge leads to, what of the answer is accepted, and how long the token is kept. The transport
  underneath is a function over a world, as in \<open>Server\<close>; which error a body that does not decode
  gives is not modelled.
\<close>

section \<open>The request\<close>

definition errRealmNotHTTPS :: go_error where "errRealmNotHTTPS = ErrPlain ''realm URL scheme is not https''"
definition errTokenMissing :: go_error where
  "errTokenMissing = ErrPlain ''token response missing token and access_token fields''"
definition errTokenEndpoint :: go_error where "errTokenEndpoint = ErrPlain ''unexpected token endpoint status''"

definition token_query :: "ociAuthChallenge \<Rightarrow> values_map \<Rightarrow> values_map" where
  "token_query ch q =
     (let q = (if Service ch \<noteq> [] then Values_Set ''service'' (Service ch) q else q)
      in if Scope ch \<noteq> [] then Values_Set ''scope'' (Scope ch) q else q)"

definition token_request :: "(string \<Rightarrow> bool) \<Rightarrow> ociAuthChallenge \<Rightarrow> go_error + UpRequest" where
  "token_request ip ch =
     (case url_Parse ip (Realm ch) of
        Inl err \<Rightarrow> Inl (Wrap err ''invalid realm URL'')
      | Inr realmURL \<Rightarrow>
          if Scheme realmURL \<noteq> ''https'' then Inl (Wrapf errRealmNotHTTPS ''%w: %q'' [Scheme realmURL])
          else let q = token_query ch (Query (RawQuery realmURL));
                   tokenURL = full_String (realmURL\<lparr>RawQuery := Encode q\<rparr>)
               in case NewRequest_url ip tokenURL of
                    Inl err \<Rightarrow> Inl (Wrap err ''failed to create token request'')
                  | Inr u \<Rightarrow> Inr \<lparr>UpMethod = ''GET'', UpURL = u, UpHeader = []\<rparr>)"

section \<open>The answer\<close>

record tokenResponse =
  Token :: string
  AccessToken :: string
  ExpiresIn :: int

definition zero_tokenResponse :: tokenResponse where
  "zero_tokenResponse = \<lparr>Token = [], AccessToken = [], ExpiresIn = 0\<rparr>"

text \<open>An integer literal that fits an \<open>int\<close>.\<close>

definition json_int :: "string \<Rightarrow> int option" where
  "json_int lit =
     (let neg = HasPrefix lit ''-''; ds = (if neg then drop 1 lit else lit);
          v = (if neg then - decimal_value ds else decimal_value ds)
      in if ds \<noteq> [] \<and> list_all is_digit ds \<and> int64 v then Some v else None)"

text \<open>
  Decoding into the struct: keys match the tags in any case, the last one of a name wins, \<open>null\<close>
  leaves a field alone, unknown keys are skipped, any other type is an error.
\<close>

fun decode_members :: "(string \<times> json) list \<Rightarrow> tokenResponse \<Rightarrow> tokenResponse option" where
  "decode_members [] tr = Some tr"
| "decode_members ((k, v) # ms) tr =
     (if EqualFold k ''token'' then
        (case v of JStr s \<Rightarrow> decode_members ms (tr\<lparr>Token := s\<rparr>) | JNull \<Rightarrow> decode_members ms tr | _ \<Rightarrow> None)
      else if EqualFold k ''access_token'' then
        (case v of JStr s \<Rightarrow> decode_members ms (tr\<lparr>AccessToken := s\<rparr>) | JNull \<Rightarrow> decode_members ms tr | _ \<Rightarrow> None)
      else if EqualFold k ''expires_in'' then
        (case v of
           JNum lit \<Rightarrow> (case json_int lit of Some i \<Rightarrow> decode_members ms (tr\<lparr>ExpiresIn := i\<rparr>) | None \<Rightarrow> None)
         | JNull \<Rightarrow> decode_members ms tr
         | _ \<Rightarrow> None)
      else decode_members ms tr)"

definition token_body_limit :: nat where "token_body_limit = 1048576"

definition decode_token :: "reader \<Rightarrow> tokenResponse option" where
  "decode_token body =
     (let s = take token_body_limit (fst body) in
      case json_first s of
        Some (JObj ms, rest) \<Rightarrow> decode_members ms zero_tokenResponse
      | Some (JNull, rest) \<Rightarrow>
          if rest = [] \<and> snd body \<noteq> None \<and> length (fst body) < token_body_limit then None
          else Some zero_tokenResponse
      | _ \<Rightarrow> None)"

definition accepted_token :: "tokenResponse \<Rightarrow> string" where
  "accepted_token tr = (if Token tr = [] then AccessToken tr else Token tr)"

definition token_lifetime :: "int \<Rightarrow> duration" where
  "token_lifetime secs =
     (let expiresIn = (if secs = 0 then 60 else secs);
          bufferedDuration = wrap64 (wrap64 (expiresIn * Second) - 30 * Second)
      in if bufferedDuration \<le> 0 then 5 * Second else bufferedDuration)"

text \<open>What the status and the body of the answer give: a token and its lifetime, or an error.\<close>

definition read_token :: "Response \<Rightarrow> go_error + (string \<times> duration)" where
  "read_token resp =
     (if StatusCode resp \<noteq> 200 then
        Inl (Wrapf errTokenEndpoint ''token endpoint returned %d'' [Itoa (nat (StatusCode resp))])
      else case decode_token (RespBody resp) of
          None \<Rightarrow> Inl (Wrap (ErrPlain ''json'') ''failed to decode token response'')
        | Some tr \<Rightarrow>
            if accepted_token tr = [] then Inl errTokenMissing
            else Inr (accepted_token tr, token_lifetime (ExpiresIn tr)))"

section \<open>The fetch\<close>

definition read_clock :: "('w \<Rightarrow> time \<times> 'w) \<Rightarrow> ('w sys, time) state" where
  "read_clock now =
     State (\<lambda>s. case now (world s) of (t, w) \<Rightarrow> (t, s\<lparr>world := w, trace := trace s @ [EvNow t]\<rparr>))"

lemma framed_read_clock [framed]: "framed (read_clock now)"
  by (simp add: framed_def read_clock_def split: prod.split)

lemma exec_read_clock [simp]: "exec (read_clock now) w t es w' \<longleftrightarrow> now w = (t, w') \<and> es = [EvNow t]"
  by (auto simp: exec_def read_clock_def split: prod.splits)

definition fetchToken ::
    "('w \<Rightarrow> time \<times> 'w) \<Rightarrow> (string \<Rightarrow> bool) \<Rightarrow> (UpRequest \<Rightarrow> 'w \<Rightarrow> (go_error + Response) \<times> 'w) \<Rightarrow>
     ociAuthChallenge \<Rightarrow> ('w sys, go_error + string \<times> time) state" where
  "fetchToken now ip base ch =
     (case token_request ip ch of
        Inl err \<Rightarrow> State_Monad.return (Inl err)
      | Inr req \<Rightarrow> do {
          r \<leftarrow> perform (EvDo req) (base req);
          (case r of
             Inl err \<Rightarrow> State_Monad.return (Inl (Wrap err ''failed to fetch token''))
           | Inr resp \<Rightarrow>
               (case read_token resp of
                  Inl err \<Rightarrow> State_Monad.return (Inl err)
                | Inr (tok, lifetime) \<Rightarrow> do {
                    t \<leftarrow> read_clock now;
                    State_Monad.return (Inr (tok, Add t lifetime))
                  }))
        })"

lemma framed_fetchToken [framed]: "framed (fetchToken now ip base ch)"
  unfolding fetchToken_def by (intro framed)

lemma exec_fetchToken:
  "exec (fetchToken now ip base ch) w r es w' \<longleftrightarrow>
     (case token_request ip ch of
        Inl err \<Rightarrow> r = Inl err \<and> es = [] \<and> w' = w
      | Inr req \<Rightarrow>
          (case base req w of
             (Inl err, w1) \<Rightarrow> r = Inl (Wrap err ''failed to fetch token'') \<and> es = [EvDo req] \<and> w' = w1
           | (Inr resp, w1) \<Rightarrow>
               (case read_token resp of
                  Inl err \<Rightarrow> r = Inl err \<and> es = [EvDo req] \<and> w' = w1
                | Inr (tok, lifetime) \<Rightarrow>
                    r = Inr (tok, Add (fst (now w1)) lifetime) \<and> es = [EvDo req, EvNow (fst (now w1))] \<and>
                    w' = snd (now w1))))"
proof (cases "token_request ip ch")
  case (Inl e)
  then show ?thesis by (simp add: fetchToken_def)
next
  case (Inr req)
  obtain a w1 where a: "base req w = (a, w1)" by fastforce
  obtain t w2 where t: "now w1 = (t, w2)" by fastforce
  show ?thesis
  proof (cases a)
    case (Inl e)
    with Inr a show ?thesis by (auto simp: fetchToken_def exec_bind framed)
  next
    case resp: (Inr resp)
    show ?thesis
    proof (cases "read_token resp")
      case (Inl e)
      with Inr a resp show ?thesis by (auto simp: fetchToken_def exec_bind framed)
    next
      case (Inr p)
      with \<open>token_request ip ch = Inr req\<close> a resp t show ?thesis
        by (cases p) (auto simp: fetchToken_def exec_bind framed)
    qed
  qed
qed

section \<open>What a request asks for\<close>

lemma token_query_values:
  "values_of (token_query ch q) k =
     (if k = ''scope'' \<and> Scope ch \<noteq> [] then [Scope ch]
      else if k = ''service'' \<and> Service ch \<noteq> [] then [Service ch] else values_of q k)"
  by (simp add: token_query_def Let_def)

lemma wf_token_query [simp]: "wf_map q \<Longrightarrow> wf_map (token_query ch q)"
  by (simp add: token_query_def Let_def Values_Set_def)

lemma wf_Query [simp]: "wf_map (Query q)"
proof -
  have "wf_map m \<Longrightarrow> wf_map (parseQuery_loop m parts)" for m parts
    by (induction m parts rule: parseQuery_loop.induct) (auto split: prod.splits option.splits)
  then show ?thesis by (simp add: Query_def)
qed

lemma token_requestD:
  assumes "token_request ip ch = Inr req"
  obtains u where "url_Parse ip (Realm ch) = Inr u" "Scheme u = ''https''"
    "NewRequest_url ip (full_String (u\<lparr>RawQuery := Encode (token_query ch (Query (RawQuery u)))\<rparr>)) = Inr (UpURL req)"
    "UpMethod req = ''GET''" "UpHeader req = []"
  using assms by (auto simp: token_request_def Let_def split: sum.splits if_splits)

lemma token_request_shape:
  "token_request ip ch = Inr req \<Longrightarrow> UpMethod req = ''GET'' \<and> UpHeader req = [] \<and> Scheme (UpURL req) = ''https''"
  by (erule token_requestD) (auto dest!: NewRequest_full_String [rotated 2] simp: Encode_hash)

definition total_pairs :: "values_map \<Rightarrow> nat" where
  "total_pairs m = sum_list (map (length \<circ> snd) m)"

lemma total_pairs_of: "wf_map m \<Longrightarrow> length (pairs_of m) = total_pairs m"
proof -
  assume wf: "wf_map m"
  have "length (pairs_of m) = sum_list (map (\<lambda>k. length (values_of m k)) (sort (map fst m)))"
    by (simp add: pairs_of_def length_concat comp_def)
  also have "\<dots> = sum_list (map (\<lambda>k. length (values_of m k)) (map fst m))"
    by (simp only: sum_mset_sum_list [symmetric] mset_map mset_sort)
  also have "\<dots> = total_pairs m"
    unfolding total_pairs_def map_map comp_def using wf
    by (intro arg_cong [where f = sum_list] map_cong) (auto simp: values_of_def wf_map_def)
  finally show ?thesis .
qed

lemma total_pairs_update:
  "total_pairs (AList.update k vs m) + length (values_of m k) = total_pairs m + length vs"
  by (induction m) (auto simp: total_pairs_def values_of_def)

lemma parseQuery_total: "total_pairs (parseQuery_loop m parts) \<le> total_pairs m + length parts"
proof (induction m parts rule: parseQuery_loop.induct)
  case (2 m part parts)
  have step: "total_pairs (AList.update key ((case map_of m key of None \<Rightarrow> [] | Some vs \<Rightarrow> vs) @ [val]) m) = Suc (total_pairs m)" for key val
    using total_pairs_update [of key "values_of m key @ [val]" m] by (simp add: values_of_def)
  show ?case
  proof (cases "CHR '';'' \<in> set part \<or> part = []")
    case True
    with 2(1) show ?thesis by auto
  next
    case False
    obtain k v ok where c: "Cut CHR ''='' part = (k, v, ok)" by (metis prod_cases3)
    show ?thesis
      using False c 2(2-) step by (auto split: option.splits simp: le_SucI)
  qed
qed simp

lemma token_query_total: "total_pairs (token_query ch q) \<le> total_pairs q + 2"
proof -
  have "total_pairs (Values_Set k v m) \<le> total_pairs m + 1" for k v m
    using total_pairs_update [of k "[v]" m] by (simp add: Values_Set_def)
  from this [of "''scope''" "Scope ch" "Values_Set ''service'' (Service ch) q"]
    this [of "''scope''" "Scope ch" q] this [of "''service''" "Service ch" q]
  show ?thesis by (simp add: token_query_def Let_def)
qed

lemma length_Split: "length (Split sep s) = Suc (count_list s sep)"
  by (induction s) (auto split: list.splits)

lemma token_query_fits:
  assumes "count_list q CHR ''&'' < 9998"
  shows "length (pairs_of (token_query ch (Query q))) \<le> 10000"
proof -
  have "total_pairs (Query q) \<le> Suc (count_list q CHR ''&'')"
    using parseQuery_total [of "[]" "Split CHR ''&'' q"] by (simp add: Query_def length_Split total_pairs_def)
  with assms token_query_total [of ch "Query q"] show ?thesis by (simp add: total_pairs_of)
qed

section \<open>Lifetimes\<close>



section \<open>Properties\<close>

text \<open>
  C28. The token request is what the challenge says and nothing more. It is a GET without any header,
  over https, for a realm given with https; when the realm has a host it goes to that host, and its
  query reads back as the realm's with the challenge's service and scope put in place.
\<close>

theorem token_request_exact:
  assumes "token_request ip ch = Inr req" and "url_Parse ip (Realm ch) = Inr u"
  shows "UpMethod req = ''GET'' \<and> UpHeader req = [] \<and> Scheme u = ''https'' \<and> Scheme (UpURL req) = ''https'' \<and>
    (Host u \<noteq> [] \<longrightarrow> Host (UpURL req) = removeEmptyPort (Host u) \<and>
      (count_list (RawQuery u) CHR ''&'' < 9998 \<longrightarrow>
        (\<forall>k. values_of (Query (RawQuery (UpURL req))) k =
          (if k = ''scope'' \<and> Scope ch \<noteq> [] then [Scope ch]
           else if k = ''service'' \<and> Service ch \<noteq> [] then [Service ch]
           else values_of (Query (RawQuery u)) k))))"
proof -
  let ?v = "u\<lparr>RawQuery := Encode (token_query ch (Query (RawQuery u)))\<rparr>"
  from assms have https: "Scheme u = ''https''" and new: "NewRequest_url ip (full_String ?v) = Inr (UpURL req)"
    by (auto elim!: token_requestD)
  have full: "Scheme (UpURL req) = ''https'' \<and> (Host ?v \<noteq> [] \<longrightarrow> Opaque ?v = [] \<longrightarrow>
      Host (UpURL req) = removeEmptyPort (Host ?v) \<and> RawQuery (UpURL req) = RawQuery ?v)"
    using https by (intro NewRequest_full_String [OF _ _ new]) (simp_all add: Encode_hash)
  have "Host u \<noteq> [] \<longrightarrow> Opaque u = []" using parsed_host_not_opaque [OF assms(2)] by blast
  moreover have "values_of (Query (Encode (token_query ch (Query (RawQuery u))))) k =
      values_of (token_query ch (Query (RawQuery u))) k" if "count_list (RawQuery u) CHR ''&'' < 9998" for k
    by (rule Query_Encode) (simp_all add: token_query_fits [OF that])
  ultimately show ?thesis
    using token_request_shape [OF assms(1)] https full by (simp add: token_query_values)
qed

definition demo_token_request :: UpRequest where
  "demo_token_request = \<lparr>UpMethod = ''GET'',
     UpURL = blank_url\<lparr>Scheme := ''https'', Host := ''auth.example'', Path := ''/token'',
       RawQuery := ''scope=pull&service=registry''\<rparr>, UpHeader = []\<rparr>"

lemma demo_token_requested: "token_request (\<lambda>_. False) demo_challenge = Inr demo_token_request"
  by code_simp

theorem token_request_exact_witness:
  "values_of (Query (RawQuery (UpURL demo_token_request))) ''scope'' = [''pull''] \<and>
   Host (UpURL demo_token_request) = removeEmptyPort ''auth.example''"
proof -
  have u: "url_Parse (\<lambda>_. False) (Realm demo_challenge) =
      Inr (blank_url\<lparr>Scheme := ''https'', Host := ''auth.example'', Path := ''/token''\<rparr>)"
    by code_simp
  from token_request_exact [OF demo_token_requested u]
  show ?thesis by (simp add: blank_url_def demo_challenge_def)
qed



end
