(* ===== verification/OciTransport.thy ===== *)
theory OciTransport
  imports OciToken
begin

text \<open>
  The transport that answers Bearer challenges, the second half of \<open>src/oci_auth.go\<close>: cached
  tokens, and \<open>RoundTrip\<close> with its proactive and its discovery path. The base transport and the
  clock are functions over a world; the two maps are part of the state. Every request to the base
  transport and every log line is in the trace. This is one call of \<open>RoundTrip\<close> at a time; calls
  that share a token fetch are the subject of \<open>Flights\<close>. Draining and closing a discarded body
  has no effect here.
\<close>

section \<open>State and primitives\<close>

record 'w ociAuthTransport =
  base :: "UpRequest \<Rightarrow> 'w \<Rightarrow> (go_error + Response) \<times> 'w"
  oci_now :: "'w \<Rightarrow> time \<times> 'w"
  oci_ip6 :: "string \<Rightarrow> bool"

record 'w oci_state =
  net :: 'w
  token_store :: tokenCache
  challenge_store :: challenge_map

definition base_call :: "'w ociAuthTransport \<Rightarrow> UpRequest \<Rightarrow> 'w oci_state \<Rightarrow> (go_error + Response) \<times> 'w oci_state" where
  "base_call t req s = (case base t req (net s) of (r, w) \<Rightarrow> (r, s\<lparr>net := w\<rparr>))"

definition now_call :: "'w ociAuthTransport \<Rightarrow> 'w oci_state \<Rightarrow> time \<times> 'w oci_state" where
  "now_call t s = (case oci_now t (net s) of (n, w) \<Rightarrow> (n, s\<lparr>net := w\<rparr>))"

definition send :: "'w ociAuthTransport \<Rightarrow> UpRequest \<Rightarrow> ('w oci_state sys, go_error + Response) state" where
  "send t req = perform (EvDo req) (base_call t req)"

definition read_state :: "('w oci_state \<Rightarrow> 'a) \<Rightarrow> ('w oci_state sys, 'a) state" where
  "read_state f = State (\<lambda>s. (f (world s), s))"

definition write_state :: "('w oci_state \<Rightarrow> 'w oci_state) \<Rightarrow> ('w oci_state sys, unit) state" where
  "write_state f = State (\<lambda>s. ((), s\<lparr>world := f (world s)\<rparr>))"

lemma framed_oci_prims [framed]:
  "framed (send t req)" "framed (read_state f)" "framed (write_state g)"
  by (simp_all add: send_def framed_prims) (simp_all add: framed_def read_state_def write_state_def)

lemma exec_oci_prims [simp]:
  "exec (send t req) w r es w' \<longleftrightarrow> base_call t req w = (r, w') \<and> es = [EvDo req]"
  "exec (read_state f) w v es w' \<longleftrightarrow> v = f w \<and> es = [] \<and> w' = w"
  "exec (write_state g) w u es w' \<longleftrightarrow> es = [] \<and> w' = g w"
  by (auto simp: send_def exec_def read_state_def write_state_def perform_def split: prod.splits)

text \<open>\<open>log.Printf\<close>, which goes to the process's logger: format and arguments are kept.\<close>

definition Printf :: "string \<Rightarrow> attr list \<Rightarrow> ('w sys, unit) state" where
  "Printf fmt args = emit (log_at LevelInfo [] fmt args)"

lemma framed_Printf [framed]: "framed (Printf fmt args)"
  by (simp add: Printf_def framed_prims)

lemma exec_Printf [simp]:
  "exec (Printf fmt args) w u es w' \<longleftrightarrow> es = [EvLog (log_at LevelInfo [] fmt args)] \<and> w' = w"
  by (simp add: Printf_def)

section \<open>Tokens\<close>

definition cached_token :: "'w ociAuthTransport \<Rightarrow> ociAuthChallenge \<Rightarrow> ('w oci_state sys, string option) state" where
  "cached_token t ch = do {
     c \<leftarrow> read_state token_store;
     (case map_of (entries c) ch of
        None \<Rightarrow> State_Monad.return None
      | Some entry \<Rightarrow> do {
          now \<leftarrow> read_clock (now_call t);
          State_Monad.return (token_get now c ch)
        })
   }"

text \<open>The key under which concurrent fetches of one challenge are merged.\<close>

definition token_flight_key :: "ociAuthChallenge \<Rightarrow> string" where
  "token_flight_key ch = Realm ch @ CHR 0x00 # Service ch @ CHR 0x00 # Scope ch"

text \<open>What one flight runs: fetch a token and store it.\<close>

definition fetchAndStore :: "'w ociAuthTransport \<Rightarrow> ociAuthChallenge \<Rightarrow> ('w oci_state sys, go_error + string) state" where
  "fetchAndStore t ch = do {
     r \<leftarrow> fetchToken (now_call t) (oci_ip6 t) (base_call t) ch;
     (case r of
        Inl err \<Rightarrow> State_Monad.return (Inl err)
      | Inr (tok, exp) \<Rightarrow> do {
          write_state (\<lambda>s. s\<lparr>token_store := token_set ch tok exp (token_store s)\<rparr>);
          State_Monad.return (Inr tok)
        })
   }"

definition flight_result :: "go_error + string \<Rightarrow> go_error + string" where
  "flight_result r = (case r of Inl err \<Rightarrow> Inl (Wrap err ''oci auth token fetch'') | Inr tok \<Rightarrow> Inr tok)"

definition getOrFetch :: "'w ociAuthTransport \<Rightarrow> ociAuthChallenge \<Rightarrow> ('w oci_state sys, go_error + string) state" where
  "getOrFetch t ch = do {
     cached \<leftarrow> cached_token t ch;
     (case cached of
        Some tok \<Rightarrow> State_Monad.return (Inr tok)
      | None \<Rightarrow> do {
          r \<leftarrow> fetchAndStore t ch;
          State_Monad.return (flight_result r)
        })
   }"

section \<open>Requests\<close>

definition with_token :: "string \<Rightarrow> UpRequest \<Rightarrow> UpRequest" where
  "with_token tok req = req\<lparr>UpHeader := hdr_Set (UpHeader req) ''Authorization'' (''Bearer '' @ tok)\<rparr>"

definition wrap_result :: "string \<Rightarrow> go_error + Response \<Rightarrow> go_error + Response" where
  "wrap_result msg r = (case r of Inl err \<Rightarrow> Inl (Wrap err msg) | Inr resp \<Rightarrow> Inr resp)"

definition repo_attrs :: "string \<Rightarrow> string \<Rightarrow> attr list" where
  "repo_attrs host repo = [AStr ''%q'' host, AStr ''%q'' repo]"

text \<open>The end of the discovery path: redeem a challenge found in the bare request's 401, \<open>resp\<close>.\<close>

definition redeem ::
    "'w ociAuthTransport \<Rightarrow> UpRequest \<Rightarrow> string \<Rightarrow> string \<Rightarrow> Response \<Rightarrow> ociAuthChallenge \<Rightarrow>
     ('w oci_state sys, go_error + Response) state" where
  "redeem t req host repo resp ch = do {
     tok \<leftarrow> getOrFetch t ch;
     (case tok of
        Inl err \<Rightarrow> do {
          Printf ''oci auth: token fetch failed for %q/%q: %v'' (repo_attrs host repo @ [AErr ''%v'' err]);
          State_Monad.return (Inr resp)
        }
      | Inr tok \<Rightarrow> do {
          r \<leftarrow> send t (with_token tok req);
          State_Monad.return (wrap_result ''oci auth retry with token'' r)
        })
   }"

text \<open>The discovery path from the moment a challenge is found.\<close>

definition discovered ::
    "'w ociAuthTransport \<Rightarrow> UpRequest \<Rightarrow> string \<Rightarrow> string \<Rightarrow> ociAuthChallenge option \<Rightarrow> Response \<Rightarrow>
     ociAuthChallenge \<Rightarrow> ('w oci_state sys, go_error + Response) state" where
  "discovered t req host repo failedChallenge resp ch = do {
     Printf ''oci auth: discovered challenge for %q/%q (realm=%q)''
       (repo_attrs host repo @ [AStr ''%q'' (Realm ch)]);
     now \<leftarrow> read_clock (now_call t);
     write_state (\<lambda>s. s\<lparr>challenge_store :=
       challenge_set (challengeKey host repo) ch (Add now challengeTTL) (challenge_store s)\<rparr>);
     if failedChallenge = Some ch then do {
       Printf ''oci auth: skipping re-fetch for %q/%q (same challenge already failed)'' (repo_attrs host repo);
       State_Monad.return (Inr resp)
     }
     else redeem t req host repo resp ch
   }"

definition discoveryPath ::
    "'w ociAuthTransport \<Rightarrow> UpRequest \<Rightarrow> string \<Rightarrow> string \<Rightarrow> ociAuthChallenge option \<Rightarrow>
     ('w oci_state sys, go_error + Response) state" where
  "discoveryPath t req host repo failedChallenge =
     (if UpMethod req \<noteq> ''GET'' \<and> UpMethod req \<noteq> ''HEAD'' then do {
        r \<leftarrow> send t req;
        State_Monad.return (wrap_result ''oci auth non-idempotent passthrough'' r)
      }
      else do {
        r \<leftarrow> send t req;
        (case r of
           Inl err \<Rightarrow> State_Monad.return (Inl (Wrap err ''oci auth discovery request''))
         | Inr resp \<Rightarrow>
             (case parseOCIAuthChallenge resp of
                None \<Rightarrow> State_Monad.return (Inr resp)
              | Some ch \<Rightarrow> discovered t req host repo failedChallenge resp ch))
      })"

text \<open>The challenge known for a key, if it has not expired; the clock is read only if there is an entry.\<close>

definition known_challenge :: "'w ociAuthTransport \<Rightarrow> string \<Rightarrow> ('w oci_state sys, ociAuthChallenge option) state" where
  "known_challenge t key = do {
     m \<leftarrow> read_state challenge_store;
     (case map_of m key of
        None \<Rightarrow> State_Monad.return None
      | Some entry \<Rightarrow> do {
          now \<leftarrow> read_clock (now_call t);
          State_Monad.return (challenge_get now m key)
        })
   }"

definition proactivePath ::
    "'w ociAuthTransport \<Rightarrow> UpRequest \<Rightarrow> string \<Rightarrow> string \<Rightarrow> ociAuthChallenge \<Rightarrow>
     ('w oci_state sys, go_error + Response) state" where
  "proactivePath t req host repo ch = do {
     tok \<leftarrow> getOrFetch t ch;
     (case tok of
        Inr tok \<Rightarrow> do {
          r \<leftarrow> send t (with_token tok req);
          (case r of
             Inl err \<Rightarrow> State_Monad.return (Inl (Wrap err ''oci auth proactive request''))
           | Inr resp \<Rightarrow>
               if StatusCode resp = 401 \<and> (UpMethod req = ''GET'' \<or> UpMethod req = ''HEAD'') then do {
                 Printf ''oci auth: stale token for %q/%q, re-discovering'' (repo_attrs host repo);
                 write_state (\<lambda>s. s\<lparr>challenge_store := challenge_delete (challengeKey host repo) (challenge_store s)\<rparr>);
                 write_state (\<lambda>s. s\<lparr>token_store := token_evict ch (token_store s)\<rparr>);
                 discoveryPath t req host repo None
               }
               else State_Monad.return (Inr resp))
        }
      | Inl err \<Rightarrow> do {
          Printf ''oci auth: token fetch failed for %q/%q: %v'' (repo_attrs host repo @ [AErr ''%v'' err]);
          discoveryPath t req host repo (Some ch)
        })
   }"

definition RoundTrip :: "'w ociAuthTransport \<Rightarrow> UpRequest \<Rightarrow> ('w oci_state sys, go_error + Response) state" where
  "RoundTrip t req =
     (if hdr_Get (UpHeader req) ''Authorization'' \<noteq> [] then send t req
      else case extractOCIRepository (UpURL req) of
          None \<Rightarrow> send t req
        | Some (host, repo) \<Rightarrow> do {
            known \<leftarrow> known_challenge t (challengeKey host repo);
            (case known of
               Some ch \<Rightarrow> proactivePath t req host repo ch
             | None \<Rightarrow> discoveryPath t req host repo None)
          })"

lemma framed_tokens [framed]:
  "framed (cached_token t ch)" "framed (fetchAndStore t ch)" "framed (known_challenge t key)"
  unfolding cached_token_def fetchAndStore_def known_challenge_def by (intro framed)+

lemma framed_getOrFetch [framed]: "framed (getOrFetch t ch)"
  unfolding getOrFetch_def by (intro framed)

lemma framed_redeem [framed]: "framed (redeem t req host repo resp ch)"
  unfolding redeem_def by (intro framed)

lemma framed_discovered [framed]: "framed (discovered t req host repo failed resp ch)"
  unfolding discovered_def by (intro framed)

lemma framed_discoveryPath [framed]: "framed (discoveryPath t req host repo failed)"
  unfolding discoveryPath_def by (intro framed)

lemma framed_proactivePath [framed]: "framed (proactivePath t req host repo ch)"
  unfolding proactivePath_def by (intro framed)

lemma framed_RoundTrip [framed]: "framed (RoundTrip t req)"
  unfolding RoundTrip_def by (intro framed)

section \<open>Life of the transport\<close>

text \<open>\<open>newOCIAuthTransport\<close>, and one round of its background loop: a tick sweeps both maps, each at its own instant.\<close>

definition newOCIAuthTransport :: "'w \<Rightarrow> 'w oci_state" where
  "newOCIAuthTransport w = \<lparr>net = w, token_store = newTokenCache, challenge_store = []\<rparr>"

definition sweepInterval :: duration where
  "sweepInterval = 5 * Minute"

datatype loop_event = Tick | Stop

definition sweep_round :: "'w ociAuthTransport \<Rightarrow> ('w oci_state sys, unit) state" where
  "sweep_round t = do {
     now \<leftarrow> read_clock (now_call t);
     write_state (\<lambda>s. s\<lparr>challenge_store := sweepChallenges now (challenge_store s)\<rparr>);
     now \<leftarrow> read_clock (now_call t);
     write_state (\<lambda>s. s\<lparr>token_store := token_sweep now (token_store s)\<rparr>)
   }"

text \<open>The loop over what its \<open>select\<close> receives; \<open>True\<close> when it has returned.\<close>

fun sweepLoop :: "'w ociAuthTransport \<Rightarrow> loop_event list \<Rightarrow> ('w oci_state sys, bool) state" where
  "sweepLoop t [] = State_Monad.return False"
| "sweepLoop t (Tick # evs) = do { sweep_round t; sweepLoop t evs }"
| "sweepLoop t (Stop # evs) = State_Monad.return True"

lemma framed_sweeps [framed]: "framed (sweep_round t)" "framed (sweepLoop t evs)"
proof -
  show r: "framed (sweep_round t)" unfolding sweep_round_def by (intro framed)
  have "framed (sweep_round t)" for t :: "'a ociAuthTransport" unfolding sweep_round_def by (intro framed)
  then show "framed (sweepLoop t evs)" by (induction t evs rule: sweepLoop.induct) (auto intro: framed)
qed

end
