(* ===== verification/GoDuration.thy ===== *)
theory GoDuration
  imports GoErrors GoUrl
begin

text \<open>
  Go's readers of flag values: \<open>time.ParseDuration\<close>, \<open>strconv.ParseBool\<close>,
  \<open>strconv.Atoi\<close> and \<open>slog.Level\<close>'s text form. Unsigned 64-bit sums wrap as Go's do.
  A fraction of a unit goes through \<open>float64\<close>: a mantissa and a binary exponent, every operation
  rounded to 53 bits, to even on a tie. The exponent is not bounded: where a real one would overflow or
  underflow, the scaled fraction is below one nanosecond either way.
\<close>

section \<open>float64\<close>

type_synonym float64 = "nat \<times> int"

fun bit_length :: "nat \<Rightarrow> nat" where
  "bit_length n = (if n = 0 then 0 else Suc (bit_length (n div 2)))"

declare bit_length.simps [simp del]

definition nearest_even :: "nat \<Rightarrow> nat \<Rightarrow> nat" where
  "nearest_even a b =
     (let q = a div b; r = a mod b in if b < 2 * r \<or> (2 * r = b \<and> odd q) then Suc q else q)"

definition float_ratio :: "nat \<Rightarrow> nat \<Rightarrow> float64" where
  "float_ratio a b =
     (if a = 0 then (0, 0)
      else
        let up = (\<lambda>s. a * 2 ^ nat s); down = (\<lambda>s. b * 2 ^ nat (- s));
            s = 53 + int (bit_length b) - int (bit_length a);
            s = (if 2 ^ 53 \<le> up s div down s then s - 1 else s)
        in (nearest_even (up s) (down s), - s))"

definition float_mul :: "float64 \<Rightarrow> float64 \<Rightarrow> float64" where
  "float_mul x y = (case float_ratio (fst x * fst y) 1 of (m, e) \<Rightarrow> (m, e + snd x + snd y))"

definition float_div :: "float64 \<Rightarrow> float64 \<Rightarrow> float64" where
  "float_div x y = (case float_ratio (fst x) (fst y) of (m, e) \<Rightarrow> (m, e + snd x - snd y))"

definition float_trunc :: "float64 \<Rightarrow> nat" where
  "float_trunc x = (if 0 \<le> snd x then fst x * 2 ^ nat (snd x) else fst x div 2 ^ nat (- snd x))"

section \<open>Durations\<close>

definition two63 :: nat where "two63 = 9223372036854775808"

fun leadingInt :: "nat \<Rightarrow> string \<Rightarrow> (nat \<times> string) option" where
  "leadingInt x [] = Some (x, [])"
| "leadingInt x (c # s) =
     (if \<not> is_digit c then Some (x, c # s)
      else if two63 div 10 < x then None
      else
        let y = x * 10 + nat (digit_val c)
        in if two63 < y then None else leadingInt y s)"

text \<open>Digits after the point; once the value would overflow the rest is skipped.\<close>

fun leadingFraction :: "nat \<Rightarrow> float64 \<Rightarrow> bool \<Rightarrow> string \<Rightarrow> nat \<times> float64 \<times> string" where
  "leadingFraction x scale over [] = (x, scale, [])"
| "leadingFraction x scale over (c # s) =
     (if \<not> is_digit c then (x, scale, c # s)
      else if over \<or> (two63 - 1) div 10 < x then leadingFraction x scale True s
      else
        let y = x * 10 + nat (digit_val c)
        in if two63 < y then leadingFraction x scale True s
           else leadingFraction y (float_mul scale (10, 0)) False s)"

definition unitMap :: "string \<Rightarrow> nat option" where
  "unitMap u = map_of
     [(''ns'', 1), (''us'', 1000), ([CHR 0xC2, CHR 0xB5, CHR ''s''], 1000), ([CHR 0xCE, CHR 0xBC, CHR ''s''], 1000),
      (''ms'', 1000000), (''s'', 1000000000), (''m'', 60000000000), (''h'', 3600000000000)] u"

definition unit_byte :: "char \<Rightarrow> bool" where
  "unit_byte c \<longleftrightarrow> c \<noteq> CHR ''.'' \<and> \<not> is_digit c"

definition time_quote :: "string \<Rightarrow> string" where
  "time_quote s =
     [DQUOTE] @ concat (map (\<lambda>c.
       if \<not> is_ascii c \<or> c < CHR '' '' then [CHR 0x5C, CHR ''x''] @
         [(''0123456789abcdef'' ! (of_char c div 16)), (''0123456789abcdef'' ! (of_char c mod 16))]
       else if c = DQUOTE \<or> c = CHR 0x5C then [CHR 0x5C, c] else [c]) s) @ [DQUOTE]"

text \<open>
  One number with its unit, from a nonempty string: the value in nanoseconds and what follows. The error
  is made of the rest of its message, the whole input being quoted at its end.
\<close>

definition duration_term :: "string \<Rightarrow> string + (nat \<times> string)" where
  "duration_term s =
     (if hd s \<noteq> CHR ''.'' \<and> \<not> is_digit (hd s) then Inl ''time: invalid duration ''
      else case leadingInt 0 s of
          None \<Rightarrow> Inl ''time: invalid duration ''
        | Some (v, s1) \<Rightarrow>
            let pre = length s1 \<noteq> length s;
                point = (s1 \<noteq> [] \<and> hd s1 = CHR ''.'');
                (f, scale, s2) = (if point then leadingFraction 0 (1, 0) False (tl s1) else (0, (1, 0), s1));
                post = (point \<and> length s2 \<noteq> length (tl s1));
                u = takeWhile unit_byte s2; s3 = dropWhile unit_byte s2
            in if \<not> pre \<and> \<not> post then Inl ''time: invalid duration ''
               else if u = [] then Inl ''time: missing unit in duration ''
               else case unitMap u of
                   None \<Rightarrow> Inl (''time: unknown unit '' @ time_quote u @ '' in duration '')
                 | Some ns \<Rightarrow>
                     if two63 div ns < v then Inl ''time: invalid duration ''
                     else
                       let whole = v * ns;
                           part = (if 0 < f then float_trunc (float_mul (float_ratio f 1) (float_div (float_ratio ns 1) scale)) else 0)
                       in if 0 < f \<and> two63 < whole + part then Inl ''time: invalid duration ''
                          else Inr (whole + part, s3))"

lemma leadingInt_length: "leadingInt x s = Some (v, r) \<Longrightarrow> length r \<le> length s"
  by (induction x s rule: leadingInt.induct) (auto simp: Let_def split: if_splits)

lemma leadingFraction_length: "leadingFraction x sc ov s = (f, sc', r) \<Longrightarrow> length r \<le> length s"
proof (induction x sc ov s rule: leadingFraction.induct)
  case (2 x scale over c s)
  then show ?case by (auto simp: Let_def le_SucI split: if_splits)
qed simp

lemma dropWhile_shorter: "takeWhile p s \<noteq> [] \<Longrightarrow> length (dropWhile p s) < length s"
  using takeWhile_dropWhile_id [of p s] by (metis length_append length_greater_0_conv less_add_same_cancel2)

lemma duration_term_shorter:
  assumes "duration_term s = Inr (v, r)"
  shows "length r < length s"
proof -
  obtain v' s1 where s1: "leadingInt 0 s = Some (v', s1)"
    using assms by (cases "leadingInt 0 s") (auto simp: duration_term_def split: if_splits)
  obtain f sc s2 where s2: "(if s1 \<noteq> [] \<and> hd s1 = CHR ''.'' then leadingFraction 0 (1, 0) False (tl s1) else (0, (1, 0), s1)) = (f, sc, s2)"
    by (metis prod_cases3)
  from assms s1 s2 have "takeWhile unit_byte s2 \<noteq> []" "r = dropWhile unit_byte s2"
    by (auto simp: duration_term_def Let_def split: if_splits option.splits)
  then have "length r < length s2" using dropWhile_shorter by simp
  also have "length s2 \<le> length s1"
    using s2 leadingFraction_length [of 0 "(1, 0)" False "tl s1"] by (auto split: if_splits)
  also have "\<dots> \<le> length s" by (rule leadingInt_length [OF s1])
  finally show ?thesis .
qed

function duration_loop :: "nat \<Rightarrow> string \<Rightarrow> string + nat" where
  "duration_loop d s =
     (if s = [] then Inr d
      else case duration_term s of
          Inl err \<Rightarrow> Inl err
        | Inr (v, s') \<Rightarrow>
            let d' = (d + v) mod 2 ^ 64
            in if two63 < d' then Inl ''time: invalid duration '' else duration_loop d' s')"
  by pat_completeness auto

termination
  by (relation "measure (\<lambda>(d, s). length s)") (auto dest: duration_term_shorter)

declare duration_loop.simps [simp del]

definition ParseDuration :: "string \<Rightarrow> go_error + duration" where
  "ParseDuration orig =
     (let signed = (orig \<noteq> [] \<and> (hd orig = CHR ''-'' \<or> hd orig = CHR ''+''));
          neg = (orig \<noteq> [] \<and> hd orig = CHR ''-'');
          s = (if signed then tl orig else orig);
          failed = (\<lambda>msg. Inl (ErrPlain (msg @ time_quote orig)))
      in if s = ''0'' then Inr 0
         else if s = [] then failed ''time: invalid duration ''
         else case duration_loop 0 s of
             Inl msg \<Rightarrow> failed msg
           | Inr d \<Rightarrow>
               if neg then Inr (wrap64 (- wrap64 (int d)))
               else if two63 - 1 < d then failed ''time: invalid duration ''
               else Inr (int d))"

section \<open>Booleans, integers, levels\<close>

definition numError :: "string \<Rightarrow> string \<Rightarrow> string \<Rightarrow> go_error" where
  "numError fn s why = ErrWrap (''strconv.'' @ fn @ '': parsing %q'') [s] (ErrPlain why)"

definition ParseBool :: "string \<Rightarrow> go_error + bool" where
  "ParseBool s =
     (if s \<in> set [''1'', ''t'', ''T'', ''true'', ''TRUE'', ''True''] then Inr True
      else if s \<in> set [''0'', ''f'', ''F'', ''false'', ''FALSE'', ''False''] then Inr False
      else Inl (numError ''ParseBool'' s ''invalid syntax''))"

fun parse_uint :: "nat \<Rightarrow> string \<Rightarrow> string + nat" where
  "parse_uint n [] = Inr n"
| "parse_uint n (c # s) =
     (if \<not> is_digit c then Inl ''invalid syntax''
      else
        let n' = n * 10 + nat (digit_val c)
        in if 2 ^ 64 \<le> n' then Inl ''value out of range'' else parse_uint n' s)"

definition Atoi :: "string \<Rightarrow> go_error + int" where
  "Atoi s0 =
     (let signed = (s0 \<noteq> [] \<and> (hd s0 = CHR ''-'' \<or> hd s0 = CHR ''+''));
          neg = (s0 \<noteq> [] \<and> hd s0 = CHR ''-'');
          s = (if signed then tl s0 else s0)
      in if s = [] then Inl (numError ''Atoi'' s0 ''invalid syntax'')
         else case parse_uint 0 s of
             Inl why \<Rightarrow> Inl (numError ''Atoi'' s0 why)
           | Inr n \<Rightarrow>
               if (\<not> neg \<and> two63 \<le> n) \<or> (neg \<and> two63 < n) then Inl (numError ''Atoi'' s0 ''value out of range'')
               else Inr (if neg then - int n else int n))"

text \<open>\<open>strings.ToUpper\<close>, as far as the result may be ASCII: two other letters have ASCII capitals.\<close>

fun ToUpper :: "string \<Rightarrow> string" where
  "ToUpper [] = []"
| "ToUpper (c # cs) =
     (if HasPrefix (c # cs) [CHR 0xC4, CHR 0xB1] then CHR ''I'' # ToUpper (drop 1 cs)
      else if HasPrefix (c # cs) [CHR 0xC5, CHR 0xBF] then CHR ''S'' # ToUpper (drop 1 cs)
      else ascii_upper c # ToUpper cs)"

type_synonym level = int

definition level_names :: "(string \<times> level) list" where
  "level_names = [(''DEBUG'', - 4), (''INFO'', 0), (''WARN'', 4), (''ERROR'', 8)]"

definition level_of_text :: "string \<Rightarrow> go_error + level" where
  "level_of_text s =
     (let failed = (\<lambda>err. Inl (Wrapf err ''slog: level string %q'' [s]));
          name = takeWhile (\<lambda>c. c \<noteq> CHR ''+'' \<and> c \<noteq> CHR ''-'') s;
          rest = dropWhile (\<lambda>c. c \<noteq> CHR ''+'' \<and> c \<noteq> CHR ''-'') s
      in case (if rest = [] then Inr 0 else Atoi rest) of
           Inl err \<Rightarrow> failed err
         | Inr offset \<Rightarrow>
             (case map_of level_names (ToUpper name) of
                None \<Rightarrow> failed (ErrPlain ''unknown name'')
              | Some l \<Rightarrow> Inr (wrap64 (l + offset))))"

text \<open>\<open>%+d\<close>\<close>

definition signed_decimal :: "int \<Rightarrow> string" where
  "signed_decimal i = (if i < 0 then CHR ''-'' # Itoa (nat (- i)) else CHR ''+'' # Itoa (nat i))"

definition level_String :: "level \<Rightarrow> string" where
  "level_String l =
     (let str = (\<lambda>name v. if v = 0 then name else name @ signed_decimal v)
      in if l < 0 then str ''DEBUG'' (l + 4)
         else if l < 4 then str ''INFO'' l
         else if l < 8 then str ''WARN'' (l - 4)
         else str ''ERROR'' (l - 8))"

section \<open>Facts\<close>

lemma digits_value_from: "foldl (\<lambda>n c. n * 10 + digit_val c) x s = x * 10 ^ length s + decimal_value s"
proof (induction s arbitrary: x rule: rev_induct)
  case (snoc c s)
  then show ?case by (simp add: algebra_simps)
qed simp

lemma digit_val_nonneg: "is_digit c \<Longrightarrow> 0 \<le> digit_val c \<and> digit_val c \<le> 9"
  using is_digit_val [of c] by simp

lemma decimal_value_Cons: "decimal_value (c # s) = digit_val c * 10 ^ length s + decimal_value s"
  using digits_value_from [of "digit_val c" s] by (simp add: decimal_value_def)

lemma le_scaled: "0 \<le> (b :: int) \<Longrightarrow> 1 \<le> p \<Longrightarrow> 0 \<le> v \<Longrightarrow> b \<le> b * p + v"
  using mult_left_mono [of 1 p b] by simp

lemma digit_step:
  assumes "is_digit c" and "list_all is_digit ds"
  shows "int x * 10 ^ length (c # ds) + decimal_value (c # ds) =
      int (x * 10 + nat (digit_val c)) * 10 ^ length ds + decimal_value ds"
    and "int (x * 10 + nat (digit_val c)) \<le> int (x * 10 + nat (digit_val c)) * 10 ^ length ds + decimal_value ds"
proof -
  have y: "int (x * 10 + nat (digit_val c)) = int x * 10 + digit_val c"
    using digit_val_nonneg [OF assms(1)] by simp
  show "int x * 10 ^ length (c # ds) + decimal_value (c # ds) =
      int (x * 10 + nat (digit_val c)) * 10 ^ length ds + decimal_value ds"
    unfolding y decimal_value_Cons by (simp add: algebra_simps)
  show "int (x * 10 + nat (digit_val c)) \<le> int (x * 10 + nat (digit_val c)) * 10 ^ length ds + decimal_value ds"
    by (rule le_scaled) (use decimal_value_nonneg [OF assms(2)] in simp_all)
qed

lemma leadingInt_digits:
  assumes "list_all is_digit ds" and "r = [] \<or> \<not> is_digit (hd r)"
    and "int x * 10 ^ length ds + decimal_value ds \<le> int two63"
  shows "leadingInt x (ds @ r) = Some (nat (int x * 10 ^ length ds + decimal_value ds), r)"
  using assms
proof (induction ds arbitrary: x)
  case Nil
  then show ?case by (cases r) auto
next
  case (Cons c ds)
  then have c: "is_digit c" and ds: "list_all is_digit ds" by auto
  let ?y = "x * 10 + nat (digit_val c)"
  note step = digit_step [OF c ds, of x]
  from Cons.prems(3) have le: "int ?y * 10 ^ length ds + decimal_value ds \<le> int two63" unfolding step(1) .
  with step(2) have "int ?y \<le> int two63" by (rule order_trans)
  then have "?y \<le> two63" by (simp only: of_nat_le_iff)
  then have "\<not> two63 < ?y" "\<not> two63 div 10 < x" unfolding two63_def by arith+
  with Cons.IH [OF ds Cons.prems(2) le] c show ?case unfolding step(1) by (simp add: Let_def)
qed

lemma parse_uint_digits:
  assumes "list_all is_digit ds" and "int x * 10 ^ length ds + decimal_value ds < 2 ^ 64"
  shows "parse_uint x ds = Inr (nat (int x * 10 ^ length ds + decimal_value ds))"
  using assms
proof (induction ds arbitrary: x)
  case (Cons c ds)
  then have c: "is_digit c" and ds: "list_all is_digit ds" by auto
  let ?y = "x * 10 + nat (digit_val c)"
  note step = digit_step [OF c ds, of x]
  from Cons.prems(2) have less: "int ?y * 10 ^ length ds + decimal_value ds < 2 ^ 64" unfolding step(1) .
  with step(2) have "int ?y < 2 ^ 64" by (rule order_le_less_trans)
  then have "int ?y < int (2 ^ 64)" by simp
  then have "\<not> 2 ^ 64 \<le> ?y" by (simp only: of_nat_less_iff not_le)
  with Cons.IH [OF ds less] c show ?case unfolding step(1) by (simp add: Let_def)
qed simp

end
