(* ===== verification/Config.thy ===== *)
theory Config
  imports GoDuration S3Cache GoUrlString
begin

text \<open>
  Startup, \<open>src/main.go\<close>: flags with their environment defaults, the validation \<open>run\<close>
  does before anything is served, the assembly of client, cache and handler, and how the process ends.
  What the process finds outside - AWS configuration, sockets, the terminal, the HTTP client's exchange -
  is the record \<open>outside\<close>.
\<close>

unbundle bit_operations_syntax

section \<open>Levels\<close>

fun level_value :: "log_level \<Rightarrow> level" where
  "level_value LevelDebug = - 4"
| "level_value LevelInfo = 0"
| "level_value LevelWarn = 4"
| "level_value LevelError = 8"

lemma level_value_inject: "level_value x = level_value y \<longleftrightarrow> x = y"
  by (cases x; cases y) simp_all

instantiation log_level :: linorder
begin

definition less_eq_log_level :: "log_level \<Rightarrow> log_level \<Rightarrow> bool" where
  "less_eq_log_level x y \<longleftrightarrow> level_value x \<le> level_value y"

definition less_log_level :: "log_level \<Rightarrow> log_level \<Rightarrow> bool" where
  "less_log_level x y \<longleftrightarrow> level_value x < level_value y"

instance
  by standard (auto simp: less_eq_log_level_def less_log_level_def level_value_inject)

end

definition Enabled :: "level \<Rightarrow> log_level \<Rightarrow> bool" where
  "Enabled threshold lvl \<longleftrightarrow> threshold \<le> level_value lvl"

text \<open>A line through the process's logger.\<close>

definition slog_line :: "level \<Rightarrow> log_level \<Rightarrow> string \<Rightarrow> attr list \<Rightarrow> log_line list" where
  "slog_line threshold lvl msg attrs = (if Enabled threshold lvl then [log_at lvl [] msg attrs] else [])"

section \<open>Flags\<close>

definition envDefault :: "(string \<Rightarrow> string) \<Rightarrow> string \<Rightarrow> string \<Rightarrow> string" where
  "envDefault getenv key otherwise = (let v = getenv key in if v \<noteq> [] then v else otherwise)"

record flag_values =
  flag_bucket :: string
  flag_prefix :: string
  flag_listen :: string
  flag_egressProxy :: string
  flag_logLevel :: string
  flag_staleOnConnectionError :: bool
  flag_staleOn5xx :: bool
  flag_staleOnAnyError :: bool
  flag_clientTimeout :: string
  flag_responseHeaderTimeout :: string
  flag_honorFreshness :: string
  flag_freshnessCap :: string

definition default_flags :: "(string \<Rightarrow> string) \<Rightarrow> flag_values" where
  "default_flags getenv =
     \<lparr>flag_bucket = envDefault getenv ''MIRROR_CACHE_BUCKET'' [],
      flag_prefix = envDefault getenv ''MIRROR_CACHE_PREFIX'' ''cache'',
      flag_listen = '':8443'',
      flag_egressProxy = [],
      flag_logLevel = envDefault getenv ''MIRROR_CACHE_LOG_LEVEL'' ''info'',
      flag_staleOnConnectionError = True,
      flag_staleOn5xx = True,
      flag_staleOnAnyError = False,
      flag_clientTimeout = envDefault getenv ''MIRROR_CACHE_CLIENT_TIMEOUT'' ''120s'',
      flag_responseHeaderTimeout = envDefault getenv ''MIRROR_CACHE_RESPONSE_HEADER_TIMEOUT'' ''5s'',
      flag_honorFreshness = envDefault getenv ''MIRROR_CACHE_HONOR_FRESHNESS'' ''false'',
      flag_freshnessCap = envDefault getenv ''MIRROR_CACHE_FRESHNESS_CAP'' ''168h''\<rparr>"

text \<open>The registered flags and their setters; \<open>None\<close> is a value the flag does not take.\<close>

type_synonym setter = "string \<Rightarrow> flag_values \<Rightarrow> flag_values option"

definition string_flag :: "((string \<Rightarrow> string) \<Rightarrow> flag_values \<Rightarrow> flag_values) \<Rightarrow> setter" where
  "string_flag upd v fl = Some (upd (\<lambda>_. v) fl)"

definition bool_flag :: "((bool \<Rightarrow> bool) \<Rightarrow> flag_values \<Rightarrow> flag_values) \<Rightarrow> setter" where
  "bool_flag upd v fl = (case ParseBool v of Inl _ \<Rightarrow> None | Inr b \<Rightarrow> Some (upd (\<lambda>_. b) fl))"

definition string_flags :: "(string \<times> setter) list" where
  "string_flags =
     [(''bucket'', string_flag flag_bucket_update), (''prefix'', string_flag flag_prefix_update),
      (''listen'', string_flag flag_listen_update), (''egress-proxy'', string_flag flag_egressProxy_update),
      (''log-level'', string_flag flag_logLevel_update), (''client-timeout'', string_flag flag_clientTimeout_update),
      (''response-header-timeout'', string_flag flag_responseHeaderTimeout_update),
      (''honor-freshness'', string_flag flag_honorFreshness_update),
      (''freshness-cap'', string_flag flag_freshnessCap_update)]"

definition bool_flags :: "(string \<times> setter) list" where
  "bool_flags =
     [(''stale-on-connection-error'', bool_flag flag_staleOnConnectionError_update),
      (''stale-on-5xx'', bool_flag flag_staleOn5xx_update),
      (''stale-on-any-error'', bool_flag flag_staleOnAnyError_update)]"

text \<open>
  \<open>flag.Parse\<close>: \<open>Inl\<close> is the code the process exits with. A string flag takes its value after
  \<open>=\<close> or from the next argument, a boolean one only after \<open>=\<close>; parsing stops at the first
  argument that is no flag.
\<close>

fun parse_args :: "flag_values \<Rightarrow> string list \<Rightarrow> int + flag_values" where
  "parse_args fl [] = Inr fl"
| "parse_args fl (s # args) =
     (if length s < 2 \<or> hd s \<noteq> CHR ''-'' \<or> s = ''--'' then Inr fl
      else
        let arg = (if s ! 1 = CHR ''-'' then drop 2 s else drop 1 s)
        in if arg = [] \<or> hd arg = CHR ''-'' \<or> hd arg = CHR ''='' then Inl 2
           else case Cut CHR ''='' arg of (name, v, hasValue) \<Rightarrow>
             (case map_of bool_flags name of
                Some put \<Rightarrow>
                  (case put (if hasValue then v else ''true'') fl of
                     None \<Rightarrow> Inl 2 | Some fl' \<Rightarrow> parse_args fl' args)
              | None \<Rightarrow>
                  (case map_of string_flags name of
                     None \<Rightarrow> Inl (if name = ''help'' \<or> name = ''h'' then 0 else 2)
                   | Some put \<Rightarrow>
                       if hasValue then (case put v fl of None \<Rightarrow> Inl 2 | Some fl' \<Rightarrow> parse_args fl' args)
                       else if args = [] then Inl 2
                       else (case put (hd args) fl of None \<Rightarrow> Inl 2 | Some fl' \<Rightarrow> parse_args fl' (tl args)))))"

section \<open>Validation\<close>

definition errBucketRequired :: go_error where
  "errBucketRequired = ErrPlain ''--bucket or MIRROR_CACHE_BUCKET is required''"

definition errNegativeDuration :: go_error where
  "errNegativeDuration = ErrPlain ''duration must be zero or positive''"

definition parseDuration :: "string \<Rightarrow> string \<Rightarrow> go_error + duration" where
  "parseDuration s name =
     (case ParseDuration s of
        Inl err \<Rightarrow> Inl (Wrapf err ''invalid --%s value %q'' [name, s])
      | Inr d \<Rightarrow> if d < 0 then Inl (Wrapf errNegativeDuration ''invalid --%s value %q'' [name, s]) else Inr d)"

definition parseTimeoutFlags :: "flag_values \<Rightarrow> go_error + (duration \<times> duration)" where
  "parseTimeoutFlags fl =
     (case parseDuration (flag_clientTimeout fl) ''client-timeout'' of
        Inl err \<Rightarrow> Inl err
      | Inr client \<Rightarrow>
          (case parseDuration (flag_responseHeaderTimeout fl) ''response-header-timeout'' of
             Inl err \<Rightarrow> Inl err
           | Inr responseHeader \<Rightarrow> Inr (client, responseHeader)))"

section \<open>Outside\<close>

datatype server_event =
    ServeReturned "go_error option"
  | ShutdownSignal "go_error option" \<comment> \<open>with what \<open>Shutdown\<close> returns\<close>

record upstream_client =
  ProxyURL :: "ParsedURL option"
  DialTimeout :: duration
  TLSHandshakeTimeout :: duration
  ResponseHeaderTimeout :: duration
  IdleConnTimeout :: duration
  ClientTimeout :: duration

record 'w outside =
  stderr_mode :: "go_error + 32 word" \<comment> \<open>file mode of standard error\<close>
  awsLoad :: "go_error option"
  awsS3 :: "'w s3_client"
  httpDo :: "upstream_client \<Rightarrow> UpRequest \<Rightarrow> 'w \<Rightarrow> (go_error + Response) \<times> 'w"
  wallClock :: "'w \<Rightarrow> time \<times> 'w"
  ip6_literal :: "string \<Rightarrow> bool"
  activation :: "go_error + nat" \<comment> \<open>sockets passed by systemd\<close>
  tcpListen :: "string \<Rightarrow> go_error option"
  serverEvent :: server_event

definition ModeCharDevice :: "32 word" where "ModeCharDevice = push_bit 21 1"

definition isTTY :: "go_error + 32 word \<Rightarrow> bool" where
  "isTTY info = (case info of Inl _ \<Rightarrow> False | Inr mode \<Rightarrow> mode AND ModeCharDevice \<noteq> 0)"

section \<open>Startup\<close>

text \<open>A step of startup: the lines it logs, and an error or its result.\<close>

type_synonym 'a startup = "log_line list \<times> (go_error + 'a)"

definition checked :: "go_error + 'a \<Rightarrow> 'a startup" where "checked r = ([], r)"

definition andThen :: "'a startup \<Rightarrow> ('a \<Rightarrow> 'b startup) \<Rightarrow> 'b startup" where
  "andThen p f =
     (case snd p of Inl err \<Rightarrow> (fst p, Inl err) | Inr a \<Rightarrow> (fst p @ fst (f a), snd (f a)))"

datatype log_format = TextFormat | JSONFormat

definition setupLogging :: "'w outside \<Rightarrow> flag_values \<Rightarrow> (level \<times> log_format) startup" where
  "setupLogging ext fl =
     (case level_of_text (flag_logLevel fl) of
        Inl err \<Rightarrow> ([], Inl (Wrapf err ''invalid log level %q'' [flag_logLevel fl]))
      | Inr level \<Rightarrow>
          (slog_line level LevelInfo ''starting mirror-cache''
             [AStr ''bucket'' (flag_bucket fl), AStr ''prefix'' (flag_prefix fl), AStr ''listen'' (flag_listen fl),
              AStr ''log_level'' (level_String level)],
           Inr (level, if isTTY (stderr_mode ext) then TextFormat else JSONFormat)))"

definition newUpstreamClient ::
    "'w outside \<Rightarrow> level \<Rightarrow> flag_values \<Rightarrow> duration \<Rightarrow> duration \<Rightarrow> upstream_client startup" where
  "newUpstreamClient ext level fl clientTimeout responseHeaderTimeout =
     (let client = (\<lambda>proxy. \<lparr>ProxyURL = proxy, DialTimeout = 10 * Second, TLSHandshakeTimeout = 10 * Second,
            ResponseHeaderTimeout = responseHeaderTimeout, IdleConnTimeout = 90 * Second, ClientTimeout = clientTimeout\<rparr>)
      in if flag_egressProxy fl = [] then ([], Inr (client None))
         else case url_Parse (ip6_literal ext) (flag_egressProxy fl) of
             Inl err \<Rightarrow> ([], Inl (Wrap err ''invalid --egress-proxy URL''))
           | Inr proxyURL \<Rightarrow>
               (slog_line level LevelInfo ''upstream requests proxied via egress proxy'' [AStr ''proxy'' (flag_egressProxy fl)],
                Inr (client (Some proxyURL))))"

text \<open>The client's redirect policy: what it logs, and the error that would stop the client.\<close>

definition checkRedirect :: "logger \<Rightarrow> ParsedURL \<Rightarrow> log_line \<times> go_error option" where
  "checkRedirect logger u =
     (log_at LevelDebug logger ''following redirect'' [AStr ''url'' (full_String u)], None)"

datatype listener = SocketActivated | Listening string

definition getListener :: "'w outside \<Rightarrow> level \<Rightarrow> string \<Rightarrow> listener startup" where
  "getListener ext level addr =
     (case activation ext of
        Inl err \<Rightarrow> ([], Inl (Wrap err ''socket activation''))
      | Inr n \<Rightarrow>
          if 0 < n then (slog_line level LevelInfo ''using socket-activated listener'' [], Inr SocketActivated)
          else
            (slog_line level LevelInfo ''listening'' [AStr ''addr'' addr],
             case tcpListen ext addr of
               Some err \<Rightarrow> Inl (Wrapf err ''listen %s'' [addr])
             | None \<Rightarrow> Inr (Listening addr)))"

record 'w started =
  logging :: "level \<times> log_format"
  upstream :: upstream_client
  handler :: "'w cacheMiddleware"
  server_listener :: listener
  ReadHeaderTimeout :: duration

definition wrap_failure :: "string \<Rightarrow> 'a startup \<Rightarrow> 'a startup" where
  "wrap_failure msg p = (fst p, case snd p of Inl err \<Rightarrow> Inl (Wrap err msg) | Inr a \<Rightarrow> Inr a)"

definition parse_honor :: "flag_values \<Rightarrow> go_error + bool" where
  "parse_honor fl =
     (case ParseBool (flag_honorFreshness fl) of
        Inl err \<Rightarrow> Inl (Wrapf err ''invalid --honor-freshness value %q'' [flag_honorFreshness fl])
      | Inr b \<Rightarrow> Inr b)"

definition new_handler ::
    "'w outside \<Rightarrow> flag_values \<Rightarrow> upstream_client \<Rightarrow> bool \<Rightarrow> duration \<Rightarrow> 'w cacheMiddleware" where
  "new_handler ext fl client honor cap =
     \<lparr>cache = s3_httpCache \<lparr>s3c = awsS3 ext, bucket = flag_bucket fl, prefix = flag_prefix fl\<rparr>,
      clientDo = httpDo ext client, timeNow = wallClock ext, ip6 = ip6_literal ext,
      fallback = \<lparr>OnConnectionError = flag_staleOnConnectionError fl, On5xx = flag_staleOn5xx fl,
        OnAnyError = flag_staleOnAnyError fl\<rparr>,
      honorFreshness = honor, freshnessCap = cap\<rparr>"

text \<open>\<open>run\<close> up to the point where the server starts.\<close>

definition prepare :: "'w outside \<Rightarrow> flag_values \<Rightarrow> 'w started startup" where
  "prepare ext fl =
     andThen (setupLogging ext fl) (\<lambda>lg.
     andThen (checked (if flag_bucket fl = [] then Inl errBucketRequired else Inr ())) (\<lambda>_.
     andThen (checked (parseTimeoutFlags fl)) (\<lambda>(clientTimeout, responseHeaderTimeout).
     andThen (checked (parse_honor fl)) (\<lambda>honor.
     andThen (checked (parseDuration (flag_freshnessCap fl) ''freshness-cap'')) (\<lambda>cap.
     andThen (checked (case awsLoad ext of Some err \<Rightarrow> Inl (Wrap err ''load AWS config'') | None \<Rightarrow> Inr ())) (\<lambda>_.
     andThen (newUpstreamClient ext (fst lg) fl clientTimeout responseHeaderTimeout) (\<lambda>client.
     andThen (wrap_failure ''get listener'' (getListener ext (fst lg) (flag_listen fl))) (\<lambda>ln.
     checked (Inr \<lparr>logging = lg, upstream = client, handler = new_handler ext fl client honor cap,
       server_listener = ln, ReadHeaderTimeout = 10 * Second\<rparr>)))))))))"

definition errServerClosed :: go_error where
  "errServerClosed = ErrPlain ''http: Server closed''"

text \<open>\<open>errors.Is(err, http.ErrServerClosed)\<close>\<close>

fun is_server_closed :: "go_error \<Rightarrow> bool" where
  "is_server_closed (ErrWrap f args e) = is_server_closed e"
| "is_server_closed (ErrURL op u e) = is_server_closed e"
| "is_server_closed e = (e = errServerClosed)"

definition runServer :: "level \<Rightarrow> server_event \<Rightarrow> unit startup" where
  "runServer level ev =
     (case ev of
        ServeReturned (Some err) \<Rightarrow> if is_server_closed err then ([], Inr ()) else ([], Inl err)
      | ServeReturned None \<Rightarrow> ([], Inr ())
      | ShutdownSignal result \<Rightarrow>
          (slog_line level LevelInfo ''received shutdown signal, starting graceful shutdown'' [] @
             (case result of
                Some err \<Rightarrow> slog_line level LevelError ''server shutdown error'' [AErr ''error'' err]
              | None \<Rightarrow> []),
           Inr ()))"

definition run :: "'w outside \<Rightarrow> flag_values \<Rightarrow> unit startup" where
  "run ext fl =
     andThen (prepare ext fl) (\<lambda>st.
     andThen (wrap_failure ''server'' (runServer (fst (logging st)) (serverEvent ext))) (\<lambda>_.
     (slog_line (fst (logging st)) LevelInfo ''server stopped'' [], Inr ())))"

text \<open>\<open>main\<close>: the exit code, the lines logged, the error printed to standard error.\<close>

definition main :: "'w outside \<Rightarrow> (string \<Rightarrow> string) \<Rightarrow> string list \<Rightarrow> int \<times> log_line list \<times> go_error option" where
  "main ext getenv args =
     (case parse_args (default_flags getenv) args of
        Inl code \<Rightarrow> (code, [], None)
      | Inr fl \<Rightarrow>
          (case run ext fl of
             (logs, Inl err) \<Rightarrow> (1, logs, Some err)
           | (logs, Inr _) \<Rightarrow> (0, logs, None)))"

end
