(* ===== verification/HttpClient.thy ===== *)
theory HttpClient
  imports OciTransport Config
begin

text \<open>
  The client \<open>newUpstreamClient\<close> of \<open>src/main.go\<close> builds: \<open>http.Client.Do\<close> on a request
  without a body, over a transport, with \<open>CheckRedirect\<close> as the source sets it and no cookie jar.
  A redirect without end is a loop without end, so the loop is a partial function: \<open>None\<close> is a
  call that does not return. The overall timeout, which would end it, is not part of the model.
\<close>

section \<open>References\<close>

text \<open>The loop of \<open>resolvePath\<close> over the segments: what is written after the first slash.\<close>

fun resolve_loop :: "string \<Rightarrow> bool \<Rightarrow> string list \<Rightarrow> string" where
  "resolve_loop dst begun [] = dst"
| "resolve_loop dst begun (elem # elems) =
     (if elem = ''.'' then resolve_loop dst True elems
      else if elem = ''..'' then
        (let index = LastIndex dst ''/''
         in if index = -1 then resolve_loop [] False elems
            else resolve_loop (take (nat index) dst) begun elems)
      else resolve_loop (dst @ (if begun then ''/'' else []) @ elem) True elems)"

definition resolvePath :: "string \<Rightarrow> string \<Rightarrow> string" where
  "resolvePath from_path ref =
     (let full = (if ref = [] then from_path
                  else if hd ref \<noteq> CHR ''/'' then take (nat (LastIndex from_path ''/'' + 1)) from_path @ ref
                  else ref)
      in if full = [] then []
         else let elems = Split CHR ''/'' full;
                  r = ''/'' @ resolve_loop [] False elems @
                      (if last elems = ''.'' \<or> last elems = ''..'' then ''/'' else [])
              in if 1 < length r \<and> r ! 1 = CHR ''/'' then tl r else r)"

text \<open>A path that does not decode leaves the URL alone.\<close>

definition put_path :: "ParsedURL \<Rightarrow> string \<Rightarrow> ParsedURL" where
  "put_path u p = (case setPath u p of Inl _ \<Rightarrow> u | Inr u' \<Rightarrow> u')"

definition ResolveReference :: "ParsedURL \<Rightarrow> ParsedURL \<Rightarrow> ParsedURL" where
  "ResolveReference u ref =
     (let url = (if Scheme ref = [] then ref\<lparr>Scheme := Scheme u\<rparr> else ref) in
      if Scheme ref \<noteq> [] \<or> Host ref \<noteq> [] \<or> User ref \<noteq> None then
        put_path url (resolvePath (full_EscapedPath ref) [])
      else if Opaque ref \<noteq> [] then url\<lparr>User := None, Host := [], Path := []\<rparr>
      else
        let empty = (Path ref = [] \<and> \<not> ForceQuery ref \<and> RawQuery ref = []);
            url = (if empty then url\<lparr>RawQuery := RawQuery u\<rparr> else url);
            url = (if empty \<and> Fragment ref = [] then url\<lparr>Fragment := Fragment u, RawFragment := RawFragment u\<rparr> else url)
        in if Path ref = [] \<and> Opaque u \<noteq> [] then url\<lparr>Opaque := Opaque u, User := None, Host := [], Path := []\<rparr>
           else put_path (url\<lparr>Host := Host u, User := User u\<rparr>) (resolvePath (full_EscapedPath u) (full_EscapedPath ref)))"

definition URL_Parse :: "(string \<Rightarrow> bool) \<Rightarrow> ParsedURL \<Rightarrow> string \<Rightarrow> go_error + ParsedURL" where
  "URL_Parse ip u s = (case url_Parse ip s of Inl err \<Rightarrow> Inl err | Inr ref \<Rightarrow> Inr (ResolveReference u ref))"

section \<open>Hosts\<close>

text \<open>\<open>URL.Hostname\<close>: without the port and the brackets.\<close>

definition Hostname :: "ParsedURL \<Rightarrow> string" where
  "Hostname u =
     (let hostPort = Host u;
          colon = LastIndex hostPort '':'';
          host = (if colon \<noteq> -1 \<and> validOptionalPort (drop (nat colon) hostPort) then take (nat colon) hostPort else hostPort)
      in if HasPrefix host ''['' \<and> HasSuffix host '']'' then butlast (tl host) else host)"

text \<open>\<open>idna.Lookup.ToASCII\<close> is an argument; it is asked for names that are not ASCII only.\<close>

definition idnaASCIIFromURL :: "(string \<Rightarrow> string option) \<Rightarrow> ParsedURL \<Rightarrow> string" where
  "idnaASCIIFromURL idna u =
     (let addr = Hostname u
      in if list_all is_ascii addr then addr else (case idna addr of None \<Rightarrow> addr | Some a \<Rightarrow> a))"

definition isDomainOrSubdomain :: "string \<Rightarrow> string \<Rightarrow> bool" where
  "isDomainOrSubdomain sub parent \<longleftrightarrow>
     sub = parent \<or>
     (\<not> (list_ex (\<lambda>c. c = CHR '':'' \<or> c = CHR ''%'') sub) \<and> HasSuffix sub parent \<and>
      sub ! (length sub - length parent - 1) = CHR ''.'')"

definition shouldCopyHeaderOnRedirect :: "(string \<Rightarrow> string option) \<Rightarrow> ParsedURL \<Rightarrow> ParsedURL \<Rightarrow> bool" where
  "shouldCopyHeaderOnRedirect idna initial dest =
     isDomainOrSubdomain (idnaASCIIFromURL idna dest) (idnaASCIIFromURL idna initial)"

section \<open>Headers of the next request\<close>

definition sensitive_headers :: "string list" where
  "sensitive_headers =
     [''Authorization'', ''Www-Authenticate'', ''Cookie'', ''Cookie2'', ''Proxy-Authorization'', ''Proxy-Authenticate'']"

definition body_headers :: "string list" where
  "body_headers = [''Content-Encoding'', ''Content-Language'', ''Content-Location'', ''Content-Type'']"

definition copyHeaders :: "header \<Rightarrow> bool \<Rightarrow> bool \<Rightarrow> header" where
  "copyHeaders ihdr stripSensitiveHeaders stripBodyHeaders =
     filter (\<lambda>(k, vv). \<not> (CanonicalHeaderKey k \<in> set sensitive_headers \<and> stripSensitiveHeaders) \<and>
       \<not> (CanonicalHeaderKey k \<in> set body_headers \<and> stripBodyHeaders)) ihdr"

text \<open>\<open>strings.Replace\<close> of the first occurrence.\<close>

fun replace_first :: "string \<Rightarrow> string \<Rightarrow> string \<Rightarrow> string" where
  "replace_first old new [] = (if old = [] then new else [])"
| "replace_first old new (c # cs) =
     (if HasPrefix (c # cs) old then new @ drop (length old) (c # cs) else c # replace_first old new cs)"

definition refererForURL :: "ParsedURL \<Rightarrow> ParsedURL \<Rightarrow> string \<Rightarrow> string" where
  "refererForURL lastReq newReq explicitRef =
     (if Scheme lastReq = ''https'' \<and> Scheme newReq = ''http'' then []
      else if explicitRef \<noteq> [] then explicitRef
      else case User lastReq of
          None \<Rightarrow> full_String lastReq
        | Some ui \<Rightarrow> replace_first (Userinfo_String ui @ ''@'') [] (full_String lastReq))"

definition stripPassword :: "ParsedURL \<Rightarrow> string" where
  "stripPassword u =
     (case User u of
        Some (name, Some p) \<Rightarrow>
          replace_first (Userinfo_String (name, Some p) @ ''@'') (name @ '':***@'') (full_String u)
      | _ \<Rightarrow> full_String u)"

definition urlErrorOp :: "string \<Rightarrow> string" where
  "urlErrorOp meth = (if meth = [] then ''Get'' else take 1 meth @ ToLower (drop 1 meth))"

section \<open>One hop\<close>

text \<open>\<open>redirectBehavior\<close> for a request without a body: the next method, and whether a body would be kept.\<close>

definition redirectBehavior :: "string \<Rightarrow> int \<Rightarrow> (string \<times> bool) option" where
  "redirectBehavior reqMethod status =
     (if status = 301 \<or> status = 302 \<or> status = 303
      then Some (if reqMethod \<noteq> ''GET'' \<and> reqMethod \<noteq> ''HEAD'' then ''GET'' else reqMethod, False)
      else if status = 307 \<or> status = 308 then Some (reqMethod, True)
      else None)"

record client_env =
  client_ip6 :: "string \<Rightarrow> bool"
  client_idna :: "string \<Rightarrow> string option"
  client_logger :: logger

text \<open>The loop's variables: the first request, the one just sent, and what has been decided about headers.\<close>

record client_loop =
  firstReq :: UpRequest
  thisReq :: UpRequest
  stripSensitive :: bool
  includeBody :: bool

datatype hop =
    Return "go_error + Response"
  | Follow client_loop

definition uerr :: "client_loop \<Rightarrow> go_error \<Rightarrow> go_error" where
  "uerr l err = ErrURL (urlErrorOp (UpMethod (firstReq l))) (stripPassword (UpURL (thisReq l))) err"

definition next_request :: "client_env \<Rightarrow> client_loop \<Rightarrow> string \<Rightarrow> bool \<Rightarrow> ParsedURL \<Rightarrow> client_loop" where
  "next_request env l redirectMethod keepBody u =
     (let body = includeBody l \<and> keepBody;
          strip = stripSensitive l \<or> (Host (UpURL (firstReq l)) \<noteq> Host u \<and>
            \<not> shouldCopyHeaderOnRedirect (client_idna env) (UpURL (firstReq l)) u);
          h = copyHeaders (UpHeader (firstReq l)) strip (\<not> body);
          ref = refererForURL (UpURL (thisReq l)) u (hdr_Get h ''Referer'')
      in l\<lparr>thisReq := \<lparr>UpMethod = redirectMethod, UpURL = u,
                       UpHeader = (if ref \<noteq> [] then hdr_Set h ''Referer'' ref else h)\<rparr>,
           stripSensitive := strip, includeBody := body\<rparr>)"

definition after_response :: "client_env \<Rightarrow> client_loop \<Rightarrow> go_error + Response \<Rightarrow> log_line list \<times> hop" where
  "after_response env l r =
     (case r of
        Inl err \<Rightarrow> ([], Return (Inl (uerr l err)))
      | Inr resp \<Rightarrow>
          (case redirectBehavior (UpMethod (thisReq l)) (StatusCode resp) of
             None \<Rightarrow> ([], Return (Inr resp))
           | Some (redirectMethod, keepBody) \<Rightarrow>
               let loc = hdr_Get (RespHeader resp) ''Location'' in
               if loc = [] then ([], Return (Inr resp))
               else case URL_Parse (client_ip6 env) (UpURL (thisReq l)) loc of
                   Inl err \<Rightarrow>
                     ([], Return (Inl (uerr l (ErrPlain (''failed to parse Location header'')))))
                 | Inr u \<Rightarrow>
                     (case checkRedirect (client_logger env) u of
                        (line, Some err) \<Rightarrow> ([line], Return (Inl (ErrURL (urlErrorOp (UpMethod (firstReq l))) loc err)))
                      | (line, None) \<Rightarrow> ([line], Follow (next_request env l redirectMethod keepBody u)))))"

section \<open>Basic authorization\<close>

definition base64_char :: "nat \<Rightarrow> char" where
  "base64_char n = ''ABCDEFGHIJKLMNOPQRSTUVWXYZabcdefghijklmnopqrstuvwxyz0123456789+/'' ! n"

fun base64 :: "string \<Rightarrow> string" where
  "base64 [] = []"
| "base64 [a] =
     (let x = of_char a :: nat in [base64_char (x div 4), base64_char (x mod 4 * 16), CHR ''='', CHR ''=''])"
| "base64 [a, b] =
     (let x = of_char a :: nat; y = of_char b
      in [base64_char (x div 4), base64_char (x mod 4 * 16 + y div 16), base64_char (y mod 16 * 4), CHR ''=''])"
| "base64 (a # b # c # cs) =
     (let x = of_char a :: nat; y = of_char b; z = of_char c
      in [base64_char (x div 4), base64_char (x mod 4 * 16 + y div 16), base64_char (y mod 16 * 4 + z div 64),
          base64_char (z mod 64)] @ base64 cs)"

text \<open>\<open>send\<close>: credentials in the URL become a header, unless there is one already.\<close>

definition to_send :: "UpRequest \<Rightarrow> UpRequest" where
  "to_send req =
     (case User (UpURL req) of
        None \<Rightarrow> req
      | Some (name, p) \<Rightarrow>
          if hdr_Get (UpHeader req) ''Authorization'' \<noteq> [] then req
          else req\<lparr>UpHeader := hdr_Set (UpHeader req) ''Authorization''
                 (''Basic '' @ base64 (name @ '':'' @ (case p of None \<Rightarrow> [] | Some pw \<Rightarrow> pw)))\<rparr>)"

section \<open>The loop\<close>

text \<open>The transport is a program over a traced world, such as \<open>RoundTrip t\<close>.\<close>

type_synonym 'w round_tripper = "UpRequest \<Rightarrow> ('w sys, go_error + Response) state"

definition emit_all :: "log_line list \<Rightarrow> ('w sys, unit) state" where
  "emit_all ls = State (\<lambda>s. ((), s\<lparr>trace := trace s @ map EvLog ls\<rparr>))"

definition client_hop :: "client_env \<Rightarrow> 'w round_tripper \<Rightarrow> client_loop \<Rightarrow> ('w sys, hop) state" where
  "client_hop env rt l = do {
     r \<leftarrow> rt (to_send (thisReq l));
     emit_all (fst (after_response env l r));
     State_Monad.return (snd (after_response env l r))
   }"

partial_function (option) client_run ::
    "client_env \<Rightarrow> 'w round_tripper \<Rightarrow> client_loop \<Rightarrow> 'w sys \<Rightarrow> ((go_error + Response) \<times> 'w sys) option" where
  "client_run env rt l s =
     (case run_state (client_hop env rt l) s of
        (Return r, s') \<Rightarrow> Some (r, s')
      | (Follow l', s') \<Rightarrow> client_run env rt l' s')"

definition first_hop :: "UpRequest \<Rightarrow> client_loop" where
  "first_hop req = \<lparr>firstReq = req, thisReq = req, stripSensitive = False, includeBody = True\<rparr>"

definition Client_Do ::
    "client_env \<Rightarrow> 'w round_tripper \<Rightarrow> UpRequest \<Rightarrow> 'w sys \<Rightarrow> ((go_error + Response) \<times> 'w sys) option" where
  "Client_Do env rt req s = client_run env rt (first_hop req) s"

lemma framed_emit_all [framed]: "framed (emit_all ls)"
  by (simp add: framed_def emit_all_def)

lemma exec_emit_all [simp]: "exec (emit_all ls) w u es w' \<longleftrightarrow> es = map EvLog ls \<and> w' = w"
  by (auto simp: exec_def emit_all_def)

lemma framed_client_hop [framed]: "(\<And>req. framed (rt req)) \<Longrightarrow> framed (client_hop env rt l)"
  unfolding client_hop_def by (intro framed)

section \<open>Counting hops\<close>

text \<open>The loop stopped after so many hops: what it returns, or where it stands.\<close>

fun hops ::
    "client_env \<Rightarrow> 'w round_tripper \<Rightarrow> nat \<Rightarrow> client_loop \<Rightarrow> 'w sys \<Rightarrow> hop \<times> 'w sys" where
  "hops env rt 0 l s = (Follow l, s)"
| "hops env rt (Suc n) l s =
     (case run_state (client_hop env rt l) s of
        (Return r, s') \<Rightarrow> (Return r, s')
      | (Follow l', s') \<Rightarrow> hops env rt n l' s')"

text \<open>The call returns exactly when some number of hops is enough.\<close>

lemma client_run_hops:
  "client_run env rt l s = Some (r, s') \<longleftrightarrow> (\<exists>n. hops env rt n l s = (Return r, s'))"
proof
  define P where "P env rt l s y \<longleftrightarrow> (\<exists>n. hops env rt n l s = (Return (fst y), snd y))"
    for env and rt :: "'a round_tripper" and l s y
  have "P env rt l s y" if "client_run env rt l s = Some y" for y
  proof (rule client_run.raw_induct [where P = P, OF _ that])
    fix run env l s y and rt :: "'a round_tripper"
    assume IH: "\<And>env rt l s y. run env rt l s = Some y \<Longrightarrow> P env rt l s y"
      and step: "(case run_state (client_hop env rt l) s of
        (Return r, s') \<Rightarrow> Some (r, s')
      | (Follow l', s') \<Rightarrow> run env rt l' s') = Some y"
    obtain h s1 where h: "run_state (client_hop env rt l) s = (h, s1)" by fastforce
    show "P env rt l s y"
    proof (cases h)
      case (Return r)
      with step h show ?thesis unfolding P_def by (intro exI [where x = "Suc 0"]) auto
    next
      case (Follow l')
      with step h have "run env rt l' s1 = Some y" by simp
      then have "P env rt l' s1 y" by (rule IH)
      then obtain n where "hops env rt n l' s1 = (Return (fst y), snd y)" by (auto simp: P_def)
      with h Follow show ?thesis unfolding P_def by (intro exI [where x = "Suc n"]) auto
    qed
  qed
  then show "client_run env rt l s = Some (r, s') \<Longrightarrow> \<exists>n. hops env rt n l s = (Return r, s')"
    by (fastforce simp: P_def)
  show "\<exists>n. hops env rt n l s = (Return r, s') \<Longrightarrow> client_run env rt l s = Some (r, s')"
  proof (elim exE)
    fix n show "hops env rt n l s = (Return r, s') \<Longrightarrow> client_run env rt l s = Some (r, s')"
    proof (induction n arbitrary: l s)
      case (Suc n)
      obtain h s1 where "run_state (client_hop env rt l) s = (h, s1)" by fastforce
      with Suc show ?case by (subst client_run.simps) (cases h; simp)
    qed simp
  qed
qed

end
