(* ===== verification/OciProperties.thy ===== *)
theory OciProperties
  imports OciTransport
begin

text \<open>
  What the token transport guarantees: which requests it may send and in which order, which answer it
  returns, when it stays out of the way, and the invariant of its two maps. The lemmas follow the
  program: one per operation, about its requests, its result and its effect on the maps.
\<close>

section \<open>Requests in a trace\<close>

fun dos :: "event list \<Rightarrow> UpRequest list" where
  "dos [] = []"
| "dos (EvDo req # es) = req # dos es"
| "dos (_ # es) = dos es"

lemma dos_append [simp]: "dos (xs @ ys) = dos xs @ dos ys"
  by (induction xs rule: dos.induct) simp_all

definition token_part :: "'w ociAuthTransport \<Rightarrow> UpRequest list \<Rightarrow> bool" where
  "token_part t qs \<longleftrightarrow> qs = [] \<or> (\<exists>ch q. token_request (oci_ip6 t) ch = Inr q \<and> qs = [q])"

definition authed_part :: "UpRequest \<Rightarrow> UpRequest list \<Rightarrow> bool" where
  "authed_part req qs \<longleftrightarrow> qs = [] \<or> (\<exists>tok. tok \<noteq> [] \<and> qs = [with_token tok req])"

section \<open>The invariant of the maps\<close>

text \<open>
  Tokens are not empty and belong to challenges whose token request can be built, which entails an https
  realm.
\<close>

definition oci_inv :: "'w ociAuthTransport \<Rightarrow> 'w oci_state \<Rightarrow> bool" where
  "oci_inv t s \<longleftrightarrow> wf_tokens (token_store s) \<and> wf_map (challenge_store s) \<and>
     (\<forall>ch e. map_of (entries (token_store s)) ch = Some e \<longrightarrow>
        token e \<noteq> [] \<and> (\<exists>q. token_request (oci_ip6 t) ch = Inr q))"

lemma oci_inv_net [simp]: "oci_inv t (s\<lparr>net := w\<rparr>) = oci_inv t s"
  by (simp add: oci_inv_def)

lemma oci_inv_challenge [simp]:
  "oci_inv t s \<Longrightarrow> oci_inv t (s\<lparr>challenge_store := challenge_set k ch e (challenge_store s)\<rparr>)"
  "oci_inv t s \<Longrightarrow> oci_inv t (s\<lparr>challenge_store := challenge_delete k (challenge_store s)\<rparr>)"
  "oci_inv t s \<Longrightarrow> oci_inv t (s\<lparr>challenge_store := sweepChallenges now (challenge_store s)\<rparr>)"
  by (simp_all add: oci_inv_def challenge_defs)

lemma oci_inv_evict [simp]: "oci_inv t s \<Longrightarrow> oci_inv t (s\<lparr>token_store := token_evict ch (token_store s)\<rparr>)"
  by (simp add: oci_inv_def token_defs)

lemma oci_inv_sweep [simp]: "oci_inv t s \<Longrightarrow> oci_inv t (s\<lparr>token_store := token_sweep now (token_store s)\<rparr>)"
  by (auto simp: oci_inv_def token_defs sweep_lookup split: option.splits if_splits)

lemma oci_inv_set:
  "oci_inv t s \<Longrightarrow> tok \<noteq> [] \<Longrightarrow> token_request (oci_ip6 t) ch = Inr q \<Longrightarrow>
   oci_inv t (s\<lparr>token_store := token_set ch tok e (token_store s)\<rparr>)"
  by (auto simp: oci_inv_def token_defs)

section \<open>Operation by operation\<close>

lemma base_call_net: "base_call t req s = (r, s') \<Longrightarrow> \<exists>w. s' = s\<lparr>net := w\<rparr>"
  by (auto simp: base_call_def split: prod.splits)

lemma now_call_net: "now_call t s = (n, s') \<Longrightarrow> \<exists>w. s' = s\<lparr>net := w\<rparr>"
  by (auto simp: now_call_def split: prod.splits)

lemma read_token_nonempty: "read_token resp = Inr (tok, d) \<Longrightarrow> tok \<noteq> []"
  by (auto simp: read_token_def split: if_splits option.splits)

lemma run_cached_token:
  assumes "exec (cached_token t ch) s r es s'"
  shows "dos es = [] \<and> (\<exists>w. s' = s\<lparr>net := w\<rparr>) \<and>
    (\<forall>tok. r = Some tok \<longrightarrow> (\<exists>e. map_of (entries (token_store s)) ch = Some e \<and> token e = tok))"
proof (cases "map_of (entries (token_store s)) ch")
  case None
  with assms show ?thesis
    by (auto simp: cached_token_def exec_bind framed intro!: exI [where x = "net s"])
next
  case (Some e)
  with assms show ?thesis
    by (auto simp: cached_token_def exec_bind framed token_get_def dest!: now_call_net split: if_splits)
qed

lemma run_fetchToken:
  assumes "exec (fetchToken (now_call t) ip (base_call t) ch) s r es s'"
  shows "(\<exists>w. s' = s\<lparr>net := w\<rparr>) \<and>
    (case token_request ip ch of
       Inl e \<Rightarrow> dos es = [] \<and> isl r
     | Inr q \<Rightarrow> dos es = [q]) \<and>
    (\<forall>tok exp. r = Inr (tok, exp) \<longrightarrow> tok \<noteq> [] \<and> (\<exists>q. token_request ip ch = Inr q))"
proof (cases "token_request ip ch")
  case (Inl e)
  with assms show ?thesis by (auto simp: exec_fetchToken intro!: exI [where x = "net s"])
next
  case (Inr q)
  obtain a s1 where a: "base_call t q s = (a, s1)" by fastforce
  obtain n s2 where n: "now_call t s1 = (n, s2)" by fastforce
  show ?thesis
    using assms Inr a n base_call_net [OF a] now_call_net [OF n]
    by (cases a) (auto simp: exec_fetchToken dest: read_token_nonempty split: sum.splits)
qed

lemma run_fetchAndStore:
  assumes "exec (fetchAndStore t ch) s r es s'"
  shows "token_part t (dos es) \<and> challenge_store s' = challenge_store s \<and>
    (oci_inv t s \<longrightarrow> oci_inv t s') \<and> (\<forall>tok. r = Inr tok \<longrightarrow> tok \<noteq> [])"
proof -
  from assms [unfolded fetchAndStore_def] obtain f es1 s1 es2 where
    f: "exec (fetchToken (now_call t) (oci_ip6 t) (base_call t) ch) s f es1 s1" and es: "es = es1 @ es2"
    and rest: "exec (case f of
        Inl err \<Rightarrow> State_Monad.return (Inl err)
      | Inr (tok, exp) \<Rightarrow> do {
          write_state (\<lambda>s. s\<lparr>token_store := token_set ch tok exp (token_store s)\<rparr>);
          State_Monad.return (Inr tok)
        }) s1 r es2 s'"
    by (erule_tac exec_bindE; (intro framed)?; blast?)
  from run_fetchToken [OF f] obtain w where s1: "s1 = s\<lparr>net := w\<rparr>"
    and q: "case token_request (oci_ip6 t) ch of Inl e \<Rightarrow> dos es1 = [] \<and> isl f | Inr q \<Rightarrow> dos es1 = [q]"
    and tok: "\<And>tok exp. f = Inr (tok, exp) \<Longrightarrow> tok \<noteq> [] \<and> (\<exists>q. token_request (oci_ip6 t) ch = Inr q)"
    by blast
  have part: "token_part t (dos es1)" using q by (auto simp: token_part_def split: sum.splits)
  show ?thesis
  proof (cases f)
    case (Inl e)
    with rest part show ?thesis by (auto simp: es s1)
  next
    case (Inr p)
    then obtain k exp where p: "f = Inr (k, exp)" by (cases p) auto
    with tok obtain q where "k \<noteq> []" "token_request (oci_ip6 t) ch = Inr q" by blast
    with rest part p oci_inv_set [of t s1 k ch q exp] show ?thesis by (auto simp: es s1 exec_bind framed)
  qed
qed

lemma run_getOrFetch:
  assumes "exec (getOrFetch t ch) s r es s'"
  shows "token_part t (dos es) \<and> challenge_store s' = challenge_store s \<and>
    (oci_inv t s \<longrightarrow> oci_inv t s' \<and> (\<forall>tok. r = Inr tok \<longrightarrow> tok \<noteq> []))"
proof -
  from assms [unfolded getOrFetch_def] obtain cached es1 s1 es2 where
    c: "exec (cached_token t ch) s cached es1 s1" and es: "es = es1 @ es2"
    and rest: "exec (case cached of
        Some tok \<Rightarrow> State_Monad.return (Inr tok)
      | None \<Rightarrow> do { r \<leftarrow> fetchAndStore t ch; State_Monad.return (flight_result r) }) s1 r es2 s'"
    by (erule_tac exec_bindE; (intro framed)?; blast?)
  from run_cached_token [OF c] obtain w where d1: "dos es1 = []" and s1: "s1 = s\<lparr>net := w\<rparr>"
    and hit: "\<And>tok. cached = Some tok \<Longrightarrow> \<exists>e. map_of (entries (token_store s)) ch = Some e \<and> token e = tok"
    by blast
  show ?thesis
  proof (cases cached)
    case (Some tok)
    with rest hit show ?thesis
      by (auto simp: es d1 s1 token_part_def oci_inv_def)
  next
    case None
    with rest obtain f where f: "exec (fetchAndStore t ch) s1 f es2 s'" and r: "r = flight_result f"
      by (auto simp: exec_bind framed)
    from run_fetchAndStore [OF f] r show ?thesis
      by (auto simp: es d1 s1 flight_result_def split: sum.splits)
  qed
qed

text \<open>
  How an answer comes about: \<open>r\<close> is what the base transport answered to \<open>q\<close>, an error
  annotated at most.
\<close>

definition answer_to :: "'w ociAuthTransport \<Rightarrow> UpRequest \<Rightarrow> go_error + Response \<Rightarrow> bool" where
  "answer_to t q r \<longleftrightarrow> (\<exists>a s s'. base_call t q s = (a, s') \<and> (r = a \<or> (\<exists>msg. r = wrap_result msg a)))"

lemma answer_to_wrap: "base_call t q s = (a, s') \<Longrightarrow> answer_to t q (wrap_result msg a)"
  and answer_to_self: "base_call t q s = (a, s') \<Longrightarrow> answer_to t q a"
  unfolding answer_to_def by blast+

lemma answer_to_err: "base_call t q s = (Inl e, s') \<Longrightarrow> answer_to t q (Inl (Wrap e msg))"
  using answer_to_wrap [of t q s "Inl e" s' msg] by (simp add: wrap_result_def)

lemma run_known_challenge:
  assumes "exec (known_challenge t key) s r es s'"
  shows "dos es = [] \<and> (\<exists>w. s' = s\<lparr>net := w\<rparr>) \<and>
    (\<forall>ch. r = Some ch \<longrightarrow> (\<exists>e. map_of (challenge_store s) key = Some e \<and> challenge e = ch))"
proof (cases "map_of (challenge_store s) key")
  case None
  with assms show ?thesis
    by (auto simp: known_challenge_def exec_bind framed intro!: exI [where x = "net s"])
next
  case (Some e)
  with assms show ?thesis
    by (auto simp: known_challenge_def exec_bind framed challenge_get_def dest!: now_call_net split: if_splits)
qed

lemma run_redeem:
  assumes "exec (redeem t req host repo resp ch) s r es s'" and "oci_inv t s"
  shows "oci_inv t s' \<and> (\<exists>ts. token_part t ts \<and>
    (dos es = ts \<and> r = Inr resp \<or>
     (\<exists>tok. tok \<noteq> [] \<and> dos es = ts @ [with_token tok req] \<and> answer_to t (with_token tok req) r)))"
proof -
  from assms(1) [unfolded redeem_def] obtain k es1 s1 es2 where
    k: "exec (getOrFetch t ch) s k es1 s1" and es: "es = es1 @ es2"
    and rest: "exec (case k of
        Inl err \<Rightarrow> do {
          Printf ''oci auth: token fetch failed for %q/%q: %v'' (repo_attrs host repo @ [AErr ''%v'' err]);
          State_Monad.return (Inr resp)
        }
      | Inr tok \<Rightarrow> do {
          r \<leftarrow> send t (with_token tok req);
          State_Monad.return (wrap_result ''oci auth retry with token'' r)
        }) s1 r es2 s'"
    by (erule_tac exec_bindE; (intro framed)?; blast?)
  from run_getOrFetch [OF k] assms(2) have part: "token_part t (dos es1)" and inv: "oci_inv t s1"
    and ne: "\<And>tok. k = Inr tok \<Longrightarrow> tok \<noteq> []"
    by auto
  show ?thesis
  proof (cases k)
    case (Inl e)
    with rest part inv show ?thesis by (auto simp: es exec_bind framed)
  next
    case (Inr tok)
    with rest obtain a where a: "base_call t (with_token tok req) s1 = (a, s')" and es2: "dos es2 = [with_token tok req]"
      and r: "r = wrap_result ''oci auth retry with token'' a"
      by (auto simp: exec_bind framed)
    from base_call_net [OF a] inv have "oci_inv t s'" by auto
    with part ne [OF Inr] es es2 r answer_to_wrap [OF a] show ?thesis by auto
  qed
qed

lemma run_discovered:
  assumes "exec (discovered t req host repo failed resp ch) s r es s'" and "oci_inv t s"
  shows "oci_inv t s' \<and> (failed = Some ch \<longrightarrow> dos es = [] \<and> r = Inr resp) \<and> (\<exists>ts. token_part t ts \<and>
    (dos es = ts \<and> r = Inr resp \<or>
     (\<exists>tok. tok \<noteq> [] \<and> dos es = ts @ [with_token tok req] \<and> answer_to t (with_token tok req) r)))"
proof -
  have inv: "now_call t s = (n, s1) \<Longrightarrow> oci_inv t (s1\<lparr>challenge_store :=
      challenge_set (challengeKey host repo) ch (Add n challengeTTL) (challenge_store s1)\<rparr>)" for n s1
    using assms(2) by (auto intro!: oci_inv_challenge dest!: now_call_net)
  show ?thesis
  proof (cases "failed = Some ch")
    case True
    with assms(1) inv show ?thesis
      by (auto simp: discovered_def exec_bind framed token_part_def)
  next
    case False
    with assms(1) obtain n s1 es1 where n: "now_call t s = (n, s1)" and es: "dos es = dos es1"
      and "exec (redeem t req host repo resp ch)
        (s1\<lparr>challenge_store := challenge_set (challengeKey host repo) ch (Add n challengeTTL) (challenge_store s1)\<rparr>)
        r es1 s'"
      by (auto simp: discovered_def exec_bind framed)
    from run_redeem [OF this(3) inv [OF n]] False es show ?thesis by auto
  qed
qed

section \<open>The two paths\<close>

text \<open>
  The client's request goes out bare, then perhaps a token request, then perhaps the client's request
  with a token; the answer is the one to the last sending of the client's request.
\<close>

definition discovery_run :: "'w ociAuthTransport \<Rightarrow> UpRequest \<Rightarrow> UpRequest list \<Rightarrow> go_error + Response \<Rightarrow> bool" where
  "discovery_run t req qs r \<longleftrightarrow> (\<exists>ts. token_part t ts \<and>
     (qs = req # ts \<and> answer_to t req r \<or>
      (\<exists>tok. tok \<noteq> [] \<and> qs = req # ts @ [with_token tok req] \<and> answer_to t (with_token tok req) r)))"

lemma discovery_bare: "answer_to t req r \<Longrightarrow> discovery_run t req [req] r"
  by (auto simp: discovery_run_def token_part_def)

lemma run_discoveryPath:
  assumes "exec (discoveryPath t req host repo failed) s r es s'" and "oci_inv t s"
  shows "oci_inv t s' \<and> discovery_run t req (dos es) r \<and>
    (UpMethod req \<noteq> ''GET'' \<and> UpMethod req \<noteq> ''HEAD'' \<longrightarrow> dos es = [req])"
proof (cases "UpMethod req \<noteq> ''GET'' \<and> UpMethod req \<noteq> ''HEAD''")
  case True
  with assms(1) obtain a where a: "base_call t req s = (a, s')" and es: "dos es = [req]"
    and r: "r = wrap_result ''oci auth non-idempotent passthrough'' a"
    by (auto simp: discoveryPath_def exec_bind framed)
  with base_call_net [OF a] assms(2) answer_to_wrap [OF a] show ?thesis by (auto intro: discovery_bare)
next
  case False
  obtain a s1 where a: "base_call t req s = (a, s1)" by fastforce
  from base_call_net [OF a] assms(2) have inv: "oci_inv t s1" by auto
  from assms(1) False a obtain es2 where es: "dos es = req # dos es2"
    and rest: "exec (case a of
        Inl err \<Rightarrow> State_Monad.return (Inl (Wrap err ''oci auth discovery request''))
      | Inr resp \<Rightarrow> (case parseOCIAuthChallenge resp of
            None \<Rightarrow> State_Monad.return (Inr resp)
          | Some ch \<Rightarrow> discovered t req host repo failed resp ch)) s1 r es2 s'"
    unfolding discoveryPath_def by (simp only: if_False) (erule_tac exec_bindE; (intro framed)?; auto)
  show ?thesis
  proof (cases a)
    case (Inl e)
    with rest es inv answer_to_err [OF a [unfolded Inl]] False show ?thesis by (auto intro: discovery_bare)
  next
    case (Inr resp)
    note ans = answer_to_self [OF a [unfolded Inr]]
    show ?thesis
    proof (cases "parseOCIAuthChallenge resp")
      case None
      with rest es inv Inr ans False show ?thesis by (auto intro: discovery_bare)
    next
      case (Some ch)
      with rest Inr have "exec (discovered t req host repo failed resp ch) s1 r es2 s'" by simp
      from run_discovered [OF this inv] es ans False show ?thesis
        unfolding discovery_run_def by auto
    qed
  qed
qed

definition proactive_run :: "'w ociAuthTransport \<Rightarrow> UpRequest \<Rightarrow> UpRequest list \<Rightarrow> go_error + Response \<Rightarrow> bool" where
  "proactive_run t req qs r \<longleftrightarrow> (\<exists>ts. token_part t ts \<and>
     ((\<exists>tok. tok \<noteq> [] \<and> qs = ts @ [with_token tok req] \<and> answer_to t (with_token tok req) r) \<or>
      (\<exists>as ds. authed_part req as \<and> qs = ts @ as @ ds \<and> discovery_run t req ds r)))"

lemma proactive_runI:
  "token_part t ts \<Longrightarrow> tok \<noteq> [] \<Longrightarrow> answer_to t (with_token tok req) r \<Longrightarrow> proactive_run t req (ts @ [with_token tok req]) r"
  "token_part t ts \<Longrightarrow> discovery_run t req ds r \<Longrightarrow> proactive_run t req (ts @ ds) r"
  "token_part t ts \<Longrightarrow> tok \<noteq> [] \<Longrightarrow> discovery_run t req ds r \<Longrightarrow>
     proactive_run t req (ts @ with_token tok req # ds) r"
proof -
  have none: "authed_part req []" and one: "tok \<noteq> [] \<Longrightarrow> authed_part req [with_token tok req]" for tok
    by (auto simp: authed_part_def)
  show "token_part t ts \<Longrightarrow> tok \<noteq> [] \<Longrightarrow> answer_to t (with_token tok req) r \<Longrightarrow>
      proactive_run t req (ts @ [with_token tok req]) r"
    unfolding proactive_run_def by blast
  show "token_part t ts \<Longrightarrow> discovery_run t req ds r \<Longrightarrow> proactive_run t req (ts @ ds) r"
    using none unfolding proactive_run_def by (metis append_Nil)
  show "token_part t ts \<Longrightarrow> tok \<noteq> [] \<Longrightarrow> discovery_run t req ds r \<Longrightarrow>
      proactive_run t req (ts @ with_token tok req # ds) r"
    using one unfolding proactive_run_def by (metis append_Cons append_Nil)
qed

lemma run_proactivePath:
  assumes "exec (proactivePath t req host repo ch) s r es s'" and "oci_inv t s"
  shows "oci_inv t s' \<and> proactive_run t req (dos es) r \<and>
    (UpMethod req \<noteq> ''GET'' \<and> UpMethod req \<noteq> ''HEAD'' \<longrightarrow>
      (\<exists>ts q. token_part t ts \<and> dos es = ts @ [q] \<and> (q = req \<or> authed_part req [q])))"
proof -
  from assms(1) [unfolded proactivePath_def] obtain k es1 s1 es2 where
    k: "exec (getOrFetch t ch) s k es1 s1" and es: "es = es1 @ es2"
    and rest: "exec (case k of
        Inr tok \<Rightarrow> do {
          r \<leftarrow> send t (with_token tok req);
          (case r of
             Inl err \<Rightarrow> State_Monad.return (Inl (Wrap err ''oci auth proactive request''))
           | Inr resp \<Rightarrow>
               if StatusCode resp = 401 \<and> (UpMethod req = ''GET'' \<or> UpMethod req = ''HEAD'') then do {
                 Printf ''oci auth: stale token for %q/%q, re-discovering'' (repo_attrs host repo);
                 write_state (\<lambda>s. s\<lparr>challenge_store := challenge_delete (challengeKey host repo) (challenge_store s)\<rparr>);
                 write_state (\<lambda>s. s\<lparr>token_store := token_evict ch (token_store s)\<rparr>);
                 discoveryPath t req host repo None
               }
               else State_Monad.return (Inr resp))
        }
      | Inl err \<Rightarrow> do {
          Printf ''oci auth: token fetch failed for %q/%q: %v'' (repo_attrs host repo @ [AErr ''%v'' err]);
          discoveryPath t req host repo (Some ch)
        }) s1 r es2 s'"
    by (erule_tac exec_bindE; (intro framed)?; blast?)
  from run_getOrFetch [OF k] assms(2) have part: "token_part t (dos es1)" and inv: "oci_inv t s1"
    and ne: "\<And>tok. k = Inr tok \<Longrightarrow> tok \<noteq> []"
    by auto
  show ?thesis
  proof (cases k)
    case (Inl e)
    with rest obtain es3 where "exec (discoveryPath t req host repo (Some ch)) s1 r es3 s'" "dos es2 = dos es3"
      by (auto simp: exec_bind framed)
    with run_discoveryPath [OF this(1) inv] part es proactive_runI(2) [OF part] show ?thesis by auto
  next
    case (Inr tok)
    obtain a s2 where a: "base_call t (with_token tok req) s1 = (a, s2)" by fastforce
    from base_call_net [OF a] inv have inv2: "oci_inv t s2" by auto
    let ?q = "with_token tok req"
    note ne = ne [OF Inr]
    have q: "authed_part req [?q]" using ne by (auto simp: authed_part_def)
    show ?thesis
    proof (cases "\<exists>resp. a = Inr resp \<and> StatusCode resp = 401 \<and> (UpMethod req = ''GET'' \<or> UpMethod req = ''HEAD'')")
      case True
      let ?s = "s2\<lparr>challenge_store := challenge_delete (challengeKey host repo) (challenge_store s2),
          token_store := token_evict ch (token_store s2)\<rparr>"
      from True rest Inr a obtain es3 where d: "exec (discoveryPath t req host repo None) ?s r es3 s'"
        and es2: "dos es2 = ?q # dos es3"
        by (auto simp: exec_bind framed)
      have "oci_inv t ?s" using oci_inv_evict [OF oci_inv_challenge(2) [OF inv2]] by simp
      from run_discoveryPath [OF d this] proactive_runI(3) [OF part ne] es es2 True show ?thesis by auto
    next
      case False
      with rest Inr a have "dos es2 = [?q]" and "answer_to t ?q r" and "s' = s2"
        using answer_to_self [OF a] answer_to_err [of t ?q s1 _ s2]
        by (cases a; auto simp: exec_bind framed)+
      with part q es inv2 proactive_runI(1) [OF part ne] show ?thesis by auto
    qed
  qed
qed

lemma RoundTrip_cases:
  assumes "exec (RoundTrip t req) s r es s'" and "oci_inv t s"
  shows "oci_inv t s' \<and>
    (dos es = [req] \<and> answer_to t req r \<or> discovery_run t req (dos es) r \<or> proactive_run t req (dos es) r) \<and>
    (UpMethod req \<noteq> ''GET'' \<and> UpMethod req \<noteq> ''HEAD'' \<longrightarrow>
      (\<exists>ts q. token_part t ts \<and> dos es = ts @ [q] \<and> (q = req \<or> authed_part req [q])))"
proof (cases "hdr_Get (UpHeader req) ''Authorization'' \<noteq> [] \<or> extractOCIRepository (UpURL req) = None")
  case True
  with assms(1) have a: "base_call t req s = (r, s')" and es: "es = [EvDo req]"
    by (auto simp: RoundTrip_def split: if_splits)
  have "token_part t []" by (simp add: token_part_def)
  with es answer_to_self [OF a] base_call_net [OF a] assms(2) show ?thesis by auto
next
  case False
  then obtain host repo where repo: "extractOCIRepository (UpURL req) = Some (host, repo)"
    and auth: "hdr_Get (UpHeader req) ''Authorization'' = []" by auto
  from assms(1) obtain known es1 s1 es2 where k: "exec (known_challenge t (challengeKey host repo)) s known es1 s1"
    and es: "es = es1 @ es2" and rest: "exec (case known of
        Some ch \<Rightarrow> proactivePath t req host repo ch
      | None \<Rightarrow> discoveryPath t req host repo None) s1 r es2 s'"
    unfolding RoundTrip_def repo auth by (simp only: option.case prod.case if_False simp_thms)
      (erule exec_bindE; (intro framed)?; blast?)
  from run_known_challenge [OF k] assms(2) have d: "dos es1 = []" and inv: "oci_inv t s1" by auto
  have tp: "token_part t []" by (simp add: token_part_def)
  show ?thesis
  proof (cases known)
    case None
    with rest have "exec (discoveryPath t req host repo None) s1 r es2 s'" by simp
    from run_discoveryPath [OF this inv] tp show ?thesis by (auto simp: es d)
  next
    case (Some ch)
    with rest have "exec (proactivePath t req host repo ch) s1 r es2 s'" by simp
    from run_proactivePath [OF this inv] show ?thesis by (auto simp: es d)
  qed
qed

section \<open>A registry to try it on\<close>

text \<open>
  A registry that wants a token for everything under \<open>/v2/\<close>, and its token endpoint; the clock
  stands still.
\<close>

definition demo_answer :: "UpRequest \<Rightarrow> Response" where
  "demo_answer req =
     (if Host (UpURL req) = ''auth.example'' then
        \<lparr>StatusCode = 200, RespHeader = [],
         RespBody = ([CHR ''{'', DQUOTE] @ ''token'' @ [DQUOTE, CHR '':'', DQUOTE] @ ''abc'' @ [DQUOTE, CHR ''}''], None)\<rparr>
      else if hdr_Get (UpHeader req) ''Authorization'' = ''Bearer abc'' then
        \<lparr>StatusCode = 200, RespHeader = [], RespBody = (''layer'', None)\<rparr>
      else \<lparr>StatusCode = 401,
        RespHeader = [(''Www-Authenticate'', [''Bearer '' @ print_params
          [(''realm'', Realm demo_challenge), (''service'', Service demo_challenge), (''scope'', Scope demo_challenge)]])],
        RespBody = ([], None)\<rparr>)"

definition demo_transport :: "unit ociAuthTransport" where
  "demo_transport = \<lparr>base = (\<lambda>req w. (Inr (demo_answer req), w)), oci_now = (\<lambda>w. (0, w)), oci_ip6 = (\<lambda>_. False)\<rparr>"

definition demo_pull :: "string \<Rightarrow> UpRequest" where
  "demo_pull meth = \<lparr>UpMethod = meth,
     UpURL = blank_url\<lparr>Scheme := ''https'', Host := ''registry'', Path := ''/v2/library/alpine/manifests/latest''\<rparr>,
     UpHeader = []\<rparr>"

definition learned_state :: "unit oci_state" where
  "learned_state = \<lparr>net = (),
     token_store = \<lparr>entries = [(demo_challenge, \<lparr>token = ''abc'', token_expiry = 30 * Second\<rparr>)]\<rparr>,
     challenge_store = [(''registry/library/alpine'', \<lparr>challenge = demo_challenge, challenge_expiry = challengeTTL\<rparr>)]\<rparr>"

lemma demo_token_read: "read_token (demo_answer demo_token_request) = Inr (''abc'', 30 * Second)"
proof -
  let ?body = "[CHR ''{'', DQUOTE] @ ''token'' @ [DQUOTE, CHR '':'', DQUOTE] @ ''abc'' @ [DQUOTE, CHR ''}'']"
  have j: "json_first ?body = Some (JObj [(''token'', JStr ''abc'')], [])" by code_simp
  have "take token_body_limit ?body = ?body" by (simp add: token_body_limit_def)
  then have "decode_token (?body, None) = decode_members [(''token'', JStr ''abc'')] zero_tokenResponse"
    by (simp only: decode_token_def fst_conv j Let_def option.case prod.case json.case)
  also have "\<dots> = Some \<lparr>Token = ''abc'', AccessToken = [], ExpiresIn = 0\<rparr>" by code_simp
  finally have d: "decode_token (?body, None) = Some \<lparr>Token = ''abc'', AccessToken = [], ExpiresIn = 0\<rparr>" .
  have "token_lifetime 0 = 30 * Second" by code_simp
  with d show ?thesis
    by (simp add: read_token_def demo_answer_def demo_token_request_def blank_url_def accepted_token_def)
qed

lemma demo_repository: "extractOCIRepository (UpURL (demo_pull m)) = Some (''registry'', ''library/alpine'')"
  by code_simp

lemma demo_refused: "demo_answer (demo_pull m) = demo_answer (demo_pull ''GET'')"
  by (simp add: demo_answer_def demo_pull_def)

lemma demo_challenged: "parseOCIAuthChallenge (demo_answer (demo_pull ''GET'')) = Some demo_challenge"
  by code_simp

lemma demo_accepted: "demo_answer (with_token ''abc'' (demo_pull ''GET'')) =
    \<lparr>StatusCode = 200, RespHeader = [], RespBody = (''layer'', None)\<rparr>"
  by code_simp

lemma demo_transport_simps:
  "base_call demo_transport req s = (Inr (demo_answer req), s)" "now_call demo_transport s = (0, s)"
  "oci_ip6 demo_transport = (\<lambda>_. False)"
  by (simp_all add: demo_transport_def base_call_def now_call_def)

lemma demo_plain: "hdr_Get (UpHeader (demo_pull m)) ''Authorization'' = []" "UpMethod (demo_pull m) = m"
  by (simp_all add: demo_pull_def)

lemma demo_key: "challengeKey ''registry'' ''library/alpine'' = ''registry/library/alpine''"
  by (simp add: challengeKey_def)

lemmas demo_run = exec_bind framed demo_transport_simps demo_plain demo_key demo_repository demo_challenged
  demo_accepted exec_fetchToken demo_token_requested demo_token_read

section \<open>What a discovery leaves behind\<close>

lemma getOrFetch_stores:
  assumes "exec (getOrFetch t ch) s (Inr tok) es s'"
  shows "\<exists>e. map_of (entries (token_store s')) ch = Some e \<and> token e = tok"
proof -
  from assms [unfolded getOrFetch_def] obtain cached es1 s1 es2 where
    c: "exec (cached_token t ch) s cached es1 s1"
    and rest: "exec (case cached of
        Some tok \<Rightarrow> State_Monad.return (Inr tok)
      | None \<Rightarrow> do { r \<leftarrow> fetchAndStore t ch; State_Monad.return (flight_result r) }) s1 (Inr tok) es2 s'"
    by (erule_tac exec_bindE; (intro framed)?; blast?)
  show ?thesis
  proof (cases cached)
    case (Some k)
    with rest run_cached_token [OF c] show ?thesis by auto
  next
    case None
    with rest have "exec (fetchAndStore t ch) s1 (Inr tok) es2 s'"
      by (auto simp: exec_bind framed flight_result_def split: sum.splits) (case_tac a; simp)
    from this [unfolded fetchAndStore_def] obtain f es3 s2 es4 where
      "exec (fetchToken (now_call t) (oci_ip6 t) (base_call t) ch) s1 f es3 s2" and
      st: "exec (case f of
          Inl err \<Rightarrow> State_Monad.return (Inl err)
        | Inr (tok, exp) \<Rightarrow> do {
            write_state (\<lambda>s. s\<lparr>token_store := token_set ch tok exp (token_store s)\<rparr>);
            State_Monad.return (Inr tok)
          }) s2 (Inr tok) es4 s'"
      by (erule_tac exec_bindE; (intro framed)?; blast?)
    from st show ?thesis by (cases f) (auto simp: exec_bind framed token_set_def split: prod.splits)
  qed
qed

lemma token_part_plain: "token_part t ts \<Longrightarrow> q \<in> set ts \<Longrightarrow> UpHeader q = []"
  by (auto simp: token_part_def dest: token_request_shape)

lemma with_token_header: "UpHeader (with_token tok req) \<noteq> []"
proof
  assume "UpHeader (with_token tok req) = []"
  then have "hdr_Get (hdr_Set (UpHeader req) ''Authorization'' (''Bearer '' @ tok)) ''Authorization'' = []"
    by (simp add: with_token_def)
  then show False by (simp add: hdr_Get_def hdr_Values_Set)
qed

lemma redeem_stores:
  assumes "exec (redeem t req host repo resp ch) s r es s'" and "\<exists>q \<in> set (dos es). UpHeader q \<noteq> []"
  shows "challenge_store s' = challenge_store s \<and> (\<exists>e. map_of (entries (token_store s')) ch = Some e \<and>
    last (dos es) = with_token (token e) req)"
proof -
  from assms(1) [unfolded redeem_def] obtain k es1 s1 es2 where
    k: "exec (getOrFetch t ch) s k es1 s1" and es: "es = es1 @ es2"
    and rest: "exec (case k of
        Inl err \<Rightarrow> do {
          Printf ''oci auth: token fetch failed for %q/%q: %v'' (repo_attrs host repo @ [AErr ''%v'' err]);
          State_Monad.return (Inr resp)
        }
      | Inr tok \<Rightarrow> do {
          r \<leftarrow> send t (with_token tok req);
          State_Monad.return (wrap_result ''oci auth retry with token'' r)
        }) s1 r es2 s'"
    by (erule_tac exec_bindE; (intro framed)?; blast?)
  from run_getOrFetch [OF k] have part: "token_part t (dos es1)" and cs: "challenge_store s1 = challenge_store s" by auto
  show ?thesis
  proof (cases k)
    case (Inl e)
    with rest have "dos es2 = []" by (auto simp: exec_bind framed)
    with assms(2) es token_part_plain [OF part] show ?thesis by auto
  next
    case (Inr tok)
    with rest obtain a where a: "base_call t (with_token tok req) s1 = (a, s')" and es2: "dos es2 = [with_token tok req]"
      by (auto simp: exec_bind framed)
    from base_call_net [OF a] getOrFetch_stores [OF k [unfolded Inr]] cs es es2 show ?thesis by auto
  qed
qed

lemma discovery_stores:
  assumes "exec (discoveryPath t req host repo None) s r es s'" and "UpHeader (last (dos es)) \<noteq> UpHeader req"
    and "\<exists>q \<in> set (tl (dos es)). UpHeader q \<noteq> []"
  shows "\<exists>ce te. map_of (challenge_store s') (challengeKey host repo) = Some ce \<and>
    map_of (entries (token_store s')) (challenge ce) = Some te \<and> last (dos es) = with_token (token te) req"
proof (cases "UpMethod req \<noteq> ''GET'' \<and> UpMethod req \<noteq> ''HEAD''")
  case True
  with assms(1) have "dos es = [req]" by (auto simp: discoveryPath_def exec_bind framed)
  with assms(2) show ?thesis by simp
next
  case False
  obtain a s1 where a: "base_call t req s = (a, s1)" by fastforce
  from assms(1) False a obtain es2 where es: "dos es = req # dos es2"
    and rest: "exec (case a of
        Inl err \<Rightarrow> State_Monad.return (Inl (Wrap err ''oci auth discovery request''))
      | Inr resp \<Rightarrow> (case parseOCIAuthChallenge resp of
            None \<Rightarrow> State_Monad.return (Inr resp)
          | Some ch \<Rightarrow> discovered t req host repo None resp ch)) s1 r es2 s'"
    unfolding discoveryPath_def by (simp only: if_False) (erule_tac exec_bindE; (intro framed)?; auto)
  from assms(3) es have q: "\<exists>q \<in> set (dos es2). UpHeader q \<noteq> []" by simp
  with rest obtain resp ch where "a = Inr resp" and "exec (discovered t req host repo None resp ch) s1 r es2 s'"
    by (auto split: sum.splits option.splits)
  from this(2) obtain n s2 es3 where "dos es2 = dos es3" and red: "exec (redeem t req host repo resp ch)
        (s2\<lparr>challenge_store := challenge_set (challengeKey host repo) ch (Add n challengeTTL) (challenge_store s2)\<rparr>)
        r es3 s'"
    by (auto simp: discovered_def exec_bind framed)
  with q have "\<exists>q \<in> set (dos es3). UpHeader q \<noteq> []" and ne: "dos es3 \<noteq> []" by auto
  from redeem_stores [OF red this(1)] \<open>dos es2 = dos es3\<close> es ne show ?thesis
    by (auto simp: challenge_set_def)
qed

lemma warm_RoundTrip:
  assumes "hdr_Get (UpHeader req) ''Authorization'' = []" and "extractOCIRepository (UpURL req) = Some (host, repo)"
    and "map_of (challenge_store s) (challengeKey host repo) = Some ce"
    and "map_of (entries (token_store s)) (challenge ce) = Some te"
    and "now_call t s = (n1, s1)" and "n1 < challenge_expiry ce"
    and "now_call t s1 = (n2, s2)" and "n2 \<le> token_expiry te"
    and "base_call t (with_token (token te) req) s2 = (a, s3)"
    and "\<forall>resp. a = Inr resp \<longrightarrow> StatusCode resp \<noteq> 401"
  shows "exec (RoundTrip t req) s (wrap_result ''oci auth proactive request'' a)
    [EvNow n1, EvNow n2, EvDo (with_token (token te) req)] s3"
proof -
  from now_call_net [OF assms(5)] now_call_net [OF assms(7)] have s: "token_store s1 = token_store s" by auto
  show ?thesis
    using assms s by (cases a) (simp_all add: RoundTrip_def known_challenge_def proactivePath_def getOrFetch_def
        cached_token_def exec_bind framed challenge_get_def token_get_def Before_def After_def wrap_result_def)
qed

section \<open>Runs of the demonstration\<close>

lemma demo_token_fetch:
  "token_store s = newTokenCache \<Longrightarrow> exec (getOrFetch demo_transport demo_challenge) s r es s' \<longleftrightarrow>
     r = Inr ''abc'' \<and> es = [EvDo demo_token_request, EvNow 0] \<and>
     s' = s\<lparr>token_store := \<lparr>entries = [(demo_challenge, \<lparr>token = ''abc'', token_expiry = 30 * Second\<rparr>)]\<rparr>\<rparr>"
  by (auto simp: getOrFetch_def cached_token_def fetchAndStore_def newTokenCache_def flight_result_def
      token_set_def Add_def demo_run)

lemma demo_first_pull:
  "\<exists>es. exec (RoundTrip demo_transport (demo_pull ''GET'')) (newOCIAuthTransport ())
     (Inr \<lparr>StatusCode = 200, RespHeader = [], RespBody = (''layer'', None)\<rparr>) es learned_state \<and>
     dos es = [demo_pull ''GET'', demo_token_request, with_token ''abc'' (demo_pull ''GET'')]"
  by (simp add: RoundTrip_def known_challenge_def discoveryPath_def discovered_def redeem_def newOCIAuthTransport_def
    demo_run demo_token_fetch wrap_result_def learned_state_def challenge_set_def Add_def)

lemma demo_second_pull:
  "\<exists>es. exec (RoundTrip demo_transport (demo_pull ''GET'')) learned_state
     (Inr \<lparr>StatusCode = 200, RespHeader = [], RespBody = (''layer'', None)\<rparr>) es learned_state \<and>
     dos es = [with_token ''abc'' (demo_pull ''GET'')]"
  by (simp add: RoundTrip_def known_challenge_def proactivePath_def getOrFetch_def cached_token_def
    demo_run learned_state_def challenge_get_def token_get_def Before_def After_def challengeTTL_def Hour_def Second_def)

section \<open>Properties\<close>

lemma demo_inv: "oci_inv demo_transport (newOCIAuthTransport ())"
  by (simp add: oci_inv_def newOCIAuthTransport_def newTokenCache_def wf_tokens_def)

lemma discovery_parts:
  assumes "discovery_run t req ds r"
  obtains ts as where "ds = [req] @ ts @ as" "token_part t ts" "authed_part req as" "answer_to t (last ([req] @ as)) r"
proof -
  from assms obtain ts where ts: "token_part t ts"
    and cases: "ds = req # ts \<and> answer_to t req r \<or>
      (\<exists>tok. tok \<noteq> [] \<and> ds = req # ts @ [with_token tok req] \<and> answer_to t (with_token tok req) r)"
    unfolding discovery_run_def by blast
  from cases show thesis
  proof (elim disjE exE conjE)
    assume "ds = req # ts" "answer_to t req r"
    with ts show thesis by (intro that [of ts "[]"]) (simp_all add: authed_part_def)
  next
    fix tok
    assume "tok \<noteq> []" "ds = req # ts @ [with_token tok req]" "answer_to t (with_token tok req) r"
    with ts show thesis by (intro that [of ts "[with_token tok req]"]) (auto simp: authed_part_def)
  qed
qed

definition trip_parts ::
    "'w ociAuthTransport \<Rightarrow> UpRequest \<Rightarrow> UpRequest list \<Rightarrow> go_error + Response \<Rightarrow> UpRequest list \<Rightarrow> UpRequest list \<Rightarrow>
     UpRequest list \<Rightarrow> UpRequest list \<Rightarrow> UpRequest list \<Rightarrow> bool" where
  "trip_parts t req qs r ts as bs ts' as' \<longleftrightarrow> qs = ts @ as @ bs @ ts' @ as' \<and> token_part t ts \<and> authed_part req as \<and>
     (bs = [] \<or> bs = [req]) \<and> token_part t ts' \<and> authed_part req as' \<and> as @ bs @ as' \<noteq> [] \<and>
     answer_to t (last (as @ bs @ as')) r"

lemma trip_then_discovery:
  assumes "token_part t ts" and "authed_part req as" and "discovery_run t req ds r"
  shows "\<exists>bs ts' as'. trip_parts t req (ts @ as @ ds) r ts as bs ts' as'"
proof -
  obtain ts' as' where ds: "ds = [req] @ ts' @ as'" "token_part t ts'" "authed_part req as'" "answer_to t (last ([req] @ as')) r"
    using assms(3) by (rule discovery_parts)
  moreover have "last (as @ [req] @ as') = last ([req] @ as')" by (simp only: last_appendR append_is_Nil_conv list.distinct simp_thms)
  ultimately have "trip_parts t req (ts @ as @ ds) r ts as [req] ts' as'"
    using assms(1,2) by (simp add: trip_parts_def)
  then show ?thesis by blast
qed

lemma RoundTrip_parts:
  assumes "exec (RoundTrip t req) s r es s'" and "oci_inv t s"
  shows "\<exists>ts as bs ts' as'. trip_parts t req (dos es) r ts as bs ts' as'"
proof -
  have nil: "token_part t []" "authed_part req []" by (simp_all add: token_part_def authed_part_def)
  have disc: "discovery_run t req qs r \<Longrightarrow> \<exists>ts as bs ts' as'. trip_parts t req qs r ts as bs ts' as'" for qs
    using trip_then_discovery [OF nil] by fastforce
  from RoundTrip_cases [OF assms] consider
      "dos es = [req]" "answer_to t req r"
    | "discovery_run t req (dos es) r"
    | "proactive_run t req (dos es) r" by blast
  then show ?thesis
  proof cases
    case 1
    then show ?thesis using disc discovery_bare by metis
  next
    case 2
    then show ?thesis by (rule disc)
  next
    case 3
    then consider (token) ts tok where "token_part t ts" "tok \<noteq> []" "dos es = ts @ [with_token tok req]" "answer_to t (with_token tok req) r"
      | (discovery) ts as ds where "token_part t ts" "authed_part req as" "dos es = ts @ as @ ds" "discovery_run t req ds r"
      unfolding proactive_run_def by blast
    then show ?thesis
    proof cases
      case token
      then have "trip_parts t req (dos es) r ts [with_token tok req] [] [] []"
        using nil by (auto simp: trip_parts_def authed_part_def)
      then show ?thesis by blast
    next
      case discovery
      then show ?thesis using trip_then_discovery by metis
    qed
  qed
qed

lemma token_part_safe:
  "token_part t ts \<Longrightarrow> length ts \<le> 1 \<and> (\<forall>q \<in> set ts. UpMethod q = ''GET'' \<and> UpHeader q = [] \<and>
     Scheme (UpURL q) = ''https'' \<and> (\<exists>ch. token_request (oci_ip6 t) ch = Inr q))"
  by (auto simp: token_part_def dest: token_request_shape)

lemma authed_part_safe:
  "authed_part req as \<Longrightarrow> length as \<le> 1 \<and> (\<forall>q \<in> set as. \<exists>tok. tok \<noteq> [] \<and> q = with_token tok req)"
  by (auto simp: authed_part_def)

text \<open>
  C18. What the transport may send. One request of the client leads to at most five: perhaps a token
  request, perhaps the client's request with a token, perhaps the client's request as it came, perhaps
  another token request, perhaps the client's request with that token - in this order. Token requests
  are GETs without headers over https, so nothing of the client's request reaches the token endpoint, and
  what is returned is the answer to the last sending of the client's request: no failure around tokens
  ever becomes the client's error.
\<close>

theorem round_trip_requests:
  assumes "exec (RoundTrip t req) s r es s'" and "oci_inv t s"
  shows "\<exists>ts as bs ts' as'. dos es = ts @ as @ bs @ ts' @ as' \<and> length (dos es) \<le> 5 \<and>
    length ts \<le> 1 \<and> length as \<le> 1 \<and> length ts' \<le> 1 \<and> length as' \<le> 1 \<and> (bs = [] \<or> bs = [req]) \<and>
    (\<forall>q \<in> set (ts @ ts'). UpMethod q = ''GET'' \<and> UpHeader q = [] \<and> Scheme (UpURL q) = ''https'' \<and>
       (\<exists>ch. token_request (oci_ip6 t) ch = Inr q)) \<and>
    (\<forall>q \<in> set (as @ as'). \<exists>tok. tok \<noteq> [] \<and> q = with_token tok req) \<and>
    as @ bs @ as' \<noteq> [] \<and> answer_to t (last (as @ bs @ as')) r"
proof -
  obtain ts as bs ts' as' where "trip_parts t req (dos es) r ts as bs ts' as'"
    using RoundTrip_parts [OF assms] by blast
  then have p: "dos es = ts @ as @ bs @ ts' @ as'" "bs = [] \<or> bs = [req]" "as @ bs @ as' \<noteq> []"
      "answer_to t (last (as @ bs @ as')) r"
    and safe: "token_part t ts" "token_part t ts'" "authed_part req as" "authed_part req as'"
    unfolding trip_parts_def by blast+
  note safe = token_part_safe [OF safe(1)] token_part_safe [OF safe(2)] authed_part_safe [OF safe(3)] authed_part_safe [OF safe(4)]
  have bs: "length bs \<le> 1" using p(2) by auto
  have len: "length (dos es) \<le> 5"
    using safe(1,2,3,4) [THEN conjunct1] bs unfolding p(1) length_append by linarith
  show ?thesis
  proof (intro exI conjI)
    show "dos es = ts @ as @ bs @ ts' @ as'" "bs = [] \<or> bs = [req]" "as @ bs @ as' \<noteq> []"
      "answer_to t (last (as @ bs @ as')) r" by (fact p)+
    show "\<forall>q \<in> set (ts @ ts'). UpMethod q = ''GET'' \<and> UpHeader q = [] \<and> Scheme (UpURL q) = ''https'' \<and>
        (\<exists>ch. token_request (oci_ip6 t) ch = Inr q)"
      unfolding set_append ball_Un using safe(1,2) by blast
    show "\<forall>q \<in> set (as @ as'). \<exists>tok. tok \<noteq> [] \<and> q = with_token tok req"
      unfolding set_append ball_Un using safe(3,4) by blast
  qed (fact len safe [THEN conjunct1])+
qed

theorem round_trip_requests_witness:
  "\<exists>r es s'. exec (RoundTrip demo_transport (demo_pull ''GET'')) (newOCIAuthTransport ()) r es s' \<and> length (dos es) \<le> 5"
proof -
  obtain es where e: "exec (RoundTrip demo_transport (demo_pull ''GET'')) (newOCIAuthTransport ())
      (Inr \<lparr>StatusCode = 200, RespHeader = [], RespBody = (''layer'', None)\<rparr>) es learned_state"
    using demo_first_pull by blast
  from round_trip_requests [OF e demo_inv] e show ?thesis by blast
qed

text \<open>
  C22. The transport stays out of the way of requests that bring their own credentials and of paths that
  name no repository: exactly this request goes to the base transport, its answer is the result, error
  and all, and neither map nor clock is touched.
\<close>

theorem foreign_requests_untouched:
  assumes "hdr_Get (UpHeader req) ''Authorization'' \<noteq> [] \<or> extractOCIRepository (UpURL req) = None"
  shows "exec (RoundTrip t req) s r es s' \<longleftrightarrow>
    es = [EvDo req] \<and> (\<exists>w. base t req (net s) = (r, w) \<and> s' = s\<lparr>net := w\<rparr>)"
  using assms by (auto simp: RoundTrip_def base_call_def split: prod.splits)

theorem foreign_requests_untouched_witness:
  "exec (RoundTrip demo_transport (with_token ''mine'' (demo_pull ''POST''))) learned_state
     (Inr (demo_answer (with_token ''mine'' (demo_pull ''POST'')))) [EvDo (with_token ''mine'' (demo_pull ''POST''))] learned_state"
proof -
  have "hdr_Get (UpHeader (with_token ''mine'' (demo_pull ''POST''))) ''Authorization'' \<noteq> []" by code_simp
  then have "hdr_Get (UpHeader (with_token ''mine'' (demo_pull ''POST''))) ''Authorization'' \<noteq> [] \<or>
      extractOCIRepository (UpURL (with_token ''mine'' (demo_pull ''POST''))) = None" by blast
  note exact = foreign_requests_untouched [OF this]
  show ?thesis unfolding exact by (simp add: demo_transport_def learned_state_def)
qed

text \<open>
  A request that is not a GET or a HEAD is sent once, with a token or without: after perhaps one
  token request, the client's request is the last and only one.
\<close>

theorem unsafe_methods_sent_once:
  assumes "exec (RoundTrip t req) s r es s'" and "oci_inv t s"
    and "UpMethod req \<noteq> ''GET''" and "UpMethod req \<noteq> ''HEAD''"
  shows "\<exists>ts q. dos es = ts @ [q] \<and> length ts \<le> 1 \<and> (\<forall>k \<in> set ts. \<exists>ch. token_request (oci_ip6 t) ch = Inr k) \<and>
    (q = req \<or> (\<exists>tok. q = with_token tok req))"
  using RoundTrip_cases [OF assms(1,2)] assms(3,4) by (fastforce simp: token_part_def authed_part_def)

theorem unsafe_methods_sent_once_witness:
  "\<exists>r es s'. exec (RoundTrip demo_transport (demo_pull ''POST'')) (newOCIAuthTransport ()) r es s' \<and> length (dos es) \<le> 2"
proof -
  obtain r es s' where e: "exec (RoundTrip demo_transport (demo_pull ''POST'')) (newOCIAuthTransport ()) r es s'"
    using exec_total [of "RoundTrip demo_transport (demo_pull ''POST'')" "newOCIAuthTransport ()"] by blast
  from unsafe_methods_sent_once [OF e demo_inv] obtain ts q where "dos es = ts @ [q]" "length ts \<le> 1"
    by (auto simp: demo_plain)
  with e show ?thesis by fastforce
qed




text \<open>
  C24. A repository's challenge is learned once. When the first request for a repository ended in a retry
  with a token, every later request for that repository, as long as challenge and token have not expired,
  is one single request with this token, and its answer is the result unless it is another 401.
\<close>

theorem pull_pays_once:
  assumes "exec (RoundTrip t req) s r es s'" and "hdr_Get (UpHeader req) ''Authorization'' = []"
    and "extractOCIRepository (UpURL req) = Some (host, repo)"
    and "map_of (challenge_store s) (challengeKey host repo) = None"
    and "last (dos es) = with_token tok req" and "tl (dos es) \<noteq> []"
  shows "\<exists>ce te. map_of (challenge_store s') (challengeKey host repo) = Some ce \<and>
    map_of (entries (token_store s')) (challenge ce) = Some te \<and>
    with_token (token te) req = with_token tok req \<and>
    (\<forall>req' s1 n1 s2 n2 s3 a s4.
       hdr_Get (UpHeader req') ''Authorization'' = [] \<longrightarrow> extractOCIRepository (UpURL req') = Some (host, repo) \<longrightarrow>
       token_store s1 = token_store s' \<longrightarrow> challenge_store s1 = challenge_store s' \<longrightarrow>
       now_call t s1 = (n1, s2) \<longrightarrow> n1 < challenge_expiry ce \<longrightarrow> now_call t s2 = (n2, s3) \<longrightarrow> n2 \<le> token_expiry te \<longrightarrow>
       base_call t (with_token (token te) req') s3 = (a, s4) \<longrightarrow> (\<forall>resp. a = Inr resp \<longrightarrow> StatusCode resp \<noteq> 401) \<longrightarrow>
       exec (RoundTrip t req') s1 (wrap_result ''oci auth proactive request'' a)
         [EvNow n1, EvNow n2, EvDo (with_token (token te) req')] s4)"
proof -
  have k0: "exec (known_challenge t (challengeKey host repo)) s None [] s"
    using assms(4) by (simp add: known_challenge_def exec_bind framed)
  obtain known es1 s1 es2 where k1: "exec (known_challenge t (challengeKey host repo)) s known es1 s1"
    and es: "es = es1 @ es2" and rest: "exec (case known of
        Some ch \<Rightarrow> proactivePath t req host repo ch
      | None \<Rightarrow> discoveryPath t req host repo None) s1 r es2 s'"
    using assms(1) unfolding RoundTrip_def assms(3) using assms(2)
    by (simp only: option.case prod.case if_False simp_thms) (erule exec_bindE; (intro framed)?; blast?)
  have d: "exec (discoveryPath t req host repo None) s r es s'"
    using exec_det [OF k0 k1] es rest by simp
  have "UpHeader (with_token tok req) \<noteq> UpHeader req"
  proof
    assume "UpHeader (with_token tok req) = UpHeader req"
    then have "hdr_Get (hdr_Set (UpHeader req) ''Authorization'' (''Bearer '' @ tok)) ''Authorization'' = []"
      using assms(2) by (simp add: with_token_def)
    then show False by (simp add: hdr_Get_def hdr_Values_Set)
  qed
  moreover have "last (dos es) \<in> set (tl (dos es))"
    using assms(6) by (cases "dos es") auto
  ultimately obtain ce te where st: "map_of (challenge_store s') (challengeKey host repo) = Some ce"
    "map_of (entries (token_store s')) (challenge ce) = Some te" and "last (dos es) = with_token (token te) req"
    using discovery_stores [OF d] assms(5) with_token_header by metis
  then show ?thesis
    using assms(5) by (intro exI conjI st allI impI warm_RoundTrip) simp_all
qed

theorem pull_pays_once_witness:
  "\<exists>es. exec (RoundTrip demo_transport (demo_pull ''HEAD'')) learned_state
     (Inr (demo_answer (with_token ''abc'' (demo_pull ''HEAD'')))) es learned_state \<and>
     dos es = [with_token ''abc'' (demo_pull ''HEAD'')]"
proof -
  obtain es where e: "exec (RoundTrip demo_transport (demo_pull ''GET'')) (newOCIAuthTransport ())
      (Inr \<lparr>StatusCode = 200, RespHeader = [], RespBody = (''layer'', None)\<rparr>) es learned_state"
    and d: "dos es = [demo_pull ''GET'', demo_token_request, with_token ''abc'' (demo_pull ''GET'')]"
    using demo_first_pull by blast
  have "map_of (challenge_store (newOCIAuthTransport ())) (challengeKey ''registry'' ''library/alpine'') = None"
    by (simp add: newOCIAuthTransport_def)
  from pull_pays_once [OF e demo_plain(1) demo_repository this, of "''abc''"] d
  obtain ce te where ce: "map_of (challenge_store learned_state) (challengeKey ''registry'' ''library/alpine'') = Some ce"
    and te: "map_of (entries (token_store learned_state)) (challenge ce) = Some te"
    and warm: "\<And>req' s1 n1 s2 n2 s3 a s4.
       hdr_Get (UpHeader req') ''Authorization'' = [] \<Longrightarrow> extractOCIRepository (UpURL req') = Some (''registry'', ''library/alpine'') \<Longrightarrow>
       token_store s1 = token_store learned_state \<Longrightarrow> challenge_store s1 = challenge_store learned_state \<Longrightarrow>
       now_call demo_transport s1 = (n1, s2) \<Longrightarrow> n1 < challenge_expiry ce \<Longrightarrow> now_call demo_transport s2 = (n2, s3) \<Longrightarrow>
       n2 \<le> token_expiry te \<Longrightarrow> base_call demo_transport (with_token (token te) req') s3 = (a, s4) \<Longrightarrow>
       (\<forall>resp. a = Inr resp \<longrightarrow> StatusCode resp \<noteq> 401) \<Longrightarrow>
       exec (RoundTrip demo_transport req') s1 (wrap_result ''oci auth proactive request'' a)
         [EvNow n1, EvNow n2, EvDo (with_token (token te) req')] s4"
    by auto
  from ce te have "ce = \<lparr>challenge = demo_challenge, challenge_expiry = challengeTTL\<rparr>"
    and "te = \<lparr>token = ''abc'', token_expiry = 30 * Second\<rparr>"
    by (auto simp: learned_state_def demo_key)
  moreover have "demo_answer (with_token ''abc'' (demo_pull ''HEAD'')) = \<lparr>StatusCode = 200, RespHeader = [], RespBody = (''layer'', None)\<rparr>"
    by code_simp
  ultimately have "exec (RoundTrip demo_transport (demo_pull ''HEAD'')) learned_state
      (wrap_result ''oci auth proactive request'' (Inr (demo_answer (with_token ''abc'' (demo_pull ''HEAD'')))))
      [EvNow 0, EvNow 0, EvDo (with_token ''abc'' (demo_pull ''HEAD''))] learned_state"
    using warm [OF demo_plain(1) demo_repository refl refl demo_transport_simps(2) _ demo_transport_simps(2) _
        demo_transport_simps(1), of "''HEAD''"]
    by (simp add: challengeTTL_def Hour_def Second_def)
  then show ?thesis
    by (intro exI [where x = "[EvNow 0, EvNow 0, EvDo (with_token ''abc'' (demo_pull ''HEAD''))]"])
      (simp add: wrap_result_def)
qed








end
