(* ===== verification/OciProvenance.thy ===== *)
theory OciProvenance
  imports OciProperties
begin

text \<open>
  Where a token may go. Every stored challenge was served by the registry host and repository it is
  stored for, every stored token was issued by the endpoint of its challenge, and a request that leaves
  with a token is the client's own, for that host and repository. The argument is compositional: a
  guarantee holds of a sequence of programs when it holds of each, by the rules collected in
  \<open>guarantees\<close>.
\<close>

section \<open>Provenance\<close>

text \<open>The base transport can answer a request for host and repository of \<open>key\<close> with this challenge.\<close>

definition served :: "'w ociAuthTransport \<Rightarrow> string \<Rightarrow> ociAuthChallenge \<Rightarrow> bool" where
  "served t key ch \<longleftrightarrow> (\<exists>req host repo w resp w'. extractOCIRepository (UpURL req) = Some (host, repo) \<and>
     key = challengeKey host repo \<and> base t req w = (Inr resp, w') \<and> parseOCIAuthChallenge resp = Some ch)"

text \<open>It can answer the token request of the challenge with this token.\<close>

definition issued :: "'w ociAuthTransport \<Rightarrow> ociAuthChallenge \<Rightarrow> string \<Rightarrow> bool" where
  "issued t ch tok \<longleftrightarrow> (\<exists>q w resp w' d. token_request (oci_ip6 t) ch = Inr q \<and> base t q w = (Inr resp, w') \<and>
     read_token resp = Inr (tok, d))"

definition proper :: "'w ociAuthTransport \<Rightarrow> UpRequest \<Rightarrow> UpRequest \<Rightarrow> bool" where
  "proper t req q \<longleftrightarrow> q = req \<or> (\<exists>ch. token_request (oci_ip6 t) ch = Inr q) \<or>
     (\<exists>tok ch host repo. q = with_token tok req \<and> extractOCIRepository (UpURL req) = Some (host, repo) \<and>
        served t (challengeKey host repo) ch \<and> issued t ch tok)"

definition provenance :: "'w ociAuthTransport \<Rightarrow> 'w oci_state \<Rightarrow> bool" where
  "provenance t s \<longleftrightarrow> wf_tokens (token_store s) \<and> wf_map (challenge_store s) \<and>
     (\<forall>key e. map_of (challenge_store s) key = Some e \<longrightarrow> served t key (challenge e)) \<and>
     (\<forall>ch e. map_of (entries (token_store s)) ch = Some e \<longrightarrow> issued t ch (token e))"

lemma provenance_new: "provenance t (newOCIAuthTransport w)"
  by (simp add: provenance_def newOCIAuthTransport_def newTokenCache_def wf_tokens_def)

lemma provenance_net [simp]: "provenance t (s\<lparr>net := w\<rparr>) = provenance t s"
  by (simp add: provenance_def)

lemma provenance_now: "now_call t s = (n, s') \<Longrightarrow> provenance t s \<Longrightarrow> provenance t s'"
  and provenance_base: "base_call t q s = (r, s') \<Longrightarrow> provenance t s \<Longrightarrow> provenance t s'"
  by (auto dest!: now_call_net base_call_net)

lemma provenance_writes:
  "provenance t s \<Longrightarrow> served t key ch \<Longrightarrow> provenance t (s\<lparr>challenge_store := challenge_set key ch e (challenge_store s)\<rparr>)"
  "provenance t s \<Longrightarrow> issued t ch tok \<Longrightarrow> provenance t (s\<lparr>token_store := token_set ch tok e (token_store s)\<rparr>)"
  "provenance t s \<Longrightarrow> provenance t (s\<lparr>challenge_store := challenge_delete key (challenge_store s)\<rparr>)"
  "provenance t s \<Longrightarrow> provenance t (s\<lparr>token_store := token_evict ch (token_store s)\<rparr>)"
  "provenance t s \<Longrightarrow> provenance t (s\<lparr>challenge_store := sweepChallenges now (challenge_store s)\<rparr>)"
  "provenance t s \<Longrightarrow> provenance t (s\<lparr>token_store := token_sweep now (token_store s)\<rparr>)"
  by (auto simp: provenance_def token_defs challenge_defs sweep_lookup split: if_splits option.splits)

section \<open>Guarantees\<close>

text \<open>
  \<open>guarantee t req Q p\<close>: run on behalf of \<open>req\<close> from maps with provenance, \<open>p\<close> keeps it,
  sends only proper requests and returns a result in \<open>Q\<close>.
\<close>

definition guarantee ::
    "'w ociAuthTransport \<Rightarrow> UpRequest \<Rightarrow> ('a \<Rightarrow> bool) \<Rightarrow> ('w oci_state sys, 'a) state \<Rightarrow> bool" where
  "guarantee t req Q p \<longleftrightarrow> framed p \<and>
     (\<forall>s r es s'. exec p s r es s' \<longrightarrow> provenance t s \<longrightarrow>
        provenance t s' \<and> (\<forall>q \<in> set (dos es). proper t req q) \<and> Q r)"

named_theorems guarantees \<open>programs that send only proper requests\<close>

lemma guaranteeD:
  "guarantee t req Q p \<Longrightarrow> exec p s r es s' \<Longrightarrow> provenance t s \<Longrightarrow>
   provenance t s' \<and> (\<forall>q \<in> set (dos es). proper t req q) \<and> Q r"
  by (simp add: guarantee_def)

lemma guarantee_bind:
  assumes "guarantee t req Q p" and "\<And>a. Q a \<Longrightarrow> guarantee t req R (f a)" and "\<And>a. framed (f a)"
  shows "guarantee t req R (State_Monad.bind p f)"
  unfolding guarantee_def
proof (intro conjI allI impI)
  show "framed (State_Monad.bind p f)" using assms by (auto simp: guarantee_def intro: framed)
next
  fix s r es s'
  assume e: "exec (State_Monad.bind p f) s r es s'" and s: "provenance t s"
  from assms(1) have p: "framed p" by (simp add: guarantee_def)
  obtain a es1 s1 es2 where r: "exec p s a es1 s1" "exec (f a) s1 r es2 s'" and es: "es = es1 @ es2"
    by (rule exec_bindE [OF e p assms(3)])
  from guaranteeD [OF assms(1) r(1) s] have 1: "provenance t s1" "\<forall>q \<in> set (dos es1). proper t req q" "Q a" by blast+
  from guaranteeD [OF assms(2) [OF 1(3)] r(2) 1(1)] 1(2)
  show "provenance t s'" "\<forall>q \<in> set (dos es). proper t req q" "R r" by (auto simp: es)
qed

lemma guarantee_return [guarantees]: "Q a \<Longrightarrow> guarantee t req Q (State_Monad.return a)"
  by (simp add: guarantee_def framed_prims)

lemma guarantee_map:
  "guarantee t req Q p \<Longrightarrow> guarantee t req (\<lambda>_. True) (do { r \<leftarrow> p; State_Monad.return (f r) })"
  by (erule guarantee_bind) (auto intro: guarantees framed)

lemma guarantee_weaken: "guarantee t req Q p \<Longrightarrow> (\<And>a. Q a \<Longrightarrow> R a) \<Longrightarrow> guarantee t req R p"
  by (auto simp: guarantee_def)

lemma guarantee_Printf [guarantees]: "guarantee t req (\<lambda>_. True) (Printf fmt args)"
  by (simp add: guarantee_def framed)

lemma guarantee_send: "proper t req q \<Longrightarrow> guarantee t req (\<lambda>r. \<exists>s s'. base_call t q s = (r, s')) (send t q)"
  by (auto simp: guarantee_def framed dest: provenance_base)

lemma guarantee_clock [guarantees]: "guarantee t req (\<lambda>_. True) (read_clock (now_call t))"
  by (auto simp: guarantee_def framed dest: provenance_now)

lemma guarantee_write:
  "(\<And>s. provenance t s \<Longrightarrow> provenance t (f s)) \<Longrightarrow> guarantee t req (\<lambda>_. True) (write_state f)"
  by (simp add: guarantee_def framed)

section \<open>The operations\<close>

lemma guarantee_cached: "guarantee t req (\<lambda>r. \<forall>tok. r = Some tok \<longrightarrow> issued t ch tok) (cached_token t ch)"
  unfolding guarantee_def
proof (intro conjI allI impI)
  fix s r es s' assume "exec (cached_token t ch) s r es s'" "provenance t s"
  with run_cached_token [OF this(1)]
  show "provenance t s'" "\<forall>q \<in> set (dos es). proper t req q" and "r = Some tok \<Longrightarrow> issued t ch tok" for tok
    by (auto simp: provenance_def)
qed (intro framed)

lemma guarantee_known: "guarantee t req (\<lambda>r. \<forall>ch. r = Some ch \<longrightarrow> served t key ch) (known_challenge t key)"
  unfolding guarantee_def
proof (intro conjI allI impI)
  fix s r es s' assume "exec (known_challenge t key) s r es s'" "provenance t s"
  with run_known_challenge [OF this(1)]
  show "provenance t s'" "\<forall>q \<in> set (dos es). proper t req q" and "r = Some ch \<Longrightarrow> served t key ch" for ch
    by (auto simp: provenance_def)
qed (intro framed)

lemma guarantee_fetchToken:
  "guarantee t req (\<lambda>r. \<forall>tok e. r = Inr (tok, e) \<longrightarrow> issued t ch tok) (fetchToken (now_call t) (oci_ip6 t) (base_call t) ch)"
  unfolding guarantee_def
proof (intro conjI allI impI)
  fix s r es s' assume e: "exec (fetchToken (now_call t) (oci_ip6 t) (base_call t) ch) s r es s'" and s: "provenance t s"
  from run_fetchToken [OF e] s show "provenance t s'" by auto
  show "\<forall>q \<in> set (dos es). proper t req q"
    using run_fetchToken [OF e] by (auto simp: proper_def split: sum.splits)
  show "issued t ch tok" if "r = Inr (tok, ex)" for tok ex
  proof -
    from e that obtain q where q: "token_request (oci_ip6 t) ch = Inr q"
      by (auto simp: exec_fetchToken split: sum.splits)
    obtain a w where a: "base t q (net s) = (a, w)" by fastforce
    from e that q a obtain resp d where "a = Inr resp" "read_token resp = Inr (tok, d)"
      by (auto simp: exec_fetchToken base_call_def split: sum.splits)
    with q a show ?thesis unfolding issued_def by blast
  qed
qed (intro framed)

lemma guarantee_fetchAndStore:
  "guarantee t req (\<lambda>r. \<forall>tok. r = Inr tok \<longrightarrow> issued t ch tok) (fetchAndStore t ch)"
  unfolding fetchAndStore_def
proof (rule guarantee_bind [OF guarantee_fetchToken])
  fix a :: "go_error + string \<times> time" assume a: "\<forall>tok e. a = Inr (tok, e) \<longrightarrow> issued t ch tok"
  show "guarantee t req (\<lambda>r. \<forall>tok. r = Inr tok \<longrightarrow> issued t ch tok) (case a of
        Inl err \<Rightarrow> State_Monad.return (Inl err)
      | Inr (tok, exp) \<Rightarrow> do {
          write_state (\<lambda>s. s\<lparr>token_store := token_set ch tok exp (token_store s)\<rparr>);
          State_Monad.return (Inr tok)
        })"
  proof (cases a)
    case (Inr p)
    with a obtain tok ex where p: "a = Inr (tok, ex)" "issued t ch tok" by (cases p) auto
    have w: "guarantee t req (\<lambda>_. True) (write_state (\<lambda>s. s\<lparr>token_store := token_set ch tok ex (token_store s)\<rparr>))"
      using p(2) by (intro guarantee_write provenance_writes)
    show ?thesis
      unfolding p(1) sum.case prod.case
      by (rule guarantee_bind [OF w]) (use p(2) in \<open>auto intro: guarantees framed\<close>)
  qed (auto intro: guarantees)
qed (intro framed)

lemma guarantee_getOrFetch:
  "guarantee t req (\<lambda>r. \<forall>tok. r = Inr tok \<longrightarrow> issued t ch tok) (getOrFetch t ch)"
  unfolding getOrFetch_def
proof (rule guarantee_bind [OF guarantee_cached [where ch = ch]])
  fix a assume a: "\<forall>tok. a = Some tok \<longrightarrow> issued t ch tok"
  have f: "guarantee t req (\<lambda>r. \<forall>tok. r = Inr tok \<longrightarrow> issued t ch tok)
      (do { r \<leftarrow> fetchAndStore t ch; State_Monad.return (flight_result r) })"
    by (rule guarantee_bind [OF guarantee_fetchAndStore [where ch = ch]])
      (auto intro!: guarantee_return framed simp: flight_result_def split: sum.splits)
  show "guarantee t req (\<lambda>r. \<forall>tok. r = Inr tok \<longrightarrow> issued t ch tok) (case a of
        Some tok \<Rightarrow> State_Monad.return (Inr tok)
      | None \<Rightarrow> do { r \<leftarrow> fetchAndStore t ch; State_Monad.return (flight_result r) })"
    using a f by (cases a) (auto intro: guarantees)
qed (intro framed)

lemma proper_with_token:
  "extractOCIRepository (UpURL req) = Some (host, repo) \<Longrightarrow> served t (challengeKey host repo) ch \<Longrightarrow> issued t ch tok \<Longrightarrow>
   proper t req (with_token tok req)"
  unfolding proper_def by blast

lemma guarantee_redeem:
  assumes "extractOCIRepository (UpURL req) = Some (host, repo)" and "served t (challengeKey host repo) ch"
  shows "guarantee t req (\<lambda>_. True) (redeem t req host repo resp ch)"
  unfolding redeem_def
proof (rule guarantee_bind [OF guarantee_getOrFetch [where ch = ch]])
  fix a :: "go_error + string" assume a: "\<forall>tok. a = Inr tok \<longrightarrow> issued t ch tok"
  show "guarantee t req (\<lambda>_. True) (case a of
        Inl err \<Rightarrow> do {
          Printf ''oci auth: token fetch failed for %q/%q: %v'' (repo_attrs host repo @ [AErr ''%v'' err]);
          State_Monad.return (Inr resp)
        }
      | Inr tok \<Rightarrow> do {
          r \<leftarrow> send t (with_token tok req);
          State_Monad.return (wrap_result ''oci auth retry with token'' r)
        })"
  proof (cases a)
    case (Inl e)
    show ?thesis unfolding Inl sum.case
      by (rule guarantee_bind [OF guarantee_Printf]) (auto intro: guarantees framed)
  next
    case (Inr tok)
    with a have "proper t req (with_token tok req)" using proper_with_token [OF assms] by simp
    then show ?thesis unfolding Inr sum.case by (intro guarantee_map [OF guarantee_send])
  qed
qed (intro framed)

lemma guarantee_then:
  "guarantee t req (\<lambda>_. True) p \<Longrightarrow> guarantee t req R q \<Longrightarrow> guarantee t req R (State_Monad.bind p (\<lambda>_. q))"
  by (rule guarantee_bind) (auto simp: guarantee_def)

lemma guarantee_discovered:
  assumes "extractOCIRepository (UpURL req) = Some (host, repo)" and "served t (challengeKey host repo) ch"
  shows "guarantee t req (\<lambda>_. True) (discovered t req host repo failed resp ch)"
proof -
  have w: "guarantee t req (\<lambda>_. True) (write_state (\<lambda>s. s\<lparr>challenge_store :=
       challenge_set (challengeKey host repo) ch e (challenge_store s)\<rparr>))" for e
    using assms(2) by (intro guarantee_write provenance_writes)
  have skip: "guarantee t req (\<lambda>_. True) (do { Printf fmt args; State_Monad.return (Inr resp) })"
    for fmt args by (intro guarantee_then guarantees) simp
  show ?thesis
    unfolding discovered_def
    by (intro guarantee_then guarantee_Printf guarantee_bind [OF guarantee_clock] w)
      (auto intro: skip guarantee_redeem [OF assms] framed)
qed

lemma guarantee_discoveryPath:
  assumes "extractOCIRepository (UpURL req) = Some (host, repo)"
  shows "guarantee t req (\<lambda>_. True) (discoveryPath t req host repo failed)"
proof -
  have bare: "proper t req req" by (simp add: proper_def)
  have answered: "served t (challengeKey host repo) ch"
    if "base_call t req s = (Inr resp, s')" "parseOCIAuthChallenge resp = Some ch" for s s' resp ch
    using that assms unfolding served_def base_call_def by (auto split: prod.splits) blast
  have go_on: "guarantee t req (\<lambda>_. True) (case a of
           Inl err \<Rightarrow> State_Monad.return (Inl (Wrap err ''oci auth discovery request''))
         | Inr resp \<Rightarrow>
             (case parseOCIAuthChallenge resp of
                None \<Rightarrow> State_Monad.return (Inr resp)
              | Some ch \<Rightarrow> discovered t req host repo failed resp ch))"
    if "\<exists>s s'. base_call t req s = (a, s')" for a
    using that
    by (auto split: sum.split option.split intro!: guarantee_return guarantee_discovered [OF assms] dest: answered)
  show ?thesis
    unfolding discoveryPath_def
    by (auto intro!: guarantee_bind [OF guarantee_send [OF bare]] guarantee_return go_on) (intro framed)+
qed

lemma guarantee_proactivePath:
  assumes "extractOCIRepository (UpURL req) = Some (host, repo)" and "served t (challengeKey host repo) ch"
  shows "guarantee t req (\<lambda>_. True) (proactivePath t req host repo ch)"
  unfolding proactivePath_def
proof (rule guarantee_bind [OF guarantee_getOrFetch [where ch = ch]])
  fix a :: "go_error + string" assume a: "\<forall>tok. a = Inr tok \<longrightarrow> issued t ch tok"
  note disc = guarantee_discoveryPath [OF assms(1), where t = t]
  have forget:
    "guarantee t req (\<lambda>_. True) (write_state (\<lambda>s. s\<lparr>challenge_store := challenge_delete key (challenge_store s)\<rparr>))"
    "guarantee t req (\<lambda>_. True) (write_state (\<lambda>s. s\<lparr>token_store := token_evict c (token_store s)\<rparr>))" for key c
    by (intro guarantee_write provenance_writes; assumption)+
  show "guarantee t req (\<lambda>_. True) (case a of
        Inr tok \<Rightarrow> do {
          r \<leftarrow> send t (with_token tok req);
          (case r of
             Inl err \<Rightarrow> State_Monad.return (Inl (Wrap err ''oci auth proactive request''))
           | Inr resp \<Rightarrow>
               if StatusCode resp = 401 \<and> (UpMethod req = ''GET'' \<or> UpMethod req = ''HEAD'') then do {
                 Printf ''oci auth: stale token for %q/%q, re-discovering'' (repo_attrs host repo);
                 write_state (\<lambda>s. s\<lparr>challenge_store := challenge_delete (challengeKey host repo) (challenge_store s)\<rparr>);
                 write_state (\<lambda>s. s\<lparr>token_store := token_evict ch (token_store s)\<rparr>);
                 discoveryPath t req host repo None
               }
               else State_Monad.return (Inr resp))
        }
      | Inl err \<Rightarrow> do {
          Printf ''oci auth: token fetch failed for %q/%q: %v'' (repo_attrs host repo @ [AErr ''%v'' err]);
          discoveryPath t req host repo (Some ch)
        })"
  proof (cases a)
    case (Inl e)
    show ?thesis unfolding Inl sum.case by (intro guarantee_then guarantee_Printf disc)
  next
    case (Inr tok)
    with a have q: "proper t req (with_token tok req)" using proper_with_token [OF assms] by simp
    show ?thesis unfolding Inr sum.case
      by (rule guarantee_bind [OF guarantee_send [OF q]])
        (auto split: sum.split intro!: guarantee_return guarantee_then guarantee_Printf forget disc, (intro framed)+)
  qed
qed (intro framed)

lemma guarantee_RoundTrip:
  assumes "hdr_Get (UpHeader req) ''Authorization'' = []" and "extractOCIRepository (UpURL req) = Some (host, repo)"
  shows "guarantee t req (\<lambda>_. True) (RoundTrip t req)"
  unfolding RoundTrip_def assms(2) option.case prod.case
proof (simp only: assms(1) simp_thms if_False, rule guarantee_bind [OF guarantee_known [where key = "challengeKey host repo"]])
  fix a assume a: "\<forall>ch. a = Some ch \<longrightarrow> served t (challengeKey host repo) ch"
  then show "guarantee t req (\<lambda>_. True) (case a of
        Some ch \<Rightarrow> proactivePath t req host repo ch
      | None \<Rightarrow> discoveryPath t req host repo None)"
    by (cases a) (simp_all add: guarantee_discoveryPath guarantee_proactivePath assms(2))
qed (intro framed)

lemma guarantee_passthrough: "guarantee t req (\<lambda>_. True) (send t req)"
  by (rule guarantee_weaken [OF guarantee_send]) (simp_all add: proper_def)

lemma guarantee_any: "guarantee t req (\<lambda>_. True) (RoundTrip t req)"
proof (cases "hdr_Get (UpHeader req) ''Authorization'' \<noteq> [] \<or> extractOCIRepository (UpURL req) = None")
  case True
  then have "RoundTrip t req = send t req" by (auto simp: RoundTrip_def)
  then show ?thesis by (simp add: guarantee_passthrough)
next
  case False
  then show ?thesis by (auto intro: guarantee_RoundTrip)
qed

section \<open>The life of a transport\<close>

text \<open>
  The states a transport can be in: a new one, after a request, after a round of the background loop, and
  after anything else has happened to the world outside.
\<close>

inductive lives :: "'w ociAuthTransport \<Rightarrow> 'w oci_state \<Rightarrow> bool" for t where
  start: "lives t (newOCIAuthTransport w)"
| request: "lives t s \<Longrightarrow> exec (RoundTrip t req) s r es s' \<Longrightarrow> lives t s'"
| sweep: "lives t s \<Longrightarrow> exec (sweep_round t) s u es s' \<Longrightarrow> lives t s'"
| elsewhere: "lives t s \<Longrightarrow> lives t (s\<lparr>net := w\<rparr>)"

lemma guarantee_sweep: "guarantee t req (\<lambda>_. True) (sweep_round t)"
  unfolding sweep_round_def
  by (intro guarantee_bind [OF guarantee_clock] guarantee_then guarantee_write provenance_writes framed)

lemma lives_provenance: "lives t s \<Longrightarrow> provenance t s"
proof (induction rule: lives.induct)
  case (request s req r es s')
  then show ?case using guaranteeD [OF guarantee_any] by blast
next
  case (sweep s u es s')
  then show ?case using guaranteeD [OF guarantee_sweep] by blast
qed (simp_all add: provenance_new)

lemma demo_lives: "lives demo_transport learned_state"
  using demo_first_pull lives.request [OF lives.start] by metis

text \<open>
  Where a token may go. Whatever requests and sweeps a transport has been through, a request it sends is the
  client's own as it came, or a token request, or the client's own request with a token - and then the
  token was issued by the token endpoint of a challenge which the registry served for a request to the
  same host and the same repository as the client's. No token reaches another registry or another repository.
\<close>

theorem token_provenance:
  assumes "lives t s" and "exec (RoundTrip t req) s r es s'" and "q \<in> set (dos es)" and "q \<noteq> req"
    and "\<forall>ch. token_request (oci_ip6 t) ch \<noteq> Inr q"
  shows "\<exists>tok ch host repo breq w resp w'. q = with_token tok req \<and>
    extractOCIRepository (UpURL req) = Some (host, repo) \<and> issued t ch tok \<and>
    base t breq w = (Inr resp, w') \<and> parseOCIAuthChallenge resp = Some ch \<and>
    (\<exists>host' repo'. extractOCIRepository (UpURL breq) = Some (host', repo') \<and>
       challengeKey host' repo' = challengeKey host repo \<and>
       (CHR ''/'' \<notin> set (host @ host') \<longrightarrow> host' = host \<and> repo' = repo))"
proof -
  from guaranteeD [OF guarantee_any assms(2) lives_provenance [OF assms(1)]] assms(3) have "proper t req q" by blast
  with assms(4,5) obtain tok ch host repo where q: "q = with_token tok req" "issued t ch tok"
    and repo: "extractOCIRepository (UpURL req) = Some (host, repo)" and "served t (challengeKey host repo) ch"
    unfolding proper_def by blast
  from this(4) obtain breq host' repo' w resp w' where "extractOCIRepository (UpURL breq) = Some (host', repo')"
    "challengeKey host' repo' = challengeKey host repo"
    and answer: "base t breq w = (Inr resp, w')" "parseOCIAuthChallenge resp = Some ch"
    unfolding served_def by metis
  with challengeKey_inject [of host' host repo' repo] have served: "\<exists>host' repo'. extractOCIRepository (UpURL breq) = Some (host', repo') \<and>
       challengeKey host' repo' = challengeKey host repo \<and>
       (CHR ''/'' \<notin> set (host @ host') \<longrightarrow> host' = host \<and> repo' = repo)"
    by (intro exI [where x = host'] exI [where x = repo']) auto
  show ?thesis using q repo answer served by blast
qed

lemma demo_second_sends:
  "with_token ''abc'' (demo_pull ''GET'') \<noteq> demo_pull ''GET''"
  "\<forall>c. token_request ip c \<noteq> Inr (with_token ''abc'' (demo_pull ''GET''))"
  using with_token_header [of "''abc''" "demo_pull ''GET''"] by (auto simp: demo_pull_def dest: token_request_shape)

theorem token_provenance_witness:
  "\<exists>tok ch breq resp. with_token ''abc'' (demo_pull ''GET'') = with_token tok (demo_pull ''GET'') \<and>
     issued demo_transport ch tok \<and> base demo_transport breq () = (Inr resp, ()) \<and> parseOCIAuthChallenge resp = Some ch"
proof -
  obtain es where e: "exec (RoundTrip demo_transport (demo_pull ''GET'')) learned_state
      (Inr \<lparr>StatusCode = 200, RespHeader = [], RespBody = (''layer'', None)\<rparr>) es learned_state"
    and "dos es = [with_token ''abc'' (demo_pull ''GET'')]" using demo_second_pull by blast
  then have "with_token ''abc'' (demo_pull ''GET'') \<in> set (dos es)" by simp
  from token_provenance [OF demo_lives e this demo_second_sends] show ?thesis by auto
qed

end
