(* ===== verification/ClientProperties.thy ===== *)
theory ClientProperties
  imports HttpClient OciProvenance FetchProperties
begin

text \<open>
  The upstream client end to end: the handler's request through the redirects of \<open>http.Client\<close>
  and the token transport down to the network. Which requests reach the network, with which
  authorization, how a call can fail, and when it does not end.
\<close>

section \<open>Invariants of the loop\<close>

lemma framed_run_state:
  "framed p \<Longrightarrow> run_state p s = (r, s') \<Longrightarrow> \<exists>es. exec p (world s) r es (world s') \<and> trace s' = trace s @ es"
proof -
  assume "framed p" and r: "run_state p s = (r, s')"
  from r have "run_state p \<lparr>world = world s, trace = trace s\<rparr> = (r, s')" by (cases s) simp
  with framed_run [OF \<open>framed p\<close>] obtain es w where "exec p (world s) r es w" "s' = \<lparr>world = w, trace = trace s @ es\<rparr>"
    by blast
  then show ?thesis by auto
qed

lemma client_hopD:
  assumes "\<And>req. framed (rt req)" and "run_state (client_hop env rt l) s = (h, s')"
  shows "\<exists>a es. exec (rt (to_send (thisReq l))) (world s) a es (world s') \<and>
    trace s' = trace s @ es @ map EvLog (fst (after_response env l a)) \<and> h = snd (after_response env l a)"
proof -
  obtain es where "exec (client_hop env rt l) (world s) h es (world s')" "trace s' = trace s @ es"
    using framed_run_state [OF framed_client_hop [of rt env l, OF assms(1)] assms(2)] by blast
  then show ?thesis by (auto simp: client_hop_def exec_bind framed assms(1))
qed

lemma dos_logs [simp]: "dos (map EvLog ls) = []"
  by (induction ls) simp_all

text \<open>
  What holds of a call: an invariant of the loop's variables and one of the world are kept, every request
  of every hop is good, and the result comes out of the last hop.
\<close>

lemma client_run_invariant:
  assumes "\<And>req. framed (rt req)"
    and hop: "\<And>l a es w w'. I l \<Longrightarrow> W w \<Longrightarrow> exec (rt (to_send (thisReq l))) w a es w' \<Longrightarrow>
      W w' \<and> (\<forall>q \<in> set (dos es). G q)"
    and follow: "\<And>l l' a. I l \<Longrightarrow> snd (after_response env l a) = Follow l' \<Longrightarrow> I l'"
    and "client_run env rt l s = Some (r, s')" and "I l" and "W (world s)"
  shows "W (world s') \<and> (\<exists>es. trace s' = trace s @ es \<and> (\<forall>q \<in> set (dos es). G q)) \<and>
    (\<exists>l a. I l \<and> snd (after_response env l a) = Return r)"
proof -
  obtain n where "hops env rt n l s = (Return r, s')" using assms(4) client_run_hops by blast
  then show ?thesis using assms(5,6)
  proof (induction n arbitrary: l s)
    case (Suc n)
    obtain h s1 where h: "run_state (client_hop env rt l) s = (h, s1)" by fastforce
    from client_hopD [OF assms(1) h] obtain a es where
      a: "exec (rt (to_send (thisReq l))) (world s) a es (world s1)"
        "trace s1 = trace s @ es @ map EvLog (fst (after_response env l a))" "h = snd (after_response env l a)" by blast
    from hop [OF Suc.prems(2,3) a(1)] have good: "W (world s1)" "\<forall>q \<in> set (dos es). G q" by auto
    show ?case
    proof (cases h)
      case (Return r')
      with Suc.prems(1) h have "r' = r" "s1 = s'" by auto
      with Return a good Suc.prems(2) show ?thesis
        by (intro conjI exI [where x = l] exI [where x = a]
            exI [where x = "es @ map EvLog (fst (after_response env l a))"]) auto
    next
      case (Follow l')
      with Suc.prems(1) h have n: "hops env rt n l' s1 = (Return r, s')" by auto
      from follow [OF Suc.prems(2)] a(3) Follow have "I l'" by auto
      from Suc.IH [OF n this good(1)] obtain es' where "W (world s')"
        and es': "trace s' = trace s1 @ es'" "\<forall>q \<in> set (dos es'). G q"
        and last: "\<exists>l a. I l \<and> snd (after_response env l a) = Return r" by blast
      moreover have "trace s' = trace s @ (es @ map EvLog (fst (after_response env l a)) @ es')"
        using es'(1) a(2) by simp
      moreover have "\<forall>q \<in> set (dos (es @ map EvLog (fst (after_response env l a)) @ es')). G q"
        using good(2) es'(2) by auto
      ultimately show ?thesis by blast
    qed
  qed simp
qed

section \<open>What travels along redirects\<close>

lemma keys_hdr_Set: "keys_of (hdr_Set h k v) = insert (CanonicalHeaderKey k) (keys_of h)"
  by (simp add: hdr_Set_def dom_update)

lemma hdr_Get_absent: "CanonicalHeaderKey k \<notin> keys_of h \<Longrightarrow> hdr_Get h k = []"
  by (simp add: hdr_Get_def hdr_Values_def flip: map_of_None_keys)

definition mirror_names :: "string set" where
  "mirror_names = {''Accept'', ''If-None-Match'', ''If-Modified-Since''}"

lemma header_spellings:
  "CanonicalHeaderKey ''Accept'' = ''Accept''" "CanonicalHeaderKey ''If-None-Match'' = ''If-None-Match''"
  "CanonicalHeaderKey ''If-Modified-Since'' = ''If-Modified-Since''" "CanonicalHeaderKey ''Referer'' = ''Referer''"
  "CanonicalHeaderKey ''Authorization'' = ''Authorization''"
  "CanonicalHeaderKey ''Location'' = ''Location''"
  by code_simp+

lemma keys_within: "keys_of h \<subseteq> N \<Longrightarrow> CanonicalHeaderKey k \<in> N \<Longrightarrow> keys_of (hdr_Set h k v) \<subseteq> N"
  by (simp only: keys_hdr_Set insert_subset simp_thms)

lemma inject_names:
  "keys_of (UpHeader req) \<subseteq> mirror_names \<Longrightarrow> keys_of (UpHeader (injectCacheHeadersIntoRequest req h)) \<subseteq> mirror_names"
  unfolding injectCacheHeadersIntoRequest_def Let_def
  by (split if_split)+ (simp add: keys_within header_spellings mirror_names_def)

lemma build_names:
  assumes "buildUpstreamRequest ip u accept cached = Inr req"
  shows "keys_of (UpHeader req) \<subseteq> mirror_names"
proof -
  have accept: "keys_of (hdr_Set [] ''Accept'' accept) \<subseteq> mirror_names"
    by (rule keys_within) (simp_all add: header_spellings mirror_names_def)
  have cases: "keys_of (UpHeader (case cached of None \<Rightarrow> r | Some h \<Rightarrow> injectCacheHeadersIntoRequest r h)) \<subseteq> mirror_names"
    if "keys_of (UpHeader r) \<subseteq> mirror_names" for r
    using that inject_names by (simp split: option.split)
  define h0 where "h0 = (if accept \<noteq> [] then hdr_Set [] ''Accept'' accept else [])"
  from assms obtain v where "req = (case cached of None \<Rightarrow> \<lparr>UpMethod = ''GET'', UpURL = v, UpHeader = h0\<rparr>
       | Some h \<Rightarrow> injectCacheHeadersIntoRequest \<lparr>UpMethod = ''GET'', UpURL = v, UpHeader = h0\<rparr> h)"
    by (cases cached; cases "accept = []") (auto simp: buildUpstreamRequest_def h0_def Let_def split: sum.splits)
  moreover have "keys_of h0 \<subseteq> mirror_names" using accept by (cases "accept = []") (simp_all only: h0_def if_True if_False simp_thms, simp)
  ultimately show ?thesis using cases [of "\<lparr>UpMethod = ''GET'', UpURL = v, UpHeader = h0\<rparr>"] by simp
qed

definition travels :: "UpRequest \<Rightarrow> client_loop \<Rightarrow> bool" where
  "travels req l \<longleftrightarrow> firstReq l = req \<and> UpMethod (thisReq l) = ''GET'' \<and>
     keys_of (UpHeader (thisReq l)) \<subseteq> insert ''Referer'' (keys_of (UpHeader req))"

lemma keys_copyHeaders: "keys_of (copyHeaders h a b) \<subseteq> keys_of h"
  by (auto simp: copyHeaders_def)

lemma after_response_Follow:
  assumes "snd (after_response env l a) = Follow l'"
  obtains resp meth keep u where "a = Inr resp" "redirectBehavior (UpMethod (thisReq l)) (StatusCode resp) = Some (meth, keep)"
    "hdr_Get (RespHeader resp) ''Location'' \<noteq> []"
    "URL_Parse (client_ip6 env) (UpURL (thisReq l)) (hdr_Get (RespHeader resp) ''Location'') = Inr u"
    "l' = next_request env l meth keep u"
  using assms by (auto simp: after_response_def checkRedirect_def Let_def split: sum.splits option.splits if_splits)

lemma redirect_keeps_GET: "redirectBehavior ''GET'' status = Some (meth, keep) \<Longrightarrow> meth = ''GET''"
  by (auto simp: redirectBehavior_def split: if_splits)

lemma travels_follow:
  assumes "travels req l" and "snd (after_response env l a) = Follow l'"
  shows "travels req l'"
proof -
  from after_response_Follow [OF assms(2)] obtain k u where "l' = next_request env l ''GET'' k u"
    using assms(1) redirect_keeps_GET unfolding travels_def by metis
  with assms(1) keys_copyHeaders [of "UpHeader req"] show ?thesis
    by (auto simp: travels_def next_request_def Let_def keys_hdr_Set header_spellings)
qed

section \<open>What reaches the network\<close>

text \<open>
  A request that may reach the network: a GET with no header but the mirror's own, and authorized if at
  all by the credentials in its own URL or by a token for its own host and repository.
\<close>

definition basic_credentials :: "string \<Rightarrow> string option \<Rightarrow> string" where
  "basic_credentials name p = ''Basic '' @ base64 (name @ '':'' @ (case p of None \<Rightarrow> [] | Some pw \<Rightarrow> pw))"

definition authorized :: "'w ociAuthTransport \<Rightarrow> UpRequest \<Rightarrow> bool" where
  "authorized t q \<longleftrightarrow> (let auth = hdr_Get (UpHeader q) ''Authorization'' in
     auth = [] \<or>
     (\<exists>name p. User (UpURL q) = Some (name, p) \<and> auth = basic_credentials name p) \<or>
     (\<exists>tok ch host repo. auth = ''Bearer '' @ tok \<and> extractOCIRepository (UpURL q) = Some (host, repo) \<and>
        served t (challengeKey host repo) ch \<and> issued t ch tok))"

definition network_request :: "'w ociAuthTransport \<Rightarrow> UpRequest \<Rightarrow> bool" where
  "network_request t q \<longleftrightarrow> UpMethod q = ''GET'' \<and>
     keys_of (UpHeader q) \<subseteq> mirror_names \<union> {''Referer'', ''Authorization''} \<and> authorized t q"

lemma to_send_request:
  assumes "travels req l" and "keys_of (UpHeader req) \<subseteq> mirror_names"
  shows "network_request t (to_send (thisReq l))"
proof -
  let ?q = "thisReq l"
  have m: "UpMethod ?q = ''GET''" and "keys_of (UpHeader ?q) \<subseteq> insert ''Referer'' (keys_of (UpHeader req))"
    using assms(1) by (simp_all add: travels_def)
  from subset_trans [OF this(2) insert_mono [OF assms(2)]]
  have keys: "keys_of (UpHeader ?q) \<subseteq> mirror_names \<union> {''Referer''}" by (simp only: Un_insert_right Un_empty_right)
  then have none: "hdr_Get (UpHeader ?q) ''Authorization'' = []"
    by (intro hdr_Get_absent) (auto simp: header_spellings mirror_names_def)
  show ?thesis
  proof (cases "User (UpURL ?q)")
    case None
    with keys m none show ?thesis by (auto simp: to_send_def network_request_def authorized_def Let_def)
  next
    case (Some ui)
    obtain name p where ui: "ui = (name, p)" by fastforce
    have q: "to_send ?q = ?q\<lparr>UpHeader := hdr_Set (UpHeader ?q) ''Authorization'' (basic_credentials name p)\<rparr>"
      using Some none by (simp add: to_send_def ui basic_credentials_def)
    have "keys_of (hdr_Set (UpHeader ?q) ''Authorization'' v) \<subseteq> mirror_names \<union> {''Referer'', ''Authorization''}" for v
      using keys by (intro keys_within) (auto simp: header_spellings)
    moreover have "authorized t (to_send ?q)"
      unfolding authorized_def q using Some by (simp add: ui hdr_Get_def hdr_Values_Set Let_def)
    ultimately show ?thesis using m by (simp add: network_request_def q)
  qed
qed

lemma hop_requests:
  assumes "network_request t req'" and "exec (RoundTrip t req') w a es w'" and "provenance t w"
  shows "provenance t w' \<and> (\<forall>q \<in> set (dos es). network_request t q)"
proof (intro conjI ballI)
  note g = guaranteeD [OF guarantee_any assms(2,3)]
  from g show "provenance t w'" by blast
  fix q assume "q \<in> set (dos es)"
  with g consider "q = req'" | ch where "token_request (oci_ip6 t) ch = Inr q"
    | tok ch host repo where "q = with_token tok req'" "extractOCIRepository (UpURL req') = Some (host, repo)"
        "served t (challengeKey host repo) ch" "issued t ch tok"
    unfolding proper_def by blast
  then show "network_request t q"
  proof cases
    case 1
    with assms(1) show ?thesis by simp
  next
    case 2
    then show ?thesis using token_request_shape [OF 2] by (simp add: network_request_def authorized_def Let_def)
  next
    case 3
    have "UpHeader q = hdr_Set (UpHeader req') ''Authorization'' (''Bearer '' @ tok)" by (simp add: 3(1) with_token_def)
    then have "keys_of (UpHeader q) \<subseteq> mirror_names \<union> {''Referer'', ''Authorization''}"
      using assms(1) keys_within [of "UpHeader req'" "mirror_names \<union> {''Referer'', ''Authorization''}" "''Authorization''"]
      by (simp add: network_request_def header_spellings)
    moreover have "hdr_Get (UpHeader q) ''Authorization'' = ''Bearer '' @ tok" and "UpURL q = UpURL req'"
      and "UpMethod q = UpMethod req'"
      by (simp_all add: 3(1) with_token_def hdr_Get_def hdr_Values_Set)
    ultimately show ?thesis using assms(1) 3(2-4) unfolding network_request_def authorized_def Let_def by metis
  qed
qed

lemma served_named:
  "served t (challengeKey host repo) ch \<longleftrightarrow>
   (\<exists>breq host' repo' w resp w'. extractOCIRepository (UpURL breq) = Some (host', repo') \<and>
      host' @ ''/'' @ repo' = host @ ''/'' @ repo \<and>
      base t breq w = (Inr resp, w') \<and> parseOCIAuthChallenge resp = Some ch)"
  unfolding served_def challengeKey_def by (metis (no_types, lifting))

lemma authorized_named:
  "authorized t q \<longleftrightarrow> (let auth = hdr_Get (UpHeader q) ''Authorization'' in
     auth = [] \<or>
     (\<exists>name p. User (UpURL q) = Some (name, p) \<and> auth = basic_credentials name p) \<or>
     (\<exists>tok ch host repo. auth = ''Bearer '' @ tok \<and> extractOCIRepository (UpURL q) = Some (host, repo) \<and>
        issued t ch tok \<and>
        (\<exists>breq host' repo' w resp w'. extractOCIRepository (UpURL breq) = Some (host', repo') \<and>
           host' @ ''/'' @ repo' = host @ ''/'' @ repo \<and>
           base t breq w = (Inr resp, w') \<and> parseOCIAuthChallenge resp = Some ch)))"
  unfolding authorized_def served_named Let_def by (simp only: conj_commute conj_left_commute)

text \<open>
  C19. What reaches the network on behalf of a client, over the whole life of the mirror and through any
  chain of redirects: GETs that carry no header but the accepted types, the validators, the referrer and an
  authorization; and an authorization is either the credentials written in the very URL that is requested, or a
  token issued by the token endpoint of a challenge that was served for the very host and repository that is
  requested (the two joined by a slash, which no host has). A token never follows a redirect to a storage host, and never leaks to another repository.
\<close>

theorem authorization_confined:
  assumes "buildUpstreamRequest ip u accept cached = Inr req" and "lives t (world s)"
    and "Client_Do env (RoundTrip t) req s = Some (r, s')" and "trace s' = trace s @ es" and "q \<in> set (dos es)"
  shows "UpMethod q = ''GET'' \<and>
    keys_of (UpHeader q) \<subseteq> {''Accept'', ''If-None-Match'', ''If-Modified-Since'', ''Referer'', ''Authorization''} \<and>
    (let auth = hdr_Get (UpHeader q) ''Authorization'' in
       auth = [] \<or>
       (\<exists>name p. User (UpURL q) = Some (name, p) \<and> auth = basic_credentials name p) \<or>
       (\<exists>tok ch host repo. auth = ''Bearer '' @ tok \<and> extractOCIRepository (UpURL q) = Some (host, repo) \<and>
          issued t ch tok \<and>
          (\<exists>breq host' repo' w resp w'. extractOCIRepository (UpURL breq) = Some (host', repo') \<and>
             host' @ ''/'' @ repo' = host @ ''/'' @ repo \<and>
             base t breq w = (Inr resp, w') \<and> parseOCIAuthChallenge resp = Some ch)))"
proof -
  have start: "travels req (first_hop req)"
    using build_target [OF assms(1)] by (auto simp: travels_def first_hop_def)
  have hop: "provenance t w' \<and> (\<forall>q \<in> set (dos es). network_request t q)"
    if "travels req l" "provenance t w" "exec (RoundTrip t (to_send (thisReq l))) w a es w'" for l a es w w'
    using hop_requests [OF to_send_request [OF that(1) build_names [OF assms(1)]] that(3,2)] .
  have "provenance t (world s') \<and> (\<exists>es. trace s' = trace s @ es \<and> (\<forall>q \<in> set (dos es). network_request t q)) \<and>
      (\<exists>l a. travels req l \<and> snd (after_response env l a) = Return r)"
  proof (rule client_run_invariant [where I = "travels req" and W = "provenance t" and G = "network_request t" and rt = "RoundTrip t"])
    show "client_run env (RoundTrip t) (first_hop req) s = Some (r, s')" using assms(3) by (simp only: Client_Do_def)
  qed (fact framed_RoundTrip start lives_provenance [OF assms(2)] | erule (2) hop | erule (1) travels_follow)+
  with assms(4,5) have "network_request t q" by auto
  then show ?thesis
    unfolding network_request_def authorized_named mirror_names_def by (simp add: insert_commute)
qed

lemma single_hop:
  assumes "exec (rt (to_send (thisReq l))) w a es w'" and "\<And>req. framed (rt req)" and "after_response env l a = ([], Return r)"
  shows "client_run env rt l \<lparr>world = w, trace = []\<rparr> = Some (r, \<lparr>world = w', trace = es\<rparr>)"
proof -
  have "exec (client_hop env rt l) w (Return r) es w'"
    using assms by (simp add: client_hop_def exec_bind framed) (intro exI [where x = a] exI [where x = es], simp)
  then have "run_state (client_hop env rt l) \<lparr>world = w, trace = []\<rparr> = (Return r, \<lparr>world = w', trace = es\<rparr>)"
    by (simp add: exec_def)
  then show ?thesis by (subst client_run.simps) simp
qed

definition demo_env :: client_env where
  "demo_env = \<lparr>client_ip6 = (\<lambda>_. False), client_idna = Some, client_logger = []\<rparr>"

lemma demo_pull_built:
  "buildUpstreamRequest (\<lambda>_. False) \<lparr>Scheme = ''https'', Host = ''registry'', Path = ''/v2/library/alpine/manifests/latest'',
     RawQuery = []\<rparr> [] None = Inr (demo_pull ''GET'')"
proof -
  have "NewRequest_url (\<lambda>_. False) (URL_String \<lparr>Scheme = ''https'', Host = ''registry'',
      Path = ''/v2/library/alpine/manifests/latest'', RawQuery = []\<rparr>) = Inr (UpURL (demo_pull ''GET''))"
    by code_simp
  then show ?thesis by (simp add: buildUpstreamRequest_def demo_pull_def)
qed

theorem authorization_confined_witness:
  "\<exists>r s' es. Client_Do demo_env (RoundTrip demo_transport) (demo_pull ''GET'') \<lparr>world = learned_state, trace = []\<rparr> = Some (r, s') \<and>
     trace s' = es \<and> with_token ''abc'' (demo_pull ''GET'') \<in> set (dos es) \<and>
     (\<exists>breq resp ch. base demo_transport breq () = (Inr resp, ()) \<and> parseOCIAuthChallenge resp = Some ch \<and>
        issued demo_transport ch ''abc'')"
proof -
  let ?q = "with_token ''abc'' (demo_pull ''GET'')" and ?s = "\<lparr>world = learned_state, trace = []\<rparr>"
    and ?ok = "\<lparr>StatusCode = 200, RespHeader = [], RespBody = (''layer'', None)\<rparr>"
  obtain es where e: "exec (RoundTrip demo_transport (demo_pull ''GET'')) learned_state (Inr ?ok) es learned_state"
    and d: "?q \<in> set (dos es)" using demo_second_pull by (metis list.set_intros(1))
  have sent: "to_send (thisReq (first_hop (demo_pull ''GET''))) = demo_pull ''GET''"
    by (simp add: to_send_def first_hop_def demo_pull_def blank_url_def)
  have "after_response demo_env (first_hop (demo_pull ''GET'')) (Inr ?ok) = ([], Return (Inr ?ok))"
    by (simp add: after_response_def redirectBehavior_def)
  from single_hop [of "RoundTrip demo_transport" "first_hop (demo_pull ''GET'')", unfolded sent, OF e framed_RoundTrip this]
  have run: "Client_Do demo_env (RoundTrip demo_transport) (demo_pull ''GET'') ?s = Some (Inr ?ok, \<lparr>world = learned_state, trace = es\<rparr>)"
    by (simp add: Client_Do_def)
  have auth: "hdr_Get (UpHeader ?q) ''Authorization'' = ''Bearer abc''"
    by (simp add: with_token_def hdr_Get_def hdr_Values_Set)
  have user: "User (UpURL ?q) = None" and url: "UpURL ?q = UpURL (demo_pull ''GET'')"
    by (simp_all add: with_token_def demo_pull_def blank_url_def)
  have "lives demo_transport (world ?s)" using demo_lives by simp
  from authorization_confined [OF demo_pull_built this run _ d] obtain breq resp ch where
    "base demo_transport breq () = (Inr resp, ())" "parseOCIAuthChallenge resp = Some ch" "issued demo_transport ch ''abc''"
    using user by (auto simp: Let_def auth url)
  with run d show ?thesis by auto
qed

section \<open>How a call ends\<close>

text \<open>A redirect the client goes along with.\<close>

definition redirects :: "client_env \<Rightarrow> client_loop \<Rightarrow> go_error + Response \<Rightarrow> bool" where
  "redirects env l a \<longleftrightarrow> (\<exists>resp u. a = Inr resp \<and> StatusCode resp \<in> {301, 302, 303, 307, 308} \<and>
     hdr_Get (RespHeader resp) ''Location'' \<noteq> [] \<and>
     URL_Parse (client_ip6 env) (UpURL (thisReq l)) (hdr_Get (RespHeader resp) ''Location'') = Inr u)"

lemma redirectBehavior_None: "redirectBehavior meth status = None \<longleftrightarrow> status \<notin> {301, 302, 303, 307, 308}"
  by (simp add: redirectBehavior_def)

lemma follows_redirects: "(\<exists>l'. snd (after_response env l a) = Follow l') \<longleftrightarrow> redirects env l a"
proof
  assume "redirects env l a"
  then obtain resp u where a: "a = Inr resp" and l: "hdr_Get (RespHeader resp) ''Location'' \<noteq> []"
    and u: "URL_Parse (client_ip6 env) (UpURL (thisReq l)) (hdr_Get (RespHeader resp) ''Location'') = Inr u"
    and "redirectBehavior (UpMethod (thisReq l)) (StatusCode resp) \<noteq> None"
    unfolding redirects_def redirectBehavior_None by blast
  then obtain meth keep where "redirectBehavior (UpMethod (thisReq l)) (StatusCode resp) = Some (meth, keep)" by auto
  with l u show "\<exists>l'. snd (after_response env l a) = Follow l'"
    unfolding a by (simp add: after_response_def checkRedirect_def)
next
  assume "\<exists>l'. snd (after_response env l a) = Follow l'"
  then show "redirects env l a"
    by (elim exE after_response_Follow) (auto simp: redirects_def redirectBehavior_def split: if_splits)
qed

lemma after_response_Return:
  assumes "snd (after_response env l a) = Return r"
  shows "case r of
      Inl err \<Rightarrow> \<exists>op u e. err = ErrURL op u e
    | Inr resp \<Rightarrow> StatusCode resp \<notin> {301, 302, 303, 307, 308} \<or> hdr_Get (RespHeader resp) ''Location'' = []"
  using assms redirectBehavior_None
  by (auto simp: after_response_def checkRedirect_def uerr_def Let_def split: sum.splits option.splits if_splits)


lemma hops_stop:
  "hops env rt n l s = (Return r, s') \<Longrightarrow>
   \<exists>k l1 s1. hops env rt k l s = (Follow l1, s1) \<and> run_state (client_hop env rt l1) s1 = (Return r, s')"
proof (induction n arbitrary: l s)
  case (Suc n)
  obtain h s1 where h: "run_state (client_hop env rt l) s = (h, s1)" by fastforce
  show ?case
  proof (cases h)
    case (Return r')
    with Suc.prems h show ?thesis by (intro exI [where x = 0]) auto
  next
    case (Follow l')
    with Suc.prems h have "hops env rt n l' s1 = (Return r, s')" by auto
    from Suc.IH [OF this] obtain k l1 s2 where "hops env rt k l' s1 = (Follow l1, s2)"
      "run_state (client_hop env rt l1) s2 = (Return r, s')" by blast
    with h Follow show ?thesis by (intro exI [where x = "Suc k"]) auto
  qed
qed simp


text \<open>
  C21. What a call returns. Any failure - of the network, of a redirect that cannot be followed, of the
  transport - is an error the stale-content policy takes for a connection error, so with
  \<open>OnConnectionError\<close>, the default, the mirror falls back on each of them. An answer is a final one: a
  redirect status comes back only without a place to go to.
\<close>

theorem client_failures_fall_back:
  assumes "Client_Do env (RoundTrip t) req s = Some (r, s')"
  shows "case r of
      Inl err \<Rightarrow> isConnectionError err \<and>
        (\<forall>p. ShouldFallback p (Some err) 0 \<longleftrightarrow> OnAnyError p \<or> OnConnectionError p)
    | Inr resp \<Rightarrow> StatusCode resp \<notin> {301, 302, 303, 307, 308} \<or> hdr_Get (RespHeader resp) ''Location'' = []"
proof -
  obtain n where "hops env (RoundTrip t) n (first_hop req) s = (Return r, s')"
    using assms unfolding Client_Do_def client_run_hops by blast
  from hops_stop [OF this] obtain l s1 where h: "run_state (client_hop env (RoundTrip t) l) s1 = (Return r, s')" by blast
  from client_hopD [OF framed_RoundTrip h] obtain a where "snd (after_response env l a) = Return r" by metis
  from after_response_Return [OF this] show ?thesis
    by (auto simp: isConnectionError_def ShouldFallback_error split: sum.splits)
qed

text \<open>A host that redirects every request to its root: no call to it returns.\<close>

definition looping_transport :: "unit ociAuthTransport" where
  "looping_transport = demo_transport\<lparr>base := (\<lambda>req w.
     (Inr \<lparr>StatusCode = 302, RespHeader = [(''Location'', [''/''])], RespBody = ([], None)\<rparr>, w))\<rparr>"

lemma root_parses: "\<exists>v. URL_Parse ip u ''/'' = Inr v"
proof -
  have "Cut CHR ''#'' ''/'' = (''/'', [], False)" by code_simp
  moreover have "parse_raw ip ''/'' = Inr (blank_url\<lparr>Path := ''/''\<rparr>)"
    by code_simp
  ultimately show ?thesis by (simp add: URL_Parse_def url_Parse_def)
qed

lemma looping_answer:
  assumes "exec (RoundTrip looping_transport req) w a es w'" and "oci_inv looping_transport w"
  shows "a = Inr \<lparr>StatusCode = 302, RespHeader = [(''Location'', [''/''])], RespBody = ([], None)\<rparr> \<and> oci_inv looping_transport w'"
proof -
  obtain q where "answer_to looping_transport q a" and "oci_inv looping_transport w'"
    using RoundTrip_parts [OF assms] RoundTrip_cases [OF assms] unfolding trip_parts_def by metis
  then show ?thesis
    by (auto simp: answer_to_def base_call_def looping_transport_def wrap_result_def)
qed

lemma looping_never_returns: "Client_Do env (RoundTrip looping_transport) req \<lparr>world = newOCIAuthTransport (), trace = []\<rparr> = None"
proof (rule ccontr)
  let ?t = looping_transport
  assume "\<not> ?thesis"
  then obtain r s' where d: "Client_Do env (RoundTrip ?t) req \<lparr>world = newOCIAuthTransport (), trace = []\<rparr> = Some (r, s')" by auto
  then obtain n where "hops env (RoundTrip ?t) n (first_hop req) \<lparr>world = newOCIAuthTransport (), trace = []\<rparr> = (Return r, s')"
    unfolding Client_Do_def client_run_hops by blast
  moreover have "hops env (RoundTrip ?t) n l s \<noteq> (Return r, s')" if "oci_inv ?t (world s)" for n l s
    using that
  proof (induction n arbitrary: l s)
    case (Suc n)
    obtain h s1 where h: "run_state (client_hop env (RoundTrip ?t) l) s = (h, s1)" by fastforce
    from client_hopD [OF framed_RoundTrip h] obtain a es where
      a: "exec (RoundTrip ?t (to_send (thisReq l))) (world s) a es (world s1)" "h = snd (after_response env l a)" by blast
    from looping_answer [OF a(1) Suc.prems] have "redirects env l a" and inv: "oci_inv ?t (world s1)"
      using root_parses [of "client_ip6 env" "UpURL (thisReq l)"]
      by (auto simp: redirects_def hdr_Get_def hdr_Values_def header_spellings)
    with follows_redirects a(2) obtain l' where "h = Follow l'" by metis
    with h Suc.IH [OF inv] show ?case by simp
  qed simp
  moreover have "oci_inv ?t (newOCIAuthTransport ())"
    by (simp add: oci_inv_def newOCIAuthTransport_def newTokenCache_def wf_tokens_def)
  ultimately show False by simp
qed

definition broken_network :: "unit ociAuthTransport" where
  "broken_network = demo_transport\<lparr>base := (\<lambda>req w. (Inl (ErrPlain ''EOF''), w))\<rparr>"

theorem client_failures_fall_back_witness:
  "\<exists>err s'. Client_Do demo_env (RoundTrip broken_network) (demo_request []) \<lparr>world = newOCIAuthTransport (), trace = []\<rparr> = Some (Inl err, s') \<and>
     ShouldFallback \<lparr>OnConnectionError = True, On5xx = False, OnAnyError = False\<rparr> (Some err) 0"
proof -
  let ?l = "first_hop (demo_request [])"
  have sent: "to_send (thisReq ?l) = demo_request []"
    by (simp add: to_send_def first_hop_def demo_request_def)
  have "extractOCIRepository (UpURL (demo_request [])) = None" by code_simp
  then have e: "exec (RoundTrip broken_network (demo_request [])) (newOCIAuthTransport ()) (Inl (ErrPlain ''EOF''))
      [EvDo (demo_request [])] (newOCIAuthTransport ())"
    by (simp add: RoundTrip_def base_call_def broken_network_def newOCIAuthTransport_def demo_transport_def)
  have "after_response demo_env ?l (Inl (ErrPlain ''EOF'')) = ([], Return (Inl (uerr ?l (ErrPlain ''EOF''))))"
    by (simp add: after_response_def)
  from single_hop [of "RoundTrip broken_network" ?l, unfolded sent, OF e framed_RoundTrip this]
  have run: "Client_Do demo_env (RoundTrip broken_network) (demo_request []) \<lparr>world = newOCIAuthTransport (), trace = []\<rparr> =
      Some (Inl (uerr ?l (ErrPlain ''EOF'')), \<lparr>world = newOCIAuthTransport (), trace = [EvDo (demo_request [])]\<rparr>)"
    by (simp add: Client_Do_def)
  from client_failures_fall_back [OF run] run show ?thesis by auto
qed

end
