(* ===== verification/Middleware.thy ===== *)
theory Middleware
  imports FetchProperties
begin

text \<open>
  What reaches the client, \<open>src/internal/reqlog/middleware.go\<close> around the handler of
  \<open>src/server.go\<close>: \<open>http.Error\<close> and \<open>http.Redirect\<close> on a response writer, the
  request identifier, and the two log lines that frame a request. A panic of the writer is
  \<open>None\<close>. The text \<open>fmt\<close> renders for an error is an argument.
\<close>

section \<open>Replies\<close>

text \<open>\<open>path.Clean\<close> and the directory of \<open>path.Split\<close>.\<close>

fun clean_elems :: "bool \<Rightarrow> string list \<Rightarrow> string list \<Rightarrow> string list" where
  "clean_elems isRooted out [] = rev out"
| "clean_elems isRooted out (e # es) =
     (if e = [] \<or> e = ''.'' then clean_elems isRooted out es
      else if e = ''..'' then
        (if out \<noteq> [] \<and> hd out \<noteq> ''..'' then clean_elems isRooted (tl out) es
         else if isRooted then clean_elems isRooted out es
         else clean_elems isRooted (e # out) es)
      else clean_elems isRooted (e # out) es)"

definition path_Clean :: "string \<Rightarrow> string" where
  "path_Clean p =
     (let r = HasPrefix p ''/''; out = Join ''/'' (clean_elems r [] (Split CHR ''/'' p))
      in if r then CHR ''/'' # out else if out = [] then ''.'' else out)"

definition path_dir :: "string \<Rightarrow> string" where
  "path_dir p = take (nat (LastIndex p ''/'' + 1)) p"

definition absolute_location :: "(string \<Rightarrow> bool) \<Rightarrow> string \<Rightarrow> string \<Rightarrow> string" where
  "absolute_location ip reqPath url =
     (case url_Parse ip url of
        Inl _ \<Rightarrow> url
      | Inr u \<Rightarrow>
          if Scheme u = [] \<and> Host u = [] then
            (let oldpath = (if reqPath = [] then ''/'' else reqPath);
                 url = (if url = [] \<or> hd url \<noteq> CHR ''/'' then path_dir oldpath @ url else url);
                 path = takeWhile (\<lambda>c. c \<noteq> CHR ''?'') url; query = dropWhile (\<lambda>c. c \<noteq> CHR ''?'') url;
                 cleaned = path_Clean path
             in cleaned @ (if HasSuffix path ''/'' \<and> \<not> HasSuffix cleaned ''/'' then ''/'' else []) @ query)
          else url)"

definition hexEscapeNonASCII :: "string \<Rightarrow> string" where
  "hexEscapeNonASCII s =
     concat (map (\<lambda>c. if is_ascii c then [c] else CHR ''%'' # hex_byte (of_char c)) s)"

definition htmlEscape :: "string \<Rightarrow> string" where
  "htmlEscape s =
     concat (map (\<lambda>c.
       if c = CHR ''&'' then ''&amp;'' else if c = CHR ''<'' then ''&lt;''
       else if c = CHR ''>'' then ''&gt;'' else if c = DQUOTE then ''&#34;''
       else if c = CHR 0x27 then ''&#39;'' else [c]) s)"

definition newline :: string where "newline = [CHR 0x0A]"

definition set_header :: "string \<Rightarrow> string \<Rightarrow> statusWriter \<Rightarrow> statusWriter" where
  "set_header k v = sw_Header (\<lambda>h. hdr_Set h k v)"

definition http_Error :: "string \<Rightarrow> int \<Rightarrow> statusWriter \<Rightarrow> statusWriter option" where
  "http_Error msg code w =
     (case sw_WriteHeader
         (set_header ''X-Content-Type-Options'' ''nosniff''
           (set_header ''Content-Type'' ''text/plain; charset=utf-8''
             (sw_Header (\<lambda>h. hdr_Del h ''Content-Length'') w))) code of
        None \<Rightarrow> None
      | Some w' \<Rightarrow> Some (sw_Write w' (msg @ newline)))"

definition redirect_body :: "string \<Rightarrow> int \<Rightarrow> string" where
  "redirect_body url code =
     ''<a href='' @ [DQUOTE] @ htmlEscape url @ [DQUOTE] @ ''>'' @ StatusText code @ ''</a>.'' @ newline @ newline"

definition http_Redirect ::
    "(string \<Rightarrow> bool) \<Rightarrow> Request \<Rightarrow> string \<Rightarrow> int \<Rightarrow> statusWriter \<Rightarrow> statusWriter option" where
  "http_Redirect ip r url0 code w =
     (let url = absolute_location ip (Path (ReqURL r)) url0;
          hadCT = (map_of (WHeader (ResponseWriter w)) ''Content-Type'' \<noteq> None);
          w1 = set_header ''Location'' (hexEscapeNonASCII url) w;
          w2 = (if \<not> hadCT \<and> (Method r = ''GET'' \<or> Method r = ''HEAD'')
                then set_header ''Content-Type'' ''text/html; charset=utf-8'' w1 else w1)
      in case sw_WriteHeader w2 code of
           None \<Rightarrow> None
         | Some w3 \<Rightarrow>
             Some (if \<not> hadCT \<and> Method r = ''GET'' then sw_Write w3 (redirect_body url code) else w3))"

fun message_text :: "(go_error \<Rightarrow> string) \<Rightarrow> message \<Rightarrow> string" where
  "message_text err_text (Text s) = s"
| "message_text err_text (ErrorText s err) = s @ err_text err"

fun send_reply ::
    "(string \<Rightarrow> bool) \<Rightarrow> (go_error \<Rightarrow> string) \<Rightarrow> Request \<Rightarrow> reply \<Rightarrow> statusWriter \<Rightarrow> statusWriter option" where
  "send_reply ip err_text r (ReplyHeader code) w = sw_WriteHeader w code"
| "send_reply ip err_text r (ReplyError m code) w = http_Error (message_text err_text m) code w"
| "send_reply ip err_text r (ReplyRedirect url code) w = http_Redirect ip r url code w"

section \<open>The middleware\<close>

text \<open>
  \<open>random\<close> is what the random source gives, \<open>slog\<close> the default logger, \<open>remote\<close> the
  peer's address. The result is the response as the server finishes it - 200 when nothing was written -
  or \<open>None\<close> when the writer panicked, which also skips the closing line.
\<close>

definition finished :: "response_writer \<Rightarrow> response_writer" where
  "finished w = (if WCode w = 0 then w\<lparr>WCode := 200\<rparr> else w)"

definition Middleware ::
    "'w cacheMiddleware \<Rightarrow> (go_error \<Rightarrow> string) \<Rightarrow> 8 word list \<Rightarrow> logger \<Rightarrow> request_context \<Rightarrow> string \<Rightarrow> Request \<Rightarrow>
     ('w sys, response_writer option) state" where
  "Middleware m err_text random slog ctx remote r =
     (let ident = NewRequestID random;
          logger = slog @ [AStr ''request_id'' ident];
          ctx = WithLogger ctx logger;
          w = new_writer\<lparr>WHeader := hdr_Set [] ''X-Request-ID'' ident\<rparr>
      in do {
        emit (log_at LevelInfo logger ''request started''
          [AStr ''method'' (Method r), AStr ''path'' (Path (ReqURL r)), AStr ''remote_addr'' remote,
           HeaderAttrs ''request_headers'' (ReqHeader r)]);
        start \<leftarrow> clock m;
        answer \<leftarrow> ServeHTTP m slog ctx r;
        (case send_reply (ip6 m) err_text r answer \<lparr>ResponseWriter = w, sw_status = 0\<rparr> of
           None \<Rightarrow> State_Monad.return None
         | Some sw \<Rightarrow> do {
             now \<leftarrow> clock m;
             emit (log_at LevelInfo logger ''request completed''
               [AStr ''method'' (Method r), AStr ''path'' (Path (ReqURL r)), AInt ''status'' (sw_status sw),
                ADur ''duration'' (Sub now start)]);
             State_Monad.return (Some (finished (sw_Unwrap sw)))
           })
      })"

section \<open>Every line carries the request\<close>

text \<open>
  \<open>tags lg p\<close>: every line \<open>p\<close> logs starts with the attributes \<open>lg\<close>. It is
  compositional, so each handler has it by the rules below.
\<close>

definition tagged :: "logger \<Rightarrow> event list \<Rightarrow> bool" where
  "tagged lg es \<longleftrightarrow> (\<forall>l. EvLog l \<in> set es \<longrightarrow> (\<exists>attrs. LogAttrs l = lg @ attrs))"

definition tags :: "logger \<Rightarrow> ('w sys, 'a) state \<Rightarrow> bool" where
  "tags lg p \<longleftrightarrow> framed p \<and> (\<forall>w r es w'. exec p w r es w' \<longrightarrow> tagged lg es)"

named_theorems tags \<open>programs whose log lines start with given attributes\<close>


lemma tags_bind [tags]: "tags lg p \<Longrightarrow> (\<And>a. tags lg (f a)) \<Longrightarrow> tags lg (State_Monad.bind p f)"
  unfolding tags_def by (auto simp: exec_bind framed_bind) (fastforce simp: tagged_def)

lemma tags_prims [tags]:
  "tags lg (State_Monad.return a)" "tags lg (clock m)"
  "tags lg (perform (EvHead k) g1)" "tags lg (perform (EvPresign k) g2)" "tags lg (perform (EvPut k h) g3)"
  "tags lg (perform (EvTouch k e h) g4)" "tags lg (perform (EvDo q) g5)"
  by (auto simp: tags_def tagged_def framed_prims)

lemma tags_emit [tags]: "tags lg (emit (log_at lvl lg msg attrs))"
  by (simp add: tags_def tagged_def framed_prims log_at_def)

lemma tags_emit_extra [tags]: "tags lg (emit (log_at lvl (lg @ extra) msg attrs))"
  by (simp add: tags_def tagged_def framed_prims log_at_def)

lemma tags_cases [tags]:
  "tags lg p \<Longrightarrow> tags lg q \<Longrightarrow> tags lg (if c then p else q)"
  "tags lg p \<Longrightarrow> (\<And>x. tags lg (f x)) \<Longrightarrow> tags lg (case v of None \<Rightarrow> p | Some x \<Rightarrow> f x)"
  "(\<And>x. tags lg (g x)) \<Longrightarrow> (\<And>x. tags lg (h x)) \<Longrightarrow> tags lg (case y of Inl x \<Rightarrow> g x | Inr x \<Rightarrow> h x)"
  "(\<And>x z. tags lg (k x z)) \<Longrightarrow> tags lg (case pr of (x, z) \<Rightarrow> k x z)"
  by (simp_all split: option.split sum.split prod.split)

lemma tags_extra: "tags (lg @ extra) p \<Longrightarrow> tags lg p"
  by (fastforce simp: tags_def tagged_def)

lemma tags_steps [tags]:
  "tags lg (headEntry m lg key)" "tags lg (presign m key)" "tags lg (evaluateFreshness m entry kh)"
  unfolding headEntry_def presign_def evaluateFreshness_def by (intro tags)+

lemma tags_maybeTouch [tags]: "tags lg (maybeTouch m lg key entry v kh)"
  unfolding maybeTouch_def Let_def by (intro tags)

lemma tags_handleNon200 [tags]: "tags lg (handleNon200 m lg key code c)"
  unfolding handleNon200_def by (intro tags)

lemma tags_handleResponse [tags]: "tags lg (handleResponse m lg key entry kh resp)"
  unfolding handleResponse_def Let_def
  by (rule tags_extra [where extra = "[HeaderAttrs ''upstream_response_headers'' (RespHeader resp)]"], intro tags)

lemma tags_fetchUpstream [tags]: "tags lg (fetchUpstream m lg key entry accept kh)"
  unfolding fetchUpstream_def Let_def append_assoc by (intro tags tags_extra [OF tags_handleResponse])

lemma tags_fetchAndCache [tags]: "tags lg (fetchAndCache m lg key accept kh)"
  unfolding fetchAndCache_def by (intro tags tags_extra [OF tags_fetchUpstream])

lemma tags_ServeHTTP [tags]: "tags lg (ServeHTTP m slog (WithLogger ctx lg) r)"
  unfolding ServeHTTP_def FromContext_simps by (cases "admit r") (simp_all only: admission.case, (intro tags)+)

section \<open>What a reply becomes\<close>

fun reply_code :: "reply \<Rightarrow> int" where
  "reply_code (ReplyHeader code) = code"
| "reply_code (ReplyError m code) = code"
| "reply_code (ReplyRedirect url code) = code"

definition reply_bytes :: "(string \<Rightarrow> bool) \<Rightarrow> (go_error \<Rightarrow> string) \<Rightarrow> Request \<Rightarrow> reply \<Rightarrow> string" where
  "reply_bytes ip err_text r rep =
     (case rep of
        ReplyHeader code \<Rightarrow> []
      | ReplyError m code \<Rightarrow> if body_allowed code then message_text err_text m @ newline else []
      | ReplyRedirect url code \<Rightarrow>
          if Method r = ''GET'' \<and> body_allowed code
          then redirect_body (absolute_location ip (Path (ReqURL r)) url) code else [])"

text \<open>A writer nothing has been sent on, with headers \<open>h\<close>.\<close>

definition fresh_writer :: "header \<Rightarrow> statusWriter" where
  "fresh_writer h = \<lparr>ResponseWriter = \<lparr>WHeader = h, WCode = 0, WBody = []\<rparr>, sw_status = 0\<rparr>"

lemma set_header_fresh [simp]: "set_header k v (fresh_writer h) = fresh_writer (hdr_Set h k v)"
  and del_header_fresh [simp]: "sw_Header (\<lambda>h. hdr_Del h k) (fresh_writer h) = fresh_writer (hdr_Del h k)"
  by (simp_all add: set_header_def sw_Header_def fresh_writer_def)

lemma WriteHeader_fresh:
  "sw_WriteHeader (fresh_writer h) code =
     (if code < 100 \<or> 999 < code then None
      else if code \<le> 199 \<and> code \<noteq> 101 then Some \<lparr>ResponseWriter = ResponseWriter (fresh_writer h), sw_status = code\<rparr>
      else Some \<lparr>ResponseWriter = \<lparr>WHeader = h, WCode = code, WBody = []\<rparr>, sw_status = code\<rparr>)"
  by (simp add: sw_WriteHeader_def rw_WriteHeader_def fresh_writer_def)

lemma other_header: "CanonicalHeaderKey k' \<noteq> CanonicalHeaderKey k \<Longrightarrow>
    hdr_Get (hdr_Set h k v) k' = hdr_Get h k' \<and> hdr_Get (hdr_Del h k) k' = hdr_Get h k'"
  by (simp add: hdr_Get_def hdr_Values_Set hdr_Values_Del)

lemma header_names:
  "CanonicalHeaderKey ''X-Request-ID'' = ''X-Request-Id''" "CanonicalHeaderKey ''Content-Length'' = ''Content-Length''"
  "CanonicalHeaderKey ''X-Content-Type-Options'' = ''X-Content-Type-Options''" "CanonicalHeaderKey ''Location'' = ''Location''"
  by code_simp+

lemma send_reply_ok:
  assumes "200 \<le> reply_code rep" and "reply_code rep \<le> 999" and "map_of h ''Content-Type'' = None"
  shows "\<exists>rw. send_reply ip err_text r rep (fresh_writer h) = Some \<lparr>ResponseWriter = rw, sw_status = reply_code rep\<rparr> \<and>
    WCode rw = reply_code rep \<and> WBody rw = reply_bytes ip err_text r rep \<and>
    hdr_Get (WHeader rw) ''X-Request-ID'' = hdr_Get h ''X-Request-ID'' \<and>
    (\<forall>url code. rep = ReplyRedirect url code \<longrightarrow>
      hdr_Get (WHeader rw) ''Location'' = hexEscapeNonASCII (absolute_location ip (Path (ReqURL r)) url))"
proof (cases rep)
  case (ReplyHeader code)
  with assms show ?thesis by (simp add: WriteHeader_fresh reply_bytes_def)
next
  case (ReplyError m code)
  with assms show ?thesis
    by (simp add: http_Error_def WriteHeader_fresh reply_bytes_def sw_Write_def rw_Write_def Let_def other_header header_names)
next
  case (ReplyRedirect url code)
  with assms show ?thesis
    by (simp add: http_Redirect_def WriteHeader_fresh reply_bytes_def sw_Write_def rw_Write_def Let_def other_header header_names
        hdr_Get_def hdr_Values_Set) (simp add: fresh_writer_def)
qed

lemma send_reply_panics:
  assumes "reply_code rep < 100 \<or> 999 < reply_code rep"
  shows "send_reply ip err_text r rep (fresh_writer h) = None"
  using assms by (cases rep) (auto simp: WriteHeader_fresh http_Error_def http_Redirect_def Let_def)

section \<open>Properties\<close>

lemma fresh_writer_eq: "\<lparr>ResponseWriter = new_writer\<lparr>WHeader := h\<rparr>, sw_status = 0\<rparr> = fresh_writer h"
  by (simp add: new_writer_def fresh_writer_def)

lemma request_id_header:
  "hdr_Get (hdr_Set [] ''X-Request-ID'' ident) ''X-Request-ID'' = ident"
  "map_of (hdr_Set [] ''X-Request-ID'' ident) ''Content-Type'' = None"
  by (simp_all add: hdr_Get_def hdr_Values_Set) (simp add: hdr_Set_def header_names)

abbreviation request_logger :: "logger \<Rightarrow> 8 word list \<Rightarrow> logger" where
  "request_logger slog random \<equiv> slog @ [AStr ''request_id'' (NewRequestID random)]"

lemma exec_frame:
  assumes "exec (do { emit l; t \<leftarrow> clock m; a \<leftarrow> q; k t a }) w res es w'"
    and "framed q" and "\<And>t a. framed (k t a)"
  obtains t w0 a es1 w1 es2 where "timeNow m w = (t, w0)" "exec q w0 a es1 w1" "exec (k t a) w1 res es2 w'"
    "es = EvLog l # EvNow t # es1 @ es2"
  using assms by (auto simp: exec_bind framed)

text \<open>The run of the middleware, cut where the reply is known.\<close>

lemma exec_Middleware:
  assumes "exec (Middleware m err_text random slog ctx remote r) w res es w'"
  shows "\<exists>t0 w0 answer es1 w1 es2. timeNow m w = (t0, w0) \<and>
    exec (ServeHTTP m slog (WithLogger ctx (request_logger slog random)) r) w0 answer es1 w1 \<and>
    es = EvLog (log_at LevelInfo (request_logger slog random) ''request started''
      [AStr ''method'' (Method r), AStr ''path'' (Path (ReqURL r)), AStr ''remote_addr'' remote,
       HeaderAttrs ''request_headers'' (ReqHeader r)]) # EvNow t0 # es1 @ es2 \<and>
    (case send_reply (ip6 m) err_text r answer (fresh_writer (hdr_Set [] ''X-Request-ID'' (NewRequestID random))) of
       None \<Rightarrow> res = None \<and> es2 = [] \<and> w' = w1
     | Some sw \<Rightarrow> \<exists>t1. timeNow m w1 = (t1, w') \<and> res = Some (finished (sw_Unwrap sw)) \<and>
         es2 = [EvNow t1, EvLog (log_at LevelInfo (request_logger slog random) ''request completed''
           [AStr ''method'' (Method r), AStr ''path'' (Path (ReqURL r)), AInt ''status'' (sw_status sw),
            ADur ''duration'' (Sub t1 t0)])])"
proof -
  let ?lg = "request_logger slog random"
  let ?sent = "\<lambda>answer. send_reply (ip6 m) err_text r answer (fresh_writer (hdr_Set [] ''X-Request-ID'' (NewRequestID random)))"
  let ?close = "\<lambda>start answer. case ?sent answer of None \<Rightarrow> State_Monad.return None
     | Some sw \<Rightarrow> do {
         now \<leftarrow> clock m;
         emit (log_at LevelInfo ?lg ''request completed''
           [AStr ''method'' (Method r), AStr ''path'' (Path (ReqURL r)), AInt ''status'' (sw_status sw),
            ADur ''duration'' (Sub now start)]);
         State_Monad.return (Some (finished (sw_Unwrap sw)))
       }"
  have fc: "framed (?close t a)" for t a by (intro framed)
  have fs: "framed (ServeHTTP m slog (WithLogger ctx ?lg) r)"
    by (rule tags_ServeHTTP [unfolded tags_def, THEN conjunct1])
  obtain t0 w0 answer es1 w1 es2
    where s: "timeNow m w = (t0, w0)" "exec (ServeHTTP m slog (WithLogger ctx ?lg) r) w0 answer es1 w1"
      "es = EvLog (log_at LevelInfo ?lg ''request started''
        [AStr ''method'' (Method r), AStr ''path'' (Path (ReqURL r)), AStr ''remote_addr'' remote,
         HeaderAttrs ''request_headers'' (ReqHeader r)]) # EvNow t0 # es1 @ es2"
      and close: "exec (?close t0 answer) w1 res es2 w'"
    by (rule exec_frame [OF assms [unfolded Middleware_def Let_def fresh_writer_eq] fs fc])
  show ?thesis
  proof (intro exI conjI)
    show "case ?sent answer of None \<Rightarrow> res = None \<and> es2 = [] \<and> w' = w1
     | Some sw \<Rightarrow> \<exists>t1. timeNow m w1 = (t1, w') \<and> res = Some (finished (sw_Unwrap sw)) \<and>
         es2 = [EvNow t1, EvLog (log_at LevelInfo ?lg ''request completed''
           [AStr ''method'' (Method r), AStr ''path'' (Path (ReqURL r)), AInt ''status'' (sw_status sw),
            ADur ''duration'' (Sub t1 t0)])]"
      using close by (cases "?sent answer") (auto simp: exec_bind framed)
  qed (use s in auto)
qed

text \<open>
  C30. What the handler decides is what the client gets, and what the log says. A reply with a code from
  200 to 999 is on the wire with that code, its body, the request's identifier in \<open>X-Request-ID\<close>
  and, for a redirect, the location; the closing line reports the same code. A code no response can have
  makes the writer panic: no response, no closing line.
\<close>

theorem reply_reaches_client:
  assumes "exec (Middleware m err_text random slog ctx remote r) w res es w'"
  shows "\<exists>w0 answer es1 w1.
    exec (ServeHTTP m slog (WithLogger ctx (request_logger slog random)) r) w0 answer es1 w1 \<and>
    (200 \<le> reply_code answer \<and> reply_code answer \<le> 999 \<longrightarrow>
      (\<exists>rw dur. res = Some rw \<and> WCode rw = reply_code answer \<and> WBody rw = reply_bytes (ip6 m) err_text r answer \<and>
        hdr_Get (WHeader rw) ''X-Request-ID'' = NewRequestID random \<and>
        (\<forall>url code. answer = ReplyRedirect url code \<longrightarrow>
          hdr_Get (WHeader rw) ''Location'' = hexEscapeNonASCII (absolute_location (ip6 m) (Path (ReqURL r)) url)) \<and>
        last es = EvLog (log_at LevelInfo (request_logger slog random) ''request completed''
          [AStr ''method'' (Method r), AStr ''path'' (Path (ReqURL r)), AInt ''status'' (WCode rw),
           ADur ''duration'' dur]))) \<and>
    (reply_code answer < 100 \<or> 999 < reply_code answer \<longrightarrow> res = None \<and> tl (tl es) = es1)"
proof -
  obtain t0 w0 answer es1 w1 es2 where run: "exec (ServeHTTP m slog (WithLogger ctx (request_logger slog random)) r) w0 answer es1 w1"
    and es: "tl (tl es) = es1 @ es2" "es \<noteq> []" "tl es \<noteq> []"
    and sent: "case send_reply (ip6 m) err_text r answer (fresh_writer (hdr_Set [] ''X-Request-ID'' (NewRequestID random))) of
       None \<Rightarrow> res = None \<and> es2 = [] \<and> w' = w1
     | Some sw \<Rightarrow> \<exists>t1. timeNow m w1 = (t1, w') \<and> res = Some (finished (sw_Unwrap sw)) \<and>
         es2 = [EvNow t1, EvLog (log_at LevelInfo (request_logger slog random) ''request completed''
           [AStr ''method'' (Method r), AStr ''path'' (Path (ReqURL r)), AInt ''status'' (sw_status sw),
            ADur ''duration'' (Sub t1 t0)])]"
    using exec_Middleware [OF assms] by auto
  have last: "es2 \<noteq> [] \<Longrightarrow> last es = last es2"
    using es by (metis append_is_Nil_conv last_append last_tl)
  show ?thesis
  proof (intro exI, rule conjI [OF run], intro conjI impI, goal_cases)
    case c: 1
    from send_reply_ok [OF c [THEN conjunct1] c [THEN conjunct2] request_id_header(2)]
    obtain rw where "send_reply (ip6 m) err_text r answer (fresh_writer (hdr_Set [] ''X-Request-ID'' (NewRequestID random))) =
        Some \<lparr>ResponseWriter = rw, sw_status = reply_code answer\<rparr>" and rw: "WCode rw = reply_code answer"
      "WBody rw = reply_bytes (ip6 m) err_text r answer"
      "hdr_Get (WHeader rw) ''X-Request-ID'' = hdr_Get (hdr_Set [] ''X-Request-ID'' (NewRequestID random)) ''X-Request-ID''"
      "\<forall>url code. answer = ReplyRedirect url code \<longrightarrow>
        hdr_Get (WHeader rw) ''Location'' = hexEscapeNonASCII (absolute_location (ip6 m) (Path (ReqURL r)) url)"
      by blast
    with sent c obtain t1 where "res = Some rw" and "es2 = [EvNow t1, EvLog (log_at LevelInfo (request_logger slog random) ''request completed''
           [AStr ''method'' (Method r), AStr ''path'' (Path (ReqURL r)), AInt ''status'' (reply_code answer),
            ADur ''duration'' (Sub t1 t0)])]"
      by (auto simp: finished_def sw_Unwrap_def)
    with rw last request_id_header(1)
    show ?case
      by (intro exI [where x = rw] exI [where x = "Sub t1 t0"]) simp
  next
    case 2
    from send_reply_panics [OF this] sent es show ?case by simp
  next
    case 3
    from send_reply_panics [OF this] sent es show ?case by simp
  qed
qed

theorem reply_reaches_client_witness:
  "\<exists>rw es w'. exec (Middleware (demo None (Inl (ErrNet ''down'')) None True) (\<lambda>_. []) (replicate 8 7) []
      \<lparr>ctx_logger = None, ctx_cancelled = False\<rparr> ''peer'' \<lparr>Method = ''POST'', ReqURL = KeyURL demo_key, ReqHeader = []\<rparr>) ()
      (Some rw) es w' \<and> WCode rw = 405 \<and> hdr_Get (WHeader rw) ''X-Request-ID'' = NewRequestID (replicate 8 7)"
proof -
  let ?m = "demo None (Inl (ErrNet ''down'')) None True"
  let ?r = "\<lparr>Method = ''POST'', ReqURL = KeyURL demo_key, ReqHeader = []\<rparr>"
  let ?p = "Middleware ?m (\<lambda>_. []) (replicate 8 7) [] \<lparr>ctx_logger = None, ctx_cancelled = False\<rparr> ''peer'' ?r"
  obtain res es w' where e: "exec ?p () res es w'" by (rule some_run)
  have "admit ?r = Rejected (ReplyError (Text ''Only GET requests are supported'') 405)"
    by (simp add: admit_def demo_key_def)
  then have "exec (ServeHTTP ?m slog c ?r) w a es1 w1 \<Longrightarrow> reply_code a = 405" for slog c w a es1 w1
    by (simp add: ServeHTTP_def)
  with reply_reaches_client [OF e] obtain rw where "res = Some rw" "WCode rw = 405"
    "hdr_Get (WHeader rw) ''X-Request-ID'' = NewRequestID (replicate 8 7)"
    by fastforce
  with e show ?thesis by blast
qed



end
