(* ===== verification/Flights.thy ===== *)
theory Flights
  imports OciTransport FetchProperties
begin

text \<open>
  Concurrent requests: \<open>src/internal/singleflight/singleflight.go\<close> and its two users, the
  handler (\<open>uploadGroup\<close> in \<open>src/server.go\<close>) and the token fetcher (\<open>flights\<close> in
  \<open>src/oci_auth.go\<close>). The wrapped \<open>x/sync\<close> group is third-party: a record of functions
  whose documented behaviour is the locale \<open>singleflight\<close>. Callers enter flights and flights land
  in any order; between two steps anything may happen to the world. The function of one flight runs as
  one step.
\<close>

section \<open>The typed wrapper\<close>

text \<open>
  What a Go function with results \<open>(T, error)\<close> returns, as a pair; \<open>any\<close> is what the
  untyped group carries. \<open>v, _ = untypedV.(T)\<close> gives the zero value when the dynamic type is not T.
\<close>

datatype 't any = NoValue | Boxed 't

definition go_pair :: "'t \<Rightarrow> go_error + 't \<Rightarrow> 't \<times> go_error option" where
  "go_pair zero r = (case r of Inl err \<Rightarrow> (zero, Some err) | Inr v \<Rightarrow> (v, None))"

definition untyped_fn :: "'t \<times> go_error option \<Rightarrow> 't any \<times> go_error option" where
  "untyped_fn r = (Boxed (fst r), snd r)"

definition type_assert :: "'t \<Rightarrow> 't any \<Rightarrow> 't" where
  "type_assert zero v = (case v of Boxed x \<Rightarrow> x | NoValue \<Rightarrow> zero)"

definition Do_returns :: "'t \<Rightarrow> 't any \<times> go_error option \<Rightarrow> bool \<Rightarrow> 't \<times> go_error option \<times> bool" where
  "Do_returns zero r shared = (type_assert zero (fst r), snd r, shared)"

text \<open>What the callers make of it: \<open>if err != nil\<close>, and the third result dropped.\<close>

definition caller_result :: "'t \<times> go_error option \<times> bool \<Rightarrow> go_error + 't" where
  "caller_result r = (case r of (v, err, _) \<Rightarrow> (case err of Some e \<Rightarrow> Inl e | None \<Rightarrow> Inr v))"

lemma Do_transparent [simp]: "caller_result (Do_returns zero (untyped_fn (go_pair zero r)) shared) = r"
  by (simp add: caller_result_def Do_returns_def untyped_fn_def go_pair_def type_assert_def split: sum.split)

section \<open>The group\<close>

text \<open>
  \<open>enter\<close>: a call of \<open>Do\<close> with a key, \<open>True\<close> when it runs its function itself;
  \<open>leave\<close>: the function for the key has returned, with the calls that get its results.
\<close>

record 'g flight_group =
  no_flights :: 'g
  enter :: "string \<Rightarrow> nat \<Rightarrow> 'g \<Rightarrow> bool \<times> 'g"
  leave :: "string \<Rightarrow> 'g \<Rightarrow> nat list \<times> 'g"
  aboard :: "'g \<Rightarrow> string \<Rightarrow> nat list"

type_synonym 'w flight_call = "string \<times> ('w sys, go_error + string) state"

datatype flight_event =
    Entered nat string
  | Landed string "nat list" "string \<times> go_error option \<times> bool" "event list"

record ('g, 'w) flights =
  group_state :: 'g
  closures :: "string \<Rightarrow> ('w sys, go_error + string) state option"
  present :: 'w
  history :: "flight_event list" \<comment> \<open>newest first\<close>

definition no_calls :: "'g flight_group \<Rightarrow> 'w \<Rightarrow> ('g, 'w) flights" where
  "no_calls G w = \<lparr>group_state = no_flights G, closures = (\<lambda>_. None), present = w, history = []\<rparr>"

fun entered :: "nat \<Rightarrow> flight_event list \<Rightarrow> bool" where
  "entered c [] = False"
| "entered c (Entered c' k # h) = (c' = c \<or> entered c h)"
| "entered c (Landed k cs r es # h) = entered c h"

inductive landing :: "'g flight_group \<Rightarrow> ('g, 'w) flights \<Rightarrow> ('g, 'w) flights \<Rightarrow> bool" for G where
  land: "closures s k = Some f \<Longrightarrow> exec f (present s) r es w' \<Longrightarrow> leave G k (group_state s) = (cs, g') \<Longrightarrow>
    landing G s \<lparr>group_state = g', closures = (closures s)(k := None), present = w',
      history = Landed k cs (Do_returns [] (untyped_fn (go_pair [] r)) (1 < length cs)) es # history s\<rparr>"

inductive flight_step ::
    "'g flight_group \<Rightarrow> (nat \<Rightarrow> 'w flight_call option) \<Rightarrow> ('g, 'w) flights \<Rightarrow> ('g, 'w) flights \<Rightarrow> bool" for G asks where
  call: "asks c = Some (k, f) \<Longrightarrow> \<not> entered c (history s) \<Longrightarrow> enter G k c (group_state s) = (leads, g') \<Longrightarrow>
    flight_step G asks s \<lparr>group_state = g', closures = (if leads then (closures s)(k \<mapsto> f) else closures s),
      present = present s, history = Entered c k # history s\<rparr>"
| lands: "landing G s s' \<Longrightarrow> flight_step G asks s s'"
| elsewhere: "flight_step G asks s (s\<lparr>present := w\<rparr>)"

inductive_simps landing_iff: "landing G s s'"

section \<open>What a history says\<close>

text \<open>The calls waiting for a key, oldest first: those that entered since its last landing.\<close>

fun waiting :: "flight_event list \<Rightarrow> string \<Rightarrow> nat list" where
  "waiting [] k = []"
| "waiting (Entered c k' # h) k = (if k' = k then waiting h k @ [c] else waiting h k)"
| "waiting (Landed k' cs r es # h) k = (if k' = k then [] else waiting h k)"

definition flying :: "flight_event list \<Rightarrow> string set" where
  "flying h = {k. waiting h k \<noteq> []}"

text \<open>A history is sound when each flight carried exactly the waiting calls and ran the function of the first.\<close>

fun sound_history :: "(nat \<Rightarrow> 'w flight_call option) \<Rightarrow> flight_event list \<Rightarrow> bool" where
  "sound_history asks [] = True"
| "sound_history asks (Entered c k # h) = (sound_history asks h \<and> \<not> entered c h \<and> (\<exists>f. asks c = Some (k, f)))"
| "sound_history asks (Landed k cs r es # h) =
     (sound_history asks h \<and> cs = waiting h k \<and> cs \<noteq> [] \<and>
      (\<exists>f w x w'. asks (hd cs) = Some (k, f) \<and> exec f w x es w' \<and> caller_result r = x))"

lemma finite_flying [simp]: "finite (flying h)"
proof (induction h)
  case (Cons e h)
  have "flying (e # h) \<subseteq> (case e of Entered c k \<Rightarrow> insert k (flying h) | Landed k cs r es \<Rightarrow> flying h)"
    by (cases e) (auto simp: flying_def split: if_splits)
  with Cons show ?case by (auto intro: finite_subset split: flight_event.splits)
qed (simp add: flying_def)

lemma flying_Landed: "flying (Landed k cs r es # h) = flying h - {k}"
  by (auto simp: flying_def)

lemma waiting_entered: "c \<in> set (waiting h k) \<Longrightarrow> Entered c k \<in> set h"
  by (induction h k rule: waiting.induct) (auto split: if_splits)


lemma sound_calls: "sound_history asks h \<Longrightarrow> Entered c k \<in> set h \<Longrightarrow> \<exists>f. asks c = Some (k, f)"
  by (induction asks h rule: sound_history.induct) auto

lemma sound_suffix: "sound_history asks (h1 @ h2) \<Longrightarrow> sound_history asks h2"
  by (induction asks h1 rule: sound_history.induct) auto

lemma sound_landing:
  assumes "sound_history asks (h1 @ Landed k cs r es # h2)"
  shows "cs = waiting h2 k \<and> cs \<noteq> [] \<and> (\<exists>f w x w'. asks (hd cs) = Some (k, f) \<and> exec f w x es w' \<and> caller_result r = x)"
  using sound_suffix [OF assms] by (simp only: sound_history.simps) blast




fun carried :: "flight_event \<Rightarrow> nat list" where
  "carried (Entered c k) = []"
| "carried (Landed k cs r es) = cs"

definition answered :: "flight_event list \<Rightarrow> nat list" where
  "answered h = concat (map carried h)"

lemma answered_simps [simp]:
  "answered [] = []" "answered (Entered c k # h) = answered h" "answered (Landed k cs r es # h) = cs @ answered h"
  by (simp_all add: answered_def)

lemma answered_landed: "c \<in> set (answered h) \<Longrightarrow> \<exists>k cs r es. Landed k cs r es \<in> set h \<and> c \<in> set cs"
proof -
  assume "c \<in> set (answered h)"
  then obtain e where e: "e \<in> set h" "c \<in> set (carried e)" by (auto simp: answered_def)
  show ?thesis
  proof (cases e)
    case (Landed k cs r es)
    with e show ?thesis by (intro exI [where x = k] exI [where x = cs] exI [where x = r] exI [where x = es]) simp
  qed (use e in simp)
qed




section \<open>Every group that keeps its promise\<close>

locale singleflight =
  fixes G :: "'g flight_group"
  assumes none: "aboard G (no_flights G) k = []"
    and leads: "fst (enter G k c g) \<longleftrightarrow> aboard G g k = []"
    and joins: "aboard G (snd (enter G k c g)) k' = (if k' = k then aboard G g k @ [c] else aboard G g k')"
    and carries: "fst (leave G k g) = aboard G g k"
    and leaves: "aboard G (snd (leave G k g)) k' = (if k' = k then [] else aboard G g k')"

definition flights_inv :: "'g flight_group \<Rightarrow> (nat \<Rightarrow> 'w flight_call option) \<Rightarrow> ('g, 'w) flights \<Rightarrow> bool" where
  "flights_inv G asks s \<longleftrightarrow>
     (\<forall>k. aboard G (group_state s) k = waiting (history s) k) \<and>
     (\<forall>k. closures s k = (case waiting (history s) k of [] \<Rightarrow> None | c # _ \<Rightarrow> map_option snd (asks c))) \<and>
     sound_history asks (history s)"

context singleflight
begin

lemma inv_start: "flights_inv G asks (no_calls G w)"
  by (simp add: flights_inv_def no_calls_def none)

lemma inv_landing:
  assumes "flights_inv G asks s" and "landing G s s'"
  shows "flights_inv G asks s'" and "\<exists>k \<in> flying (history s). flying (history s') = flying (history s) - {k}"
proof -
  obtain k f r es w' cs g' where l: "closures s k = Some f" "exec f (present s) r es w'"
    "leave G k (group_state s) = (cs, g')" and s': "s' = \<lparr>group_state = g', closures = (closures s)(k := None), present = w',
      history = Landed k cs (Do_returns [] (untyped_fn (go_pair [] r)) (1 < length cs)) es # history s\<rparr>"
    using assms(2) by (cases rule: landing.cases) blast
  have cs: "cs = waiting (history s) k"
    using carries [of k "group_state s"] l(3) assms(1) by (simp add: flights_inv_def)
  have g': "aboard G g' k' = (if k' = k then [] else waiting (history s) k')" for k'
    using leaves [of k "group_state s" k'] l(3) assms(1) by (simp add: flights_inv_def)
  have sound: "sound_history asks (history s)"
    and cl: "\<And>k. closures s k = (case waiting (history s) k of [] \<Rightarrow> None | c # _ \<Rightarrow> map_option snd (asks c))"
    using assms(1) by (auto simp: flights_inv_def)
  from l(1) cl [of k] obtain c rest where w: "waiting (history s) k = c # rest" and "map_option snd (asks c) = Some f"
    by (auto split: list.splits)
  moreover from w have "Entered c k \<in> set (history s)" by (intro waiting_entered) simp
  ultimately have "asks c = Some (k, f)" using sound_calls [OF sound] by fastforce
  with w cs sound l(2) have "sound_history asks (history s')" by (auto simp: s')
  with g' cl show "flights_inv G asks s'" by (auto simp: flights_inv_def s')
  from w show "\<exists>k \<in> flying (history s). flying (history s') = flying (history s) - {k}"
    by (intro bexI [where x = k]) (auto simp: s' flying_Landed, simp add: flying_def)
qed

lemma inv_step:
  assumes "flights_inv G asks s" and "flight_step G asks s s'"
  shows "flights_inv G asks s'"
  using assms(2)
proof (cases rule: flight_step.cases)
  case (call c k f leads g')
  have g': "aboard G g' k' = (if k' = k then waiting (history s) k @ [c] else waiting (history s) k')" for k'
    using joins [of k c "group_state s" k'] call(4) assms(1) by (simp add: flights_inv_def)
  have "leads \<longleftrightarrow> waiting (history s) k = []"
    using singleflight.leads [OF singleflight_axioms, of k c "group_state s"] call(4) assms(1) by (simp add: flights_inv_def)
  with call g' assms(1) show ?thesis by (auto simp: flights_inv_def split: list.split)
next
  case lands
  with assms(1) show ?thesis by (rule inv_landing)
next
  case (elsewhere w)
  with assms(1) show ?thesis by (simp add: flights_inv_def)
qed

lemma inv_reachable: "(flight_step G asks)\<^sup>*\<^sup>* (no_calls G w) s \<Longrightarrow> flights_inv G asks s"
  by (induction rule: rtranclp_induct) (auto intro: inv_start inv_step)

lemma reachable_sound: "(flight_step G asks)\<^sup>*\<^sup>* (no_calls G w) s \<Longrightarrow> sound_history asks (history s)"
  using inv_reachable [of asks w s] by (simp add: flights_inv_def)

lemma can_land:
  assumes "flights_inv G asks s" and "k \<in> flying (history s)"
  shows "\<exists>s'. landing G s s'"
proof -
  from assms obtain c rest where w: "waiting (history s) k = c # rest"
    by (cases "waiting (history s) k") (auto simp: flying_def)
  then have "Entered c k \<in> set (history s)" by (intro waiting_entered) simp
  then obtain f where "asks c = Some (k, f)"
    using assms(1) sound_calls by (fastforce simp: flights_inv_def)
  with w assms(1) have "closures s k = Some f" by (simp add: flights_inv_def)
  moreover obtain r es w' where "exec f (present s) r es w'" using exec_total [of f "present s"] by blast
  moreover obtain cs g' where "leave G k (group_state s) = (cs, g')" by fastforce
  ultimately show ?thesis by (blast intro: landing.land)
qed

lemma landings_count:
  assumes "flights_inv G asks s" and "(landing G ^^ n) s s'"
  shows "flights_inv G asks s' \<and> n + card (flying (history s')) = card (flying (history s))"
  using assms(2)
proof (induction n arbitrary: s')
  case (Suc n)
  then obtain t where t: "(landing G ^^ n) s t" "landing G t s'" by (auto elim: relpowp_Suc_E)
  note ih = Suc.IH [OF t(1)]
  from inv_landing(2) [OF ih [THEN conjunct1] t(2)] obtain k
    where k: "k \<in> flying (history t)" "flying (history s') = flying (history t) - {k}" by blast
  then have "card (flying (history t)) = Suc (card (flying (history s')))"
    by (metis card_Suc_Diff1 finite_flying)
  with ih inv_landing(1) [OF ih [THEN conjunct1] t(2)] show ?case by simp
qed (use assms(1) in simp)

lemma all_land:
  assumes "flights_inv G asks s"
  shows "\<exists>s'. (landing G ^^ card (flying (history s))) s s' \<and> flying (history s') = {}"
proof -
  have "\<exists>s'. (landing G ^^ n) s s'" if "n \<le> card (flying (history s))" for n
    using that
  proof (induction n)
    case (Suc n)
    then obtain t where t: "(landing G ^^ n) s t" by auto
    from landings_count [OF assms t] Suc.prems have "flying (history t) \<noteq> {}" by auto
    with landings_count [OF assms t] obtain s' where "landing G t s'" using can_land by blast
    with t show ?case by (auto intro: relpowp_Suc_I)
  qed auto
  then obtain s' where s': "(landing G ^^ card (flying (history s))) s s'" by blast
  with landings_count [OF assms s'] show ?thesis by auto
qed

end

section \<open>A group\<close>

text \<open>A group as \<open>x/sync\<close> documents it: per key the calls in flight.\<close>

definition list_group :: "(string, nat list) go_map flight_group" where
  "list_group = \<lparr>no_flights = [],
     enter = (\<lambda>k c g. case map_of g k of
        None \<Rightarrow> (True, AList.update k [c] g)
      | Some cs \<Rightarrow> (cs = [], AList.update k (cs @ [c]) g)),
     leave = (\<lambda>k g. (case map_of g k of None \<Rightarrow> [] | Some cs \<Rightarrow> cs, AList.delete k g)),
     aboard = (\<lambda>g k. case map_of g k of None \<Rightarrow> [] | Some cs \<Rightarrow> cs)\<rparr>"

interpretation list_group: singleflight list_group
  by unfold_locales (auto simp: list_group_def split: option.splits)

section \<open>The two users\<close>


definition token_call :: "'w ociAuthTransport \<Rightarrow> ociAuthChallenge \<Rightarrow> 'w oci_state flight_call option" where
  "token_call t ch = Some (token_flight_key ch, fetchAndStore t ch)"


lemma token_flight_key_inject:
  assumes "CHR 0x00 \<notin> set (Realm ch)" "CHR 0x00 \<notin> set (Service ch)"
    and "CHR 0x00 \<notin> set (Realm ch')" "CHR 0x00 \<notin> set (Service ch')"
  shows "token_flight_key ch = token_flight_key ch' \<longleftrightarrow> ch = ch'"
proof -
  have "token_flight_key ch = token_flight_key ch' \<longleftrightarrow> Realm ch = Realm ch' \<and>
      Service ch @ CHR 0x00 # Scope ch = Service ch' @ CHR 0x00 # Scope ch'"
    unfolding token_flight_key_def using assms append_at_sep by fastforce
  also have "\<dots> \<longleftrightarrow> Realm ch = Realm ch' \<and> Service ch = Service ch' \<and> Scope ch = Scope ch'"
    using assms append_at_sep by fastforce
  finally show ?thesis by (auto intro: ociAuthChallenge.equality)
qed

text \<open>A flight in any history, with the function it ran.\<close>

lemma flight_of:
  assumes "singleflight G" and "(flight_step G asks)\<^sup>*\<^sup>* (no_calls G w0) s"
    and "history s = later @ Landed k cs res es # earlier" and "c \<in> set cs"
  obtains f w w' f' where "Entered c k \<in> set earlier" "asks c = Some (k, f')" "asks (hd cs) = Some (k, f)"
    "exec f w (caller_result res) es w'"
proof -
  have sound: "sound_history asks (later @ Landed k cs res es # earlier)"
    using singleflight.reachable_sound [OF assms(1,2)] assms(3) by simp
  from sound_landing [OF sound] obtain f w w' where "asks (hd cs) = Some (k, f)" "exec f w (caller_result res) es w'"
    by blast
  moreover have e: "Entered c k \<in> set earlier"
    using sound_landing [OF sound] assms(4) by (intro waiting_entered) simp
  moreover obtain f' where "asks c = Some (k, f')"
    using sound_calls [OF sound] e by fastforce
  ultimately show ?thesis using that by blast
qed

text \<open>Two callers who meet.\<close>

lemma two_callers:
  assumes "asks 0 = Some (k, f)" and "asks 1 = Some (k, f')"
  obtains s res es where "(flight_step list_group asks)\<^sup>*\<^sup>* (no_calls list_group w) s"
    "history s = [] @ Landed k [0, 1] res es # [Entered 1 k, Entered 0 k]"
proof -
  obtain r es w' where e: "exec f w r es w'" by (rule some_run)
  let ?s1 = "\<lparr>group_state = [(k, [0])], closures = (\<lambda>_. None)(k \<mapsto> f), present = w, history = [Entered 0 k]\<rparr>"
  let ?s2 = "\<lparr>group_state = [(k, [0, 1])], closures = (\<lambda>_. None)(k \<mapsto> f), present = w, history = [Entered 1 k, Entered 0 k]\<rparr>"
  let ?s3 = "\<lparr>group_state = [], closures = ((\<lambda>_. None)(k \<mapsto> f))(k := None), present = w',
     history = Landed k [0, 1] (Do_returns [] (untyped_fn (go_pair [] r)) (1 < length [0::nat, 1])) es # [Entered 1 k, Entered 0 k]\<rparr>"
  have "flight_step list_group asks (no_calls list_group w) ?s1"
    using flight_step.call [where asks = asks and c = 0 and s = "no_calls list_group w" and G = list_group and
        leads = True and g' = "[(k, [0])]", OF assms(1)]
    by (simp add: no_calls_def list_group_def)
  moreover have "flight_step list_group asks ?s1 ?s2"
    using flight_step.call [where asks = asks and c = 1 and s = ?s1 and G = list_group and
        leads = False and g' = "[(k, [0, 1])]", OF assms(2)]
    by (simp add: list_group_def)
  moreover have "landing list_group ?s2 ?s3"
    using landing.land [of ?s2 k f r es w' list_group "[0, 1]" "[]"] e by (simp add: list_group_def)
  then have "flight_step list_group asks ?s2 ?s3" by (rule flight_step.lands)
  ultimately have "(flight_step list_group asks)\<^sup>*\<^sup>* (no_calls list_group w) ?s3" by simp
  then show ?thesis using that by fastforce
qed

definition demo_flyer :: "unit ociAuthTransport" where
  "demo_flyer = \<lparr>base = (\<lambda>req w. (Inl (ErrNet ''down''), w)), oci_now = (\<lambda>w. (0, w)), oci_ip6 = (\<lambda>_. False)\<rparr>"

section \<open>Properties\<close>







text \<open>
  Token fetches are shared only between callers with the same challenge: over fields without a NUL
  byte the flight key determines the challenge, and a caller answered by a flight gets the outcome of
  fetching and storing the token for its own challenge.
\<close>

theorem token_sharing_sound:
  assumes "singleflight G" and "(flight_step G (\<lambda>c. token_call t (chs c)))\<^sup>*\<^sup>* (no_calls G w0) s"
    and "history s = later @ Landed k cs res es # earlier" and "c \<in> set cs"
    and "\<forall>c. CHR 0x00 \<notin> set (Realm (chs c)) \<and> CHR 0x00 \<notin> set (Service (chs c))"
  shows "k = token_flight_key (chs c) \<and> (\<forall>c' \<in> set cs. chs c' = chs c) \<and>
    (\<exists>w w'. exec (fetchAndStore t (chs c)) w (caller_result res) es w')"
proof -
  obtain f w w' f' where c: "token_call t (chs c) = Some (k, f')" and h: "token_call t (chs (hd cs)) = Some (k, f)"
    and x: "exec f w (caller_result res) es w'"
    by (rule flight_of [OF assms(1-4)])
  have k: "token_flight_key (chs c') = k" if "c' \<in> set cs" for c'
    by (rule flight_of [OF assms(1-3) that]) (simp add: token_call_def)
  have same: "chs c' = chs c''" if "token_flight_key (chs c') = k" "token_flight_key (chs c'') = k" for c' c''
    using that assms(5) token_flight_key_inject [of "chs c'" "chs c''"] by simp
  have "token_flight_key (chs (hd cs)) = k" using h by (simp add: token_call_def)
  then have "chs (hd cs) = chs c" using k [OF assms(4)] by (rule same)
  with h have "f = fetchAndStore t (chs c)" by (simp add: token_call_def)
  with x k same assms(4) show ?thesis by metis
qed

theorem token_sharing_sound_witness:
  "\<exists>s res es w1 w2. (flight_step list_group (\<lambda>c. token_call demo_flyer demo_challenge))\<^sup>*\<^sup>* (no_calls list_group (newOCIAuthTransport ())) s \<and>
     history s = [Landed (token_flight_key demo_challenge) [0, 1] res es,
       Entered 1 (token_flight_key demo_challenge), Entered 0 (token_flight_key demo_challenge)] \<and>
     exec (fetchAndStore demo_flyer demo_challenge) w1 (caller_result res) es w2"
proof -
  let ?asks = "\<lambda>c :: nat. token_call demo_flyer demo_challenge"
  obtain s res es where s: "(flight_step list_group ?asks)\<^sup>*\<^sup>* (no_calls list_group (newOCIAuthTransport ())) s"
    "history s = [] @ Landed (token_flight_key demo_challenge) [0, 1] res es #
       [Entered 1 (token_flight_key demo_challenge), Entered 0 (token_flight_key demo_challenge)]"
    by (rule two_callers [where asks = ?asks]) (simp_all add: token_call_def)
  have "1 \<in> set [0::nat, 1]" by simp
  have "\<forall>c::nat. CHR 0x00 \<notin> set (Realm demo_challenge) \<and> CHR 0x00 \<notin> set (Service demo_challenge)"
    by (simp add: demo_challenge_def)
  from token_sharing_sound [where chs = "\<lambda>_. demo_challenge", OF list_group.singleflight_axioms s \<open>1 \<in> set [0::nat, 1]\<close> this] s
  show ?thesis by (simp only: append_Nil) blast
qed

end
