(* ===== verification/ConfigProperties.thy ===== *)
theory ConfigProperties
  imports Config
begin

text \<open>
  What startup guarantees: which flag values lead to a running server and with what configuration, which
  failure is reported, how the process ends, and that durations and levels are read as they are written.
\<close>

section \<open>Reading values\<close>

lemma ParseDuration_int64: "ParseDuration s = Inr d \<Longrightarrow> int64 d"
  by (auto simp: ParseDuration_def Let_def split: if_splits sum.splits)
    (simp_all add: int64_def two63_def MaxInt64_def MinInt64_def)

lemma parseDuration_iff:
  "parseDuration s name = Inr d \<longleftrightarrow> ParseDuration s = Inr d \<and> 0 \<le> d \<and> d \<le> MaxInt64"
  using ParseDuration_int64 [of s d] by (auto simp: parseDuration_def int64_def split: sum.splits if_splits)

lemma takeWhile_digits: "list_all P xs \<Longrightarrow> r = [] \<or> \<not> P (hd r) \<Longrightarrow> takeWhile P (xs @ r) = xs \<and> dropWhile P (xs @ r) = r"
  by (induction xs) (auto, (cases r; simp)+)

lemma duration_term_whole:
  assumes "unitMap u = Some ns" "0 < ns" "u \<noteq> []" "list_all unit_byte u" "n * ns \<le> two63"
    and "r = [] \<or> is_digit (hd r)"
  shows "duration_term (Itoa n @ u @ r) = Inr (n * ns, r)"
proof -
  have d: "list_all is_digit (Itoa n)" by (rule Itoa_digits)
  then have hd: "is_digit (hd (Itoa n @ u @ r))" by (cases "Itoa n") (auto simp: Itoa_nonempty)
  obtain c u' where u: "u = c # u'" using assms(3) by (cases u) auto
  with assms(4) have c: "\<not> is_digit c" "c \<noteq> CHR ''.''" by (auto simp: unit_byte_def)
  have "n \<le> n * ns" using assms(2) by simp
  from order_trans [OF this assms(5)] have "n \<le> two63" .
  with leadingInt_digits [OF d, of "u @ r" 0] c u have li: "leadingInt 0 (Itoa n @ u @ r) = Some (n, u @ r)"
    by simp
  have "r = [] \<or> \<not> unit_byte (hd r)" using assms(6) by (auto simp: unit_byte_def)
  note tw = takeWhile_digits [OF assms(4) this]
  have "\<not> two63 div ns < n" using assms(2,5) by (simp add: not_less less_eq_div_iff_mult_less_eq)
  with li hd c u tw assms(1,3) show ?thesis
    by (simp add: duration_term_def Let_def Itoa_nonempty)
qed

lemma duration_loop_term:
  assumes "duration_term s = Inr (v, r)" and "s \<noteq> []" and "d + v \<le> two63"
  shows "duration_loop d s = duration_loop (d + v) r"
  using assms by (subst duration_loop.simps) (simp add: Let_def two63_def)

lemma duration_loop_Nil [simp]: "duration_loop d [] = Inr d"
  by (subst duration_loop.simps) simp

lemma Atoi_signed: "int64 v \<Longrightarrow> Atoi (signed_decimal v) = Inr v"
  using parse_uint_digits [OF Itoa_digits, of 0 "nat (- v)"] parse_uint_digits [OF Itoa_digits, of 0 "nat v"]
  by (auto simp: Atoi_def signed_decimal_def Let_def Itoa_nonempty int64_def MaxInt64_def MinInt64_def two63_def)

lemma signed_decimal_sign: "takeWhile (\<lambda>c. c \<noteq> CHR ''+'' \<and> c \<noteq> CHR ''-'') (signed_decimal v) = []"
  "dropWhile (\<lambda>c. c \<noteq> CHR ''+'' \<and> c \<noteq> CHR ''-'') (signed_decimal v) = signed_decimal v" "signed_decimal v \<noteq> []"
  by (simp_all add: signed_decimal_def)

lemma level_text:
  assumes "(name, base) \<in> set level_names" and "int64 v" and "int64 (base + v)"
  shows "level_of_text (if v = 0 then name else name @ signed_decimal v) = Inr (base + v)"
proof -
  have n: "list_all (\<lambda>c. c \<noteq> CHR ''+'' \<and> c \<noteq> CHR ''-'') name" "map_of level_names (ToUpper name) = Some base"
    using assms(1) by (auto simp: level_names_def HasPrefix_def ascii_upper_def is_lower_def)
  have w: "wrap64 (base + v) = base + v" by (rule wrap64_id [OF assms(3)])
  show ?thesis
  proof (cases "v = 0")
    case True
    note tw = takeWhile_digits [OF n(1), of "[]", simplified append_Nil2 simp_thms]
    show ?thesis
      unfolding level_of_text_def Let_def using True n(2) w by (simp add: tw [THEN conjunct1] tw [THEN conjunct2])
  next
    case False
    have "takeWhile (\<lambda>c. c \<noteq> CHR ''+'' \<and> c \<noteq> CHR ''-'') (name @ signed_decimal v) = name"
      "dropWhile (\<lambda>c. c \<noteq> CHR ''+'' \<and> c \<noteq> CHR ''-'') (name @ signed_decimal v) = signed_decimal v"
      using takeWhile_digits [OF n(1), of "signed_decimal v"] by (auto simp: signed_decimal_def)
    with False n(2) w show ?thesis
      by (simp add: level_of_text_def Let_def Atoi_signed [OF assms(2)] signed_decimal_sign(3))
  qed
qed

section \<open>Steps of startup\<close>

lemma andThen_Inr: "snd (andThen p f) = Inr b \<longleftrightarrow> (\<exists>a. snd p = Inr a \<and> snd (f a) = Inr b)"
  by (auto simp: andThen_def split: sum.splits)

lemma andThen_Inl: "snd (andThen p f) = Inl e \<longleftrightarrow> snd p = Inl e \<or> (\<exists>a. snd p = Inr a \<and> snd (f a) = Inl e)"
  by (auto simp: andThen_def split: sum.splits)

lemma snd_checked [simp]: "snd (checked r) = r" and fst_checked [simp]: "fst (checked r) = []"
  by (simp_all add: checked_def)

lemma wrap_failure_Inr [simp]: "snd (wrap_failure m p) = Inr a \<longleftrightarrow> snd p = Inr a"
  by (auto simp: wrap_failure_def split: sum.splits)

lemma setupLogging_Inr:
  "snd (setupLogging ext fl) = Inr lg \<longleftrightarrow> (\<exists>level. level_of_text (flag_logLevel fl) = Inr level \<and>
     lg = (level, if isTTY (stderr_mode ext) then TextFormat else JSONFormat))"
  by (auto simp: setupLogging_def split: sum.splits)

lemma parseTimeoutFlags_Inr:
  "parseTimeoutFlags fl = Inr (c, h) \<longleftrightarrow> parseDuration (flag_clientTimeout fl) ''client-timeout'' = Inr c \<and>
     parseDuration (flag_responseHeaderTimeout fl) ''response-header-timeout'' = Inr h"
  by (auto simp: parseTimeoutFlags_def split: sum.splits)

lemma parse_honor_Inr: "parse_honor fl = Inr b \<longleftrightarrow> ParseBool (flag_honorFreshness fl) = Inr b"
  by (auto simp: parse_honor_def split: sum.splits)

definition egress_proxy :: "'w outside \<Rightarrow> flag_values \<Rightarrow> ParsedURL option \<Rightarrow> bool" where
  "egress_proxy ext fl proxy \<longleftrightarrow>
     (if flag_egressProxy fl = [] then proxy = None
      else \<exists>u. proxy = Some u \<and> url_Parse (ip6_literal ext) (flag_egressProxy fl) = Inr u)"

definition client_with :: "ParsedURL option \<Rightarrow> duration \<Rightarrow> duration \<Rightarrow> upstream_client" where
  "client_with proxy client header =
     \<lparr>ProxyURL = proxy, DialTimeout = 10 * Second, TLSHandshakeTimeout = 10 * Second,
      ResponseHeaderTimeout = header, IdleConnTimeout = 90 * Second, ClientTimeout = client\<rparr>"

lemma newUpstreamClient_Inr:
  "snd (newUpstreamClient ext level fl ct ht) = Inr c \<longleftrightarrow> (\<exists>proxy. egress_proxy ext fl proxy \<and> c = client_with proxy ct ht)"
  by (auto simp: newUpstreamClient_def egress_proxy_def client_with_def Let_def split: sum.splits)

lemma getListener_Inr:
  "snd (getListener ext level addr) = Inr ln \<longleftrightarrow>
     (\<exists>n. activation ext = Inr n \<and> (if 0 < n then ln = SocketActivated else tcpListen ext addr = None \<and> ln = Listening addr))"
  by (auto simp: getListener_def split: sum.splits option.splits)

lemma prepare_InrE:
  assumes "snd (prepare ext fl) = Inr st"
  obtains lg client header honor cap c ln where
    "snd (setupLogging ext fl) = Inr lg" "flag_bucket fl \<noteq> []" "parseTimeoutFlags fl = Inr (client, header)"
    "parse_honor fl = Inr honor" "parseDuration (flag_freshnessCap fl) ''freshness-cap'' = Inr cap"
    "awsLoad ext = None" "snd (newUpstreamClient ext (fst lg) fl client header) = Inr c"
    "snd (getListener ext (fst lg) (flag_listen fl)) = Inr ln"
    "st = \<lparr>logging = lg, upstream = c, handler = new_handler ext fl c honor cap, server_listener = ln,
        ReadHeaderTimeout = 10 * Second\<rparr>"
  using assms unfolding prepare_def by (auto simp: andThen_Inr split: if_splits option.splits)

section \<open>Properties\<close>

text \<open>
  C35. A server runs only from a valid configuration, and from every valid one. Startup succeeds exactly
  when the log level reads, a bucket is named, the three durations read as values from 0 to the largest
  \<open>time.Duration\<close>, the freshness flag reads as a boolean, AWS configuration loads, the egress proxy
  is absent or a URL, and a listener is there; the client, the fallback policy, the cache and the handler
  it builds have exactly these values.
\<close>

theorem startup_validates:
  "snd (prepare ext fl) = Inr st \<longleftrightarrow>
     (\<exists>level client header honor cap proxy ln n.
        level_of_text (flag_logLevel fl) = Inr level \<and> flag_bucket fl \<noteq> [] \<and>
        ParseDuration (flag_clientTimeout fl) = Inr client \<and> 0 \<le> client \<and> client \<le> MaxInt64 \<and>
        ParseDuration (flag_responseHeaderTimeout fl) = Inr header \<and> 0 \<le> header \<and> header \<le> MaxInt64 \<and>
        ParseBool (flag_honorFreshness fl) = Inr honor \<and>
        ParseDuration (flag_freshnessCap fl) = Inr cap \<and> 0 \<le> cap \<and> cap \<le> MaxInt64 \<and>
        awsLoad ext = None \<and> egress_proxy ext fl proxy \<and> activation ext = Inr n \<and>
        (if 0 < n then ln = SocketActivated else tcpListen ext (flag_listen fl) = None \<and> ln = Listening (flag_listen fl)) \<and>
        st = \<lparr>logging = (level, if isTTY (stderr_mode ext) then TextFormat else JSONFormat),
          upstream = client_with proxy client header,
          handler = \<lparr>cache = s3_httpCache \<lparr>s3c = awsS3 ext, bucket = flag_bucket fl, prefix = flag_prefix fl\<rparr>,
            clientDo = httpDo ext (client_with proxy client header), timeNow = wallClock ext, ip6 = ip6_literal ext,
            fallback = \<lparr>OnConnectionError = flag_staleOnConnectionError fl, On5xx = flag_staleOn5xx fl,
              OnAnyError = flag_staleOnAnyError fl\<rparr>,
            honorFreshness = honor, freshnessCap = cap\<rparr>,
          server_listener = ln, ReadHeaderTimeout = 10 * Second\<rparr>)"
  (is "?L \<longleftrightarrow> ?R")
proof
  assume ?L
  then obtain lg client header honor cap c ln where
    "snd (setupLogging ext fl) = Inr lg" "flag_bucket fl \<noteq> []" "parseTimeoutFlags fl = Inr (client, header)"
    "parse_honor fl = Inr honor" "parseDuration (flag_freshnessCap fl) ''freshness-cap'' = Inr cap"
    "awsLoad ext = None" "snd (newUpstreamClient ext (fst lg) fl client header) = Inr c"
    "snd (getListener ext (fst lg) (flag_listen fl)) = Inr ln"
    "st = \<lparr>logging = lg, upstream = c, handler = new_handler ext fl c honor cap, server_listener = ln,
        ReadHeaderTimeout = 10 * Second\<rparr>"
    by (rule prepare_InrE)
  then show ?R
    unfolding setupLogging_Inr parseTimeoutFlags_Inr parse_honor_Inr parseDuration_iff newUpstreamClient_Inr
      getListener_Inr new_handler_def
    by blast
next
  assume ?R
  then show ?L
    unfolding prepare_def andThen_Inr snd_checked wrap_failure_Inr setupLogging_Inr newUpstreamClient_Inr getListener_Inr
    by (elim exE conjE) (force simp: parseTimeoutFlags_Inr parse_honor_Inr parseDuration_iff andThen_Inr
        newUpstreamClient_Inr getListener_Inr new_handler_def)
qed

section \<open>Failures\<close>

definition failure :: "go_error + 'a \<Rightarrow> go_error option" where
  "failure r = (case r of Inl err \<Rightarrow> Some err | Inr _ \<Rightarrow> None)"

definition egress_failure :: "'w outside \<Rightarrow> flag_values \<Rightarrow> go_error option" where
  "egress_failure ext fl =
     (if flag_egressProxy fl = [] then None
      else map_option (\<lambda>err. Wrap err ''invalid --egress-proxy URL'') (failure (url_Parse (ip6_literal ext) (flag_egressProxy fl))))"

definition listener_failure :: "'w outside \<Rightarrow> string \<Rightarrow> go_error option" where
  "listener_failure ext addr =
     (case activation ext of
        Inl err \<Rightarrow> Some (Wrap (Wrap err ''socket activation'') ''get listener'')
      | Inr n \<Rightarrow> if 0 < n then None
          else map_option (\<lambda>err. Wrap (Wrapf err ''listen %s'' [addr]) ''get listener'') (tcpListen ext addr))"

definition checks_before_listening :: "'w outside \<Rightarrow> flag_values \<Rightarrow> go_error option list" where
  "checks_before_listening ext fl =
     [failure (snd (setupLogging ext fl)),
      if flag_bucket fl = [] then Some errBucketRequired else None,
      failure (parseDuration (flag_clientTimeout fl) ''client-timeout''),
      failure (parseDuration (flag_responseHeaderTimeout fl) ''response-header-timeout''),
      failure (parse_honor fl),
      failure (parseDuration (flag_freshnessCap fl) ''freshness-cap''),
      map_option (\<lambda>err. Wrap err ''load AWS config'') (awsLoad ext),
      egress_failure ext fl]"

fun first_failure :: "go_error option list \<Rightarrow> go_error option" where
  "first_failure [] = None"
| "first_failure (Some err # cs) = Some err"
| "first_failure (None # cs) = first_failure cs"

lemma failure_simps [simp]: "failure (Inl e) = Some e" "failure (Inr a) = None"
  by (simp_all add: failure_def)

lemma first_failure_Cons: "first_failure (c # cs) = (case c of Some err \<Rightarrow> Some err | None \<Rightarrow> first_failure cs)"
  by (cases c) simp_all

lemma failure_andThen:
  "failure (snd (andThen p f)) =
     (case failure (snd p) of Some err \<Rightarrow> Some err | None \<Rightarrow> failure (snd (f (projr (snd p)))))"
  by (cases "snd p") (simp_all add: andThen_def)

lemma failure_steps:
  "failure (snd (newUpstreamClient ext level fl ct ht)) = egress_failure ext fl"
  "failure (snd (wrap_failure ''get listener'' (getListener ext level addr))) = listener_failure ext addr"
  "failure (parseTimeoutFlags fl) =
     (case failure (parseDuration (flag_clientTimeout fl) ''client-timeout'') of
        Some err \<Rightarrow> Some err
      | None \<Rightarrow> failure (parseDuration (flag_responseHeaderTimeout fl) ''response-header-timeout''))"
  by (auto simp: newUpstreamClient_def egress_failure_def getListener_def listener_failure_def wrap_failure_def
      parseTimeoutFlags_def Let_def split: sum.split option.split)

lemma failure_checked:
  "failure (if c then Inl e else Inr a) = (if c then Some e else None)"
  "failure (case v of Some err \<Rightarrow> Inl (f err) | None \<Rightarrow> Inr a) = map_option f v"
  by (simp_all split: option.split)

lemma failure_None: "failure r = None \<longleftrightarrow> (\<exists>a. r = Inr a)"
  by (cases r) simp_all

text \<open>The lines of a startup that do not announce a listener.\<close>

definition announces :: "log_line \<Rightarrow> bool" where
  "announces l \<longleftrightarrow> LogMsg l = ''listening'' \<or> LogMsg l = ''using socket-activated listener''"

lemma lines_setup: "l \<in> set (fst (setupLogging ext fl)) \<Longrightarrow> \<not> announces l"
  "l \<in> set (fst (newUpstreamClient ext level fl ct ht)) \<Longrightarrow> \<not> announces l"
  by (auto simp: setupLogging_def newUpstreamClient_def slog_line_def announces_def log_at_def Let_def
      split: sum.splits if_splits)

lemma lines_andThen:
  "l \<in> set (fst (andThen p f)) \<longleftrightarrow> l \<in> set (fst p) \<or> (\<exists>a. snd p = Inr a \<and> l \<in> set (fst (f a)))"
  by (auto simp: andThen_def split: sum.splits)

lemma announced:
  assumes "l \<in> set (fst (prepare ext fl))" and "announces l"
  obtains lg ct ht honor cap c where "snd (setupLogging ext fl) = Inr lg" "flag_bucket fl \<noteq> []"
    "parseTimeoutFlags fl = Inr (ct, ht)" "parse_honor fl = Inr honor"
    "parseDuration (flag_freshnessCap fl) ''freshness-cap'' = Inr cap" "awsLoad ext = None"
    "snd (newUpstreamClient ext (fst lg) fl ct ht) = Inr c"
  using assms unfolding prepare_def
  by (auto simp: lines_andThen andThen_Inr dest: lines_setup split: if_splits option.splits)

text \<open>
  C36. The first failure is the one reported, and nothing is opened before everything else is in order.
  Each check of startup stands alone; what \<open>run\<close> reports is the failure of the first that fails, in
  the order log level, bucket, client timeout, response header timeout, freshness flag, cap, AWS
  configuration, egress proxy, listener. The lines that announce a listener are logged only when all the
  checks before it pass.
\<close>

theorem first_failure_reported:
  "failure (snd (prepare ext fl)) =
     first_failure (checks_before_listening ext fl @ [listener_failure ext (flag_listen fl)]) \<and>
   ((\<exists>l \<in> set (fst (prepare ext fl)). announces l) \<longrightarrow> first_failure (checks_before_listening ext fl) = None)"
proof
  show "failure (snd (prepare ext fl)) =
     first_failure (checks_before_listening ext fl @ [listener_failure ext (flag_listen fl)])"
    unfolding prepare_def checks_before_listening_def
    by (simp add: failure_andThen failure_steps failure_checked first_failure_Cons split_def split del: if_split
        cong: option.case_cong) (simp split: option.split)
next
  show "(\<exists>l \<in> set (fst (prepare ext fl)). announces l) \<longrightarrow> first_failure (checks_before_listening ext fl) = None"
  proof (intro impI, elim bexE)
    fix l assume "l \<in> set (fst (prepare ext fl))" and "announces l"
    then obtain lg ct ht honor cap c where r: "snd (setupLogging ext fl) = Inr lg" "flag_bucket fl \<noteq> []"
        "parseTimeoutFlags fl = Inr (ct, ht)" "parse_honor fl = Inr honor"
        "parseDuration (flag_freshnessCap fl) ''freshness-cap'' = Inr cap" "awsLoad ext = None"
        "snd (newUpstreamClient ext (fst lg) fl ct ht) = Inr c"
      by (rule announced)
    from r(7) failure_steps(1) [of ext "fst lg" fl ct ht] have "egress_failure ext fl = None" by simp
    with r(1-6) show "first_failure (checks_before_listening ext fl) = None"
      by (simp add: checks_before_listening_def parseTimeoutFlags_Inr)
  qed
qed

section \<open>Durations and levels\<close>

lemma ToUpper_info: "ToUpper ''info'' = ''INFO''" by code_simp
lemma level_info: "level_of_text ''info'' = Inr 0"
  by (simp add: level_of_text_def Let_def level_names_def ToUpper_info wrap64_def del: ToUpper.simps)

lemma hd_Itoa: "is_digit (hd (Itoa n @ r))" "hd (Itoa n @ r) \<noteq> CHR ''-''" "hd (Itoa n @ r) \<noteq> CHR ''+''"
proof -
  show "is_digit (hd (Itoa n @ r))" using Itoa_digits [of n] by (cases "Itoa n") (auto simp: Itoa_nonempty)
  then show "hd (Itoa n @ r) \<noteq> CHR ''-''" "hd (Itoa n @ r) \<noteq> CHR ''+''" by (auto simp: is_digit_def)
qed

lemma ParseDuration_unsigned:
  assumes "duration_loop 0 (Itoa n @ u # r) = Inr d" and "int d \<le> MaxInt64"
  shows "ParseDuration (Itoa n @ u # r) = Inr (int d)"
proof -
  have "Itoa n @ u # r \<noteq> ''0''" by (cases "Itoa n") (auto simp: Itoa_nonempty)
  with assms hd_Itoa [of n "u # r"] show ?thesis
    by (simp add: ParseDuration_def Let_def two63_def MaxInt64_def Itoa_nonempty)
qed

lemma unit_of:
  "unitMap ''h'' = Some 3600000000000" "unitMap ''m'' = Some 60000000000" "unitMap ''s'' = Some 1000000000"
  by (simp_all add: unitMap_def)

lemma duration_units_loop:
  assumes "(c, ns) \<in> {(CHR ''h'', 3600000000000), (CHR ''m'', 60000000000), (CHR ''s'', 1000000000)}"
    and "r = [] \<or> is_digit (hd r)" and "d + n * ns \<le> two63"
  shows "duration_loop d (Itoa n @ c # r) = duration_loop (d + n * ns) r"
proof -
  have u: "unitMap [c] = Some ns" "0 < ns" "list_all unit_byte [c]"
    using assms(1) by (auto simp: unit_of unit_byte_def is_digit_def)
  have "n * ns \<le> two63" using assms(3) by simp
  from duration_term_whole [OF u(1,2) _ u(3) this assms(2)]
  have "duration_term (Itoa n @ c # r) = Inr (n * ns, r)" by simp
  then show ?thesis by (rule duration_loop_term) (simp_all add: assms(3))
qed

lemma ParseDuration_single:
  assumes "(c, ns) \<in> {(CHR ''h'', 3600000000000), (CHR ''m'', 60000000000), (CHR ''s'', 1000000000)}"
    and "int (n * ns) \<le> MaxInt64"
  shows "ParseDuration (Itoa n @ [c]) = Inr (int (n * ns))"
proof (rule ParseDuration_unsigned [OF _ assms(2)])
  have "int (n * ns) \<le> int two63" using assms(2) by (simp add: MaxInt64_def two63_def)
  then have "0 + n * ns \<le> two63" by (simp only: of_nat_le_iff add_0)
  from duration_units_loop [OF assms(1) _ this, of "[]"] show "duration_loop 0 (Itoa n @ [c]) = Inr (n * ns)" by simp
qed

lemma digit_chars:
  "char_of (48 :: nat) = CHR ''0''" "char_of (49 :: nat) = CHR ''1''" "char_of (50 :: nat) = CHR ''2''"
  "char_of (51 :: nat) = CHR ''3''" "char_of (52 :: nat) = CHR ''4''" "char_of (53 :: nat) = CHR ''5''"
  "char_of (54 :: nat) = CHR ''6''" "char_of (56 :: nat) = CHR ''8''"
  by code_simp+

lemma Itoa_examples: "Itoa 120 = ''120''" "Itoa 5 = ''5''" "Itoa 168 = ''168''"
  by (simp_all add: Itoa.simps digit_chars)

lemma default_values:
  "level_of_text ''info'' = Inr 0" "ParseDuration ''120s'' = Inr 120000000000" "ParseDuration ''5s'' = Inr 5000000000"
  "ParseBool ''false'' = Inr False" "ParseDuration ''168h'' = Inr 604800000000000"
  using ParseDuration_single [of "CHR ''s''" 1000000000 120] ParseDuration_single [of "CHR ''s''" 1000000000 5]
    ParseDuration_single [of "CHR ''h''" 3600000000000 168]
  by (simp_all add: level_info ParseBool_def Itoa_examples MaxInt64_def)



text \<open>
  Every log level the process can have is read back from the text it logs at startup.
\<close>

theorem level_roundtrip:
  assumes "int64 l"
  shows "level_of_text (level_String l) = Inr l"
proof -
  have i: "l < 0 \<Longrightarrow> int64 (l + 4)" "4 \<le> l \<Longrightarrow> int64 (l - 4)" "8 \<le> l \<Longrightarrow> int64 (l - 8)"
    using assms by (auto simp: int64_def MaxInt64_def MinInt64_def)
  have n: "(''DEBUG'', - 4) \<in> set level_names" "(''INFO'', 0) \<in> set level_names" "(''WARN'', 4) \<in> set level_names"
    "(''ERROR'', 8) \<in> set level_names"
    by (simp_all add: level_names_def)
  show ?thesis
    using level_text [OF n(1), of "l + 4"] level_text [OF n(2), of l] level_text [OF n(3), of "l - 4"]
      level_text [OF n(4), of "l - 8"] i assms
    by (simp add: level_String_def Let_def)
qed

theorem level_roundtrip_witness: "level_of_text ''DEBUG-6'' = Inr (- 10)"
proof -
  have "int64 (- 10)" by (simp add: int64_def MaxInt64_def MinInt64_def)
  from level_roundtrip [OF this] show ?thesis
    by (simp add: level_String_def Let_def signed_decimal_def Itoa.simps digit_chars)
qed

section \<open>Defaults and exit\<close>





lemma parse_args_codes: "parse_args fl args = Inl c \<Longrightarrow> c = 0 \<or> c = 2"
  by (induction fl args rule: parse_args.induct)
    (auto simp: Let_def split: if_splits option.splits prod.splits)

definition demo_outside :: "server_event \<Rightarrow> unit outside" where
  "demo_outside ev =
     \<lparr>stderr_mode = Inr 0, awsLoad = None,
      awsS3 = \<lparr>HeadObject = (\<lambda>b k w. (Inl (ErrPlain ''unused''), w)), CopyObject = (\<lambda>i w. (None, w)),
        UploadObject = (\<lambda>i w. (None, w)), PresignGetObject = (\<lambda>b k w. (Inr k, w))\<rparr>,
      httpDo = (\<lambda>c r w. (Inl (ErrNet ''down''), w)), wallClock = (\<lambda>w. (0, w)), ip6_literal = (\<lambda>_. False),
      activation = Inr 0, tcpListen = (\<lambda>_. None), serverEvent = ev\<rparr>"

lemma defaults_prepare:
  assumes "getenv = (\<lambda>_. [])(''MIRROR_CACHE_BUCKET'' := b)" and "b \<noteq> []"
    and "awsLoad ext = None" and "activation ext = Inr 0" and "tcpListen ext '':8443'' = None"
  shows "snd (prepare ext (default_flags getenv)) = Inr \<lparr>logging = (0, if isTTY (stderr_mode ext) then TextFormat else JSONFormat),
     upstream = client_with None (120 * Second) (5 * Second),
     handler = new_handler ext (default_flags getenv) (client_with None (120 * Second) (5 * Second)) False (168 * Hour),
     server_listener = Listening '':8443'', ReadHeaderTimeout = 10 * Second\<rparr>"
proof -
  have "default_flags getenv = \<lparr>flag_bucket = b, flag_prefix = ''cache'', flag_listen = '':8443'', flag_egressProxy = [],
      flag_logLevel = ''info'', flag_staleOnConnectionError = True, flag_staleOn5xx = True, flag_staleOnAnyError = False,
      flag_clientTimeout = ''120s'', flag_responseHeaderTimeout = ''5s'', flag_honorFreshness = ''false'',
      flag_freshnessCap = ''168h''\<rparr>" (is "_ = ?fl")
    using assms(1,2) by (simp add: default_flags_def envDefault_def)
  then show ?thesis
    using assms(2-5)
    by (simp add: prepare_def andThen_Inr setupLogging_Inr parseTimeoutFlags_Inr parse_honor_Inr parseDuration_iff
        newUpstreamClient_Inr getListener_Inr egress_proxy_def default_values Second_def Hour_def MaxInt64_def) blast
qed

text \<open>
  What an operator gets without flags. With only \<open>MIRROR_CACHE_BUCKET\<close> set, on a machine where
  AWS configuration loads and the port is free, the mirror listens on \<open>:8443\<close> without a proxy,
  bounds a request by 120 and its headers by 5 seconds, serves stale content on connection errors and on
  5xx but not otherwise, and never skips revalidation.
\<close>

theorem documented_defaults:
  assumes "getenv = (\<lambda>_. [])(''MIRROR_CACHE_BUCKET'' := b)" and "b \<noteq> []"
    and "awsLoad ext = None" and "activation ext = Inr 0" and "tcpListen ext '':8443'' = None"
  shows "\<exists>fl st. parse_args (default_flags getenv) [] = Inr fl \<and> snd (prepare ext fl) = Inr st \<and>
    server_listener st = Listening '':8443'' \<and> upstream st = client_with None (120 * Second) (5 * Second) \<and>
    cache (handler st) = s3_httpCache \<lparr>s3c = awsS3 ext, bucket = b, prefix = ''cache''\<rparr> \<and>
    fallback (handler st) = \<lparr>OnConnectionError = True, On5xx = True, OnAnyError = False\<rparr> \<and>
    \<not> honorFreshness (handler st) \<and> freshnessCap (handler st) = 168 * Hour \<and> fst (logging st) = 0"
  using defaults_prepare [OF assms] assms(1,2)
  by (simp add: new_handler_def default_flags_def envDefault_def)

theorem first_failure_reported_witness:
  "failure (snd (prepare (demo_outside (ShutdownSignal None)) ((default_flags (\<lambda>_. []))\<lparr>flag_freshnessCap := ''soon''\<rparr>))) =
     Some errBucketRequired"
proof -
  let ?fl = "(default_flags (\<lambda>_. []))\<lparr>flag_freshnessCap := ''soon''\<rparr>"
  have "snd (setupLogging (demo_outside (ShutdownSignal None)) ?fl) = Inr (0, JSONFormat)"
    by (simp add: setupLogging_Inr default_flags_def envDefault_def demo_outside_def isTTY_def default_values)
  then have "first_failure (checks_before_listening (demo_outside (ShutdownSignal None)) ?fl @ [listener_failure (demo_outside (ShutdownSignal None)) (flag_listen ?fl)]) = Some errBucketRequired"
    by (simp add: checks_before_listening_def default_flags_def envDefault_def)
  with first_failure_reported [of "demo_outside (ShutdownSignal None)" ?fl] show ?thesis by simp
qed


theorem documented_defaults_witness:
  "\<exists>st. snd (prepare (demo_outside (ShutdownSignal None)) (default_flags ((\<lambda>_. [])(''MIRROR_CACHE_BUCKET'' := ''b'')))) = Inr st \<and>
     fallback (handler st) = \<lparr>OnConnectionError = True, On5xx = True, OnAnyError = False\<rparr>"
proof -
  let ?ext = "demo_outside (ShutdownSignal None)"
  have ext: "awsLoad ?ext = None" "activation ?ext = Inr 0" "tcpListen ?ext '':8443'' = None"
    by (simp_all add: demo_outside_def)
  from documented_defaults [OF refl _ ext, of "''b''"] show ?thesis by auto
qed

end
