(* ===== verification/GoHash.thy ===== *)
theory GoHash
  imports Prelude "HOL-Library.Word"
begin

text \<open>
  \<open>crypto/sha256\<close> on byte strings and \<open>binary.AppendVarint\<close>, over machine words.
\<close>

unbundle bit_operations_syntax

section \<open>SHA-256\<close>

type_synonym byte = "8 word"
type_synonym word32 = "32 word"

text \<open>The round constants, in decimal.\<close>

definition K256 :: "word32 list" where
  "K256 =
     [1116352408, 1899447441, 3049323471, 3921009573, 961987163, 1508970993, 2453635748, 2870763221,
      3624381080, 310598401, 607225278, 1426881987, 1925078388, 2162078206, 2614888103, 3248222580,
      3835390401, 4022224774, 264347078, 604807628, 770255983, 1249150122, 1555081692, 1996064986,
      2554220882, 2821834349, 2952996808, 3210313671, 3336571891, 3584528711, 113926993, 338241895,
      666307205, 773529912, 1294757372, 1396182291, 1695183700, 1986661051, 2177026350, 2456956037,
      2730485921, 2820302411, 3259730800, 3345764771, 3516065817, 3600352804, 4094571909, 275423344,
      430227734, 506948616, 659060556, 883997877, 958139571, 1322822218, 1537002063, 1747873779,
      1955562222, 2024104815, 2227730452, 2361852424, 2428436474, 2756734187, 3204031479, 3329325298]"

text \<open>The eight chaining words.\<close>

datatype chain = Chain word32 word32 word32 word32 word32 word32 word32 word32

definition H256 :: chain where
  "H256 = Chain 0x6a09e667 0xbb67ae85 0x3c6ef372 0xa54ff53a 0x510e527f 0x9b05688c 0x1f83d9ab 0x5be0cd19"

definition rotr :: "nat \<Rightarrow> word32 \<Rightarrow> word32" where
  "rotr n x = drop_bit n x OR push_bit (32 - n) x"

definition small_sigma0 :: "word32 \<Rightarrow> word32" where
  "small_sigma0 x = rotr 7 x XOR rotr 18 x XOR drop_bit 3 x"

definition small_sigma1 :: "word32 \<Rightarrow> word32" where
  "small_sigma1 x = rotr 17 x XOR rotr 19 x XOR drop_bit 10 x"

definition big_sigma0 :: "word32 \<Rightarrow> word32" where
  "big_sigma0 x = rotr 2 x XOR rotr 13 x XOR rotr 22 x"

definition big_sigma1 :: "word32 \<Rightarrow> word32" where
  "big_sigma1 x = rotr 6 x XOR rotr 11 x XOR rotr 25 x"

text \<open>The message schedule, extended by \<open>n\<close> words at the end.\<close>

primrec extend :: "nat \<Rightarrow> word32 list \<Rightarrow> word32 list" where
  "extend 0 ws = ws"
| "extend (Suc n) ws =
     (let t = length ws
      in extend n (ws @ [small_sigma1 (ws ! (t - 2)) + ws ! (t - 7) + small_sigma0 (ws ! (t - 15)) + ws ! (t - 16)]))"

fun sha_round :: "word32 \<times> word32 \<Rightarrow> chain \<Rightarrow> chain" where
  "sha_round (k, w) (Chain a b c d e f g h) =
     (let t1 = h + big_sigma1 e + ((e AND f) XOR (NOT e AND g)) + k + w;
          t2 = big_sigma0 a + ((a AND b) XOR (a AND c) XOR (b AND c))
      in Chain (t1 + t2) a b c (d + t1) e f g)"

fun chain_add :: "chain \<Rightarrow> chain \<Rightarrow> chain" where
  "chain_add (Chain a b c d e f g h) (Chain a' b' c' d' e' f' g' h') =
     Chain (a + a') (b + b') (c + c') (d + d') (e + e') (f + f') (g + g') (h + h')"

fun be_words :: "byte list \<Rightarrow> word32 list" where
  "be_words (a # b # c # d # bs) =
     (push_bit 24 (ucast a) OR push_bit 16 (ucast b) OR push_bit 8 (ucast c) OR ucast d) # be_words bs"
| "be_words bs = []"

definition be_bytes :: "word32 \<Rightarrow> byte list" where
  "be_bytes w = [ucast (drop_bit 24 w), ucast (drop_bit 16 w), ucast (drop_bit 8 w), ucast w]"

definition sha_block :: "byte list \<Rightarrow> chain \<Rightarrow> chain" where
  "sha_block block h = chain_add h (fold sha_round (zip K256 (extend 48 (be_words block))) h)"

definition sha_pad :: "byte list \<Rightarrow> byte list" where
  "sha_pad msg =
     (let n = 8 * length msg
      in msg @ 0x80 # replicate ((119 - length msg mod 64) mod 64) 0 @
         map (\<lambda>i. word_of_nat (n div 256 ^ i)) [7, 6, 5, 4, 3, 2, 1, 0])"

fun sha_blocks :: "byte list \<Rightarrow> chain \<Rightarrow> chain" where
  "sha_blocks bs h = (if length bs < 64 then h else sha_blocks (drop 64 bs) (sha_block (take 64 bs) h))"

declare sha_blocks.simps [simp del]

definition Sum256 :: "byte list \<Rightarrow> byte list" where
  "Sum256 msg =
     (case sha_blocks (sha_pad msg) H256 of
        Chain a b c d e f g h \<Rightarrow> concat (map be_bytes [a, b, c, d, e, f, g, h]))"

lemma length_Sum256 [simp]: "length (Sum256 msg) = 32"
  by (simp add: Sum256_def be_bytes_def split: chain.split)

lemma sha_pad_blocks: "64 dvd length (sha_pad msg)"
proof -
  have "length (sha_pad msg) = length msg + 9 + (119 - length msg mod 64) mod 64"
    by (simp add: sha_pad_def Let_def)
  moreover have "64 dvd n + 9 + (119 - n mod 64) mod 64" for n :: nat
  proof -
    obtain q r where n: "n = 64 * q + r" "r < 64" "n mod 64 = r" 
      by (rule that [of "n div 64" "n mod 64"]) simp_all
    have e: "(119 - r) mod 64 = (if r \<le> 55 then 55 - r else 119 - r)"
    proof (cases "r \<le> 55")
      case True
      then have "119 - r = (55 - r) + 64" by simp
      then have "(119 - r) mod 64 = (55 - r) mod 64" by (simp only: mod_add_self2)
      with True show ?thesis by simp
    next
      case False
      then have "119 - r < 64" by simp
      with False show ?thesis by simp
    qed
    have "n + 9 + (119 - r) mod 64 = 64 * (if r \<le> 55 then q + 1 else q + 2)"
      unfolding e using n(1,2) by (cases "r \<le> 55") simp_all
    then have "64 dvd n + 9 + (119 - r) mod 64" by (rule dvdI)
    then show ?thesis unfolding n(3) .
  qed
  ultimately show ?thesis by (simp only:)
qed

section \<open>Varints\<close>

function put_uvarint :: "64 word \<Rightarrow> byte list" where
  "put_uvarint x =
     (if x < 0x80 then [ucast x] else (ucast x OR 0x80) # put_uvarint (drop_bit 7 x))"
  by pat_completeness auto

termination
proof (relation "measure unat")
  fix x :: "64 word"
  assume "\<not> x < 0x80"
  then have "0 < unat x" by (auto simp: unat_gt_0)
  then have "unat x div 2 ^ 7 < unat x" by simp
  moreover have "unat (drop_bit 7 x) = drop_bit 7 (unat x)" by (rule unat_drop_bit_eq)
  ultimately have "unat (drop_bit 7 x) < unat x" by (simp only: drop_bit_eq_div)
  then show "(drop_bit 7 x, x) \<in> measure unat" by (simp only: in_measure)
qed simp

declare put_uvarint.simps [simp del]

text \<open>\<open>binary.AppendVarint\<close>: the sign in the lowest bit.\<close>

definition zigzag :: "int \<Rightarrow> 64 word" where
  "zigzag x = (let ux = push_bit 1 (word_of_int x) in if x < 0 then NOT ux else ux)"

definition AppendVarint :: "byte list \<Rightarrow> int \<Rightarrow> byte list" where
  "AppendVarint buf x = buf @ put_uvarint (zigzag x)"

section \<open>Varints can be read back\<close>

lemma last_group: "x < 0x80 \<Longrightarrow> \<not> bit (ucast (x :: 64 word) :: byte) 7"
proof -
  assume "x < 0x80"
  then have "unat x < 128" by (simp add: word_less_nat_alt)
  then have "\<not> bit (unat x) 7" by (simp add: bit_iff_odd)
  moreover have "bit (unat x) 7 \<longleftrightarrow> bit x 7" by (simp add: bit_unsigned_iff)
  ultimately show ?thesis by (simp add: bit_simps)
qed

lemma group_marked: "bit (ucast (x :: 64 word) OR 0x80 :: byte) 7"
  by (simp add: bit_simps)

lemma group_bits: "n < 7 \<Longrightarrow> bit (ucast (x :: 64 word) OR 0x80 :: byte) n \<longleftrightarrow> bit x n"
proof -
  assume "n < 7"
  then have "n = 0 \<or> n = 1 \<or> n = 2 \<or> n = 3 \<or> n = 4 \<or> n = 5 \<or> n = 6" by arith
  then show ?thesis by (elim disjE) (simp_all add: bit_simps)
qed

lemma small_group: "x < 0x80 \<Longrightarrow> unat (ucast (x :: 64 word) :: byte) = unat x"
proof -
  assume "x < 0x80"
  then have "unat x < 128" by (simp add: word_less_nat_alt)
  then show ?thesis by (simp add: unsigned_ucast_eq unsigned_take_bit_eq take_bit_nat_eq_self)
qed

lemma groups_determine:
  assumes "(ucast x OR 0x80 :: byte) = ucast y OR 0x80" and "drop_bit 7 x = drop_bit 7 y"
  shows "x = (y :: 64 word)"
proof (rule bit_word_eqI)
  fix n
  show "bit x n \<longleftrightarrow> bit y n"
  proof (cases "n < 7")
    case True
    with assms(1) group_bits [OF True, of x] group_bits [OF True, of y] show ?thesis by simp
  next
    case False
    then have "n = 7 + (n - 7)" by simp
    with assms(2) show ?thesis by (metis bit_drop_bit_eq comp_apply)
  qed
qed

lemma put_uvarint_prefix: "put_uvarint x @ r = put_uvarint y @ r' \<Longrightarrow> x = y \<and> r = r'"
proof (induction x arbitrary: y rule: put_uvarint.induct)
  case (1 x)
  note eqs = put_uvarint.simps [of x] put_uvarint.simps [of y]
  consider "x < 0x80" "y < 0x80" | "\<not> x < 0x80" "\<not> y < 0x80" | "(x < 0x80) \<noteq> (y < 0x80)" by blast
  then show ?case
  proof cases
    case 1
    with \<open>put_uvarint x @ r = put_uvarint y @ r'\<close> eqs
    have "(ucast x :: byte) = ucast y" "r = r'" by simp_all
    with small_group [OF 1(1)] small_group [OF 1(2)] show ?thesis by (simp add: word_unat_eq_iff)
  next
    case 2
    with 1(2) eqs have h: "(ucast x OR 0x80 :: byte) = ucast y OR 0x80"
      and t: "put_uvarint (drop_bit 7 x) @ r = put_uvarint (drop_bit 7 y) @ r'" by simp_all
    from 1(1) [OF 2(1) t] groups_determine [OF h] show ?thesis by blast
  next
    case 3
    with 1(2) eqs have "(ucast x :: byte) = ucast y OR 0x80 \<and> x < 0x80 \<or> (ucast x OR 0x80 :: byte) = ucast y \<and> y < 0x80"
      by (auto split: if_splits)
    with last_group [of x] last_group [of y] group_marked [of x] group_marked [of y] show ?thesis by metis
  qed
qed

lemma uint_zigzag:
  assumes "int64 x"
  shows "uint (zigzag x) = (if x < 0 then - 2 * x - 1 else 2 * x)"
proof -
  have b: "- (2 ^ 63) \<le> x" "x < 2 ^ 63"
    using assms by (auto simp: int64_def MaxInt64_def MinInt64_def)
  have two: "push_bit 1 (word_of_int x) = (word_of_int (2 * x) :: 64 word)" by simp
  show ?thesis
  proof (cases "x < 0")
    case True
    have "NOT (word_of_int (2 * x)) = (word_of_int (- 2 * x - 1) :: 64 word)" by (simp add: not_eq_complement)
    moreover have "uint (word_of_int (- 2 * x - 1) :: 64 word) = - 2 * x - 1"
      unfolding uint_word_of_int using b True by simp
    ultimately show ?thesis using True by (simp only: zigzag_def Let_def two if_True)
  next
    case False
    have "uint (word_of_int (2 * x) :: 64 word) = 2 * x"
      unfolding uint_word_of_int using b False by simp
    then show ?thesis using False by (simp only: zigzag_def Let_def two if_False)
  qed
qed

lemma zigzag_inject: "int64 x \<Longrightarrow> int64 y \<Longrightarrow> zigzag x = zigzag y \<longleftrightarrow> x = y"
proof
  assume "int64 x" "int64 y" "zigzag x = zigzag y"
  then have "(if x < 0 then - 2 * x - 1 else 2 * x) = (if y < 0 then - 2 * y - 1 else 2 * y)"
    using uint_zigzag [of x] uint_zigzag [of y] by simp
  then show "x = y" by (auto split: if_splits) presburger+
qed simp

end
