(* ===== verification/EtagServer.thy ===== *)
theory EtagServer
  imports GoHash Middleware GoUrlString
begin

text \<open>
  The file server the mirror is tried against, \<open>src/internal/etagging-server/main.go\<close>: the entity
  tag it derives from a file's modification time and size, and the two wrappers around
  \<open>http.FileServer\<close>. \<open>stat\<close> is \<open>os.Root.Stat\<close>, giving \<open>UnixNano\<close> of the
  modification time and the size; \<open>next\<close> is the wrapped handler, a function of the headers set so
  far and the request.
\<close>

section \<open>Tags\<close>

definition stat_name :: "string \<Rightarrow> string" where
  "stat_name urlPath =
     (let name = TrimPrefix (path_Clean (CHR ''/'' # urlPath)) ''/''
      in if name = [] then ''.'' else name)"

definition etag_input :: "int \<Rightarrow> int \<Rightarrow> byte list" where
  "etag_input mtime sz = AppendVarint (AppendVarint [] mtime) sz"

definition generateEtag :: "(string \<Rightarrow> go_error + int \<times> int) \<Rightarrow> string \<Rightarrow> go_error + string" where
  "generateEtag stat urlPath =
     (let name = stat_name urlPath
      in case stat name of
           Inl err \<Rightarrow> Inl (Wrapf err ''stat %s'' [name])
         | Inr (mtime, sz) \<Rightarrow> Inr (EncodeToString (Sum256 (etag_input mtime sz))))"

text \<open>\<open>strconv.Quote\<close>, on strings of printable ASCII.\<close>

definition Quote :: "string \<Rightarrow> string" where
  "Quote s =
     [DQUOTE] @ concat (map (\<lambda>c. if c = DQUOTE \<or> c = CHR 0x5C then [CHR 0x5C, c] else [c]) s) @ [DQUOTE]"

section \<open>Handlers\<close>

definition withEtag :: "(string \<Rightarrow> go_error + int \<times> int) \<Rightarrow> (header \<Rightarrow> Request \<Rightarrow> 'r) \<Rightarrow> header \<Rightarrow> Request \<Rightarrow> 'r" where
  "withEtag stat next h r =
     (if Method r = ''HEAD'' \<or> Method r = ''GET''
      then (case generateEtag stat (Path (ReqURL r)) of
              Inr etag \<Rightarrow> next (hdr_Set h ''Etag'' (Quote etag)) r
            | Inl err \<Rightarrow> next h r)
      else next h r)"

definition LoggingMiddleware :: "(header \<Rightarrow> Request \<Rightarrow> 'r) \<Rightarrow> header \<Rightarrow> Request \<Rightarrow> log_line \<times> 'r" where
  "LoggingMiddleware next h r =
     (log_at LevelInfo [] ''Request received: %q %q'' [AStr ''%q'' (Method r), AStr ''%q'' (URL_String (ReqURL r))],
      next h r)"

text \<open>The handler \<open>main\<close> serves.\<close>

definition etag_handler :: "(string \<Rightarrow> go_error + int \<times> int) \<Rightarrow> (header \<Rightarrow> Request \<Rightarrow> 'r) \<Rightarrow> header \<Rightarrow> Request \<Rightarrow> log_line \<times> 'r" where
  "etag_handler stat fileServer = LoggingMiddleware (withEtag stat fileServer)"

section \<open>Facts\<close>

definition plain_elem :: "string \<Rightarrow> bool" where
  "plain_elem e \<longleftrightarrow> e \<noteq> [] \<and> e \<noteq> ''.'' \<and> e \<noteq> ''..'' \<and> CHR ''/'' \<notin> set e"

lemma clean_elems_plain:
  "list_all plain_elem out \<Longrightarrow> \<forall>e \<in> set es. CHR ''/'' \<notin> set e \<Longrightarrow> list_all plain_elem (clean_elems True out es)"
proof (induction es arbitrary: out)
  case Nil
  then show ?case by (simp add: list_all_iff)
next
  case (Cons e es)
  then have es: "\<forall>e \<in> set es. CHR ''/'' \<notin> set e" and e: "CHR ''/'' \<notin> set e" by simp_all
  have tl: "list_all plain_elem (tl out)" using Cons.prems(1) by (cases out) simp_all
  have keep: "e \<noteq> [] \<Longrightarrow> e \<noteq> ''.'' \<Longrightarrow> e \<noteq> ''..'' \<Longrightarrow> list_all plain_elem (e # out)"
    using e Cons.prems(1) by (simp add: plain_elem_def [of e])
  note IH = Cons.IH [OF Cons.prems(1) es] Cons.IH [OF tl es] Cons.IH [OF keep es]
  show ?case unfolding clean_elems.simps using IH by simp
qed

lemma stat_name_elems:
  obtains es where "list_all plain_elem es" "stat_name p = (if es = [] then ''.'' else Join ''/'' es)"
proof -
  let ?es = "clean_elems True [] (Split CHR ''/'' (CHR ''/'' # p))"
  have e: "list_all plain_elem ?es"
    by (rule clean_elems_plain) (simp, metis Split_parts)
  have "path_Clean (CHR ''/'' # p) = CHR ''/'' # Join ''/'' ?es"
    by (simp add: path_Clean_def HasPrefix_def Let_def)
  moreover have "?es \<noteq> [] \<Longrightarrow> Join ''/'' ?es \<noteq> []"
    using e by (auto simp: Join_Nil_iff plain_elem_def)
  ultimately have "stat_name p = (if ?es = [] then ''.'' else Join ''/'' ?es)"
    by (simp add: stat_name_def Let_def TrimPrefix_def HasPrefix_def)
  with e that show ?thesis by blast
qed

lemma Quote_hex: "list_all is_hex s \<Longrightarrow> Quote s = [DQUOTE] @ s @ [DQUOTE]"
proof -
  assume "list_all is_hex s"
  then have "concat (map (\<lambda>c. if c = DQUOTE \<or> c = CHR 0x5C then [CHR 0x5C, c] else [c]) s) = s"
    by (induction s) (auto simp: is_hex_def is_digit_def)
  then show ?thesis by (simp add: Quote_def)
qed

lemma etag_input_inject:
  assumes "int64 m" "int64 s" "int64 m'" "int64 s'"
  shows "etag_input m s = etag_input m' s' \<longleftrightarrow> m = m' \<and> s = s'"
proof
  assume "etag_input m s = etag_input m' s'"
  then have "put_uvarint (zigzag m) @ put_uvarint (zigzag s) = put_uvarint (zigzag m') @ put_uvarint (zigzag s')"
    by (simp add: etag_input_def AppendVarint_def)
  from put_uvarint_prefix [OF this] have "zigzag m = zigzag m'"
    and t: "put_uvarint (zigzag s) = put_uvarint (zigzag s')" by simp_all
  moreover have "zigzag s = zigzag s'" using put_uvarint_prefix [of "zigzag s" "[]" "zigzag s'" "[]"] t by simp
  ultimately show "m = m' \<and> s = s'" using assms zigzag_inject by blast
qed simp

section \<open>Properties\<close>

text \<open>
  C40. The tag of the test server identifies a file's version as far as a digest can: the name looked up
  never leaves the served directory - it is the directory itself or a sequence of plain names - the
  digest is taken of bytes that determine modification time and size, and what is sent is a quoted
  string of 64 hexadecimal digits, which the mirror accepts as a strong validator of itself.
\<close>

theorem etag_identifies_version:
  assumes "generateEtag stat urlPath = Inr etag"
  shows "\<exists>name mtime sz. stat name = Inr (mtime, sz) \<and> etag = EncodeToString (Sum256 (etag_input mtime sz)) \<and>
    (name = ''.'' \<or> list_all plain_elem (Split CHR ''/'' name)) \<and>
    (\<forall>m s. int64 mtime \<longrightarrow> int64 sz \<longrightarrow> int64 m \<longrightarrow> int64 s \<longrightarrow> etag_input m s = etag_input mtime sz \<longrightarrow> m = mtime \<and> s = sz) \<and>
    Quote etag = [DQUOTE] @ etag @ [DQUOTE] \<and> length etag = 64 \<and> list_all is_hex etag \<and>
    (\<forall>t. etagStrongMatch (Quote etag) t \<longleftrightarrow> t = Quote etag)"
proof -
  obtain es where es: "list_all plain_elem es" "stat_name urlPath = (if es = [] then ''.'' else Join ''/'' es)"
    by (rule stat_name_elems)
  from assms obtain m s where st: "stat (stat_name urlPath) = Inr (m, s)" "etag = EncodeToString (Sum256 (etag_input m s))"
    by (auto simp: generateEtag_def Let_def split: sum.splits)
  have hex: "length etag = 64" "list_all is_hex etag"
    using EncodeToString_shape [of "Sum256 (etag_input m s)"] st(2) by simp_all
  note q = Quote_hex [OF hex(2)]
  have "stat_name urlPath = ''.'' \<or> list_all plain_elem (Split CHR ''/'' (stat_name urlPath))"
  proof (cases "es = []")
    case False
    then have "Split CHR ''/'' (Join ''/'' es) = es"
      using es(1) by (intro Split_Join) (auto simp: list_all_iff plain_elem_def)
    with False es show ?thesis by simp
  qed (use es in simp)
  moreover have "etagStrongMatch (Quote etag) t \<longleftrightarrow> t = Quote etag" for t
    unfolding q by (auto simp: etagStrongMatch_def HasPrefix_def HasSuffix_def)
  ultimately show ?thesis
    using st hex q etag_input_inject by (intro exI conjI) (assumption | blast)+
qed

text \<open>
  Only reads are tagged: a request that is not a GET or a HEAD, or whose file cannot be looked up, reaches
  the file server with the headers as they are.
\<close>

lemma untagged:
  "Method r \<noteq> ''GET'' \<and> Method r \<noteq> ''HEAD'' \<or> isl (generateEtag stat (Path (ReqURL r))) \<Longrightarrow>
   snd (etag_handler stat fileServer h r) = fileServer h r"
  by (auto simp: etag_handler_def LoggingMiddleware_def withEtag_def isl_def split: sum.splits)

theorem etag_identifies_version_witness:
  "\<exists>etag. generateEtag (\<lambda>n. Inr (1700000000000000000, 12)) ''/../a/b.txt'' = Inr etag \<and> length etag = 64"
proof -
  obtain etag where e: "generateEtag (\<lambda>n. Inr (1700000000000000000, 12)) ''/../a/b.txt'' = Inr etag"
    by (simp add: generateEtag_def Let_def)
  from etag_identifies_version [OF e] e show ?thesis by blast
qed

end
